theory Spec2Isabelle
  imports Main "HOL-Library.Char_ord" "HOL-Library.List_Lexorder" "HOL-Library.AList"
begin

section \<open>IMAP utility functions (\<^verbatim>\<open>offlineimap/imaputil.py\<close>)\<close>

subsection \<open>Python string primitives\<close>

text \<open>
  The double quote and the backslash, the two characters \<^verbatim>\<open>quote\<close> and
  \<^verbatim>\<open>dequote\<close> treat specially.
\<close>

definition DQ :: char where
  "DQ = CHR 0x22"

definition BS :: char where
  "BS = CHR 0x5C"

text \<open>
  Python's \<^verbatim>\<open>s.replace(old, new)\<close>: the occurrences of \<open>old\<close> are found from
  left to right and do not overlap. With an empty \<open>old\<close>, Python puts \<open>new\<close>
  before every character and at the end.
\<close>

function replace :: "string \<Rightarrow> string \<Rightarrow> string \<Rightarrow> string" where
  "replace old new s =
     (if old = [] then new @ concat (map (\<lambda>c. c # new) s)
      else if s = [] then []
      else if take (length old) s = old then new @ replace old new (drop (length old) s)
      else hd s # replace old new (tl s))"
  by pat_completeness auto
termination
  by (relation "measure (\<lambda>(old, new, s). length s)") auto

declare replace.simps [simp del]

text \<open>Python's \<^verbatim>\<open>sep.join(xs)\<close>.\<close>

fun join :: "string \<Rightarrow> string list \<Rightarrow> string" where
  "join sep [] = []"
| "join sep [x] = x"
| "join sep (x # y # ys) = x @ sep @ join sep (y # ys)"

text \<open>Python's \<^verbatim>\<open>str(n)\<close> on an integer: decimal digits, with a sign when negative.\<close>

function str_nat :: "nat \<Rightarrow> string" where
  "str_nat n = (if n < 10 then [char_of (48 + n)]
                else str_nat (n div 10) @ [char_of (48 + n mod 10)])"
  by pat_completeness auto
termination
  by (relation "measure id") auto

declare str_nat.simps [simp del]

definition str :: "int \<Rightarrow> string" where
  "str i = (if i < 0 then CHR ''-'' # str_nat (nat (- i)) else str_nat (nat i))"

subsection \<open>\<^verbatim>\<open>quote\<close> and \<^verbatim>\<open>dequote\<close>\<close>

text \<open>
  \<^verbatim>\<open>
  def dequote(s):
      if s and s.startswith('"') and s.endswith('"'):
          s = s[1:-1]  # Strip off the surrounding quotes.
          s = s.replace('\\"', '"')
          s = s.replace('\\\\', '\\')
      return s
  \<close>
  The slice \<^verbatim>\<open>s[1:-1]\<close> drops the first and the last character; on the one-character
  string it is empty.
\<close>

definition dequote :: "string \<Rightarrow> string" where
  "dequote s =
     (if s \<noteq> [] \<and> hd s = DQ \<and> last s = DQ then
        (let s1 = butlast (tl s);
             s2 = replace [BS, DQ] [DQ] s1;
             s3 = replace [BS, BS] [BS] s2
         in s3)
      else s)"

text \<open>
  \<^verbatim>\<open>
  def quote(s):
      s = s.replace('"', '\\"')
      s = s.replace('\\', '\\\\')
      return '"%s"' % s
  \<close>
\<close>

definition quote :: "string \<Rightarrow> string" where
  "quote s =
     (let s1 = replace [DQ] [BS, DQ] s;
          s2 = replace [BS] [BS, BS] s1
      in [DQ] @ s2 @ [DQ])"

subsection \<open>\<^verbatim>\<open>uid_sequence\<close>\<close>

text \<open>
  \<^verbatim>\<open>
  def getrange(start, end):
      if start == end:
          return str(start)
      return "%s:%s" % (start, end)
  \<close>
\<close>

definition getrange :: "int \<Rightarrow> int \<Rightarrow> string" where
  "getrange start end = (if start = end then str start else str start @ '':'' @ str end)"

text \<open>
  The loop of \<^verbatim>\<open>uid_sequence\<close> keeps \<^verbatim>\<open>start, end\<close> (both \<^verbatim>\<open>None\<close> before
  the first item) and the list \<^verbatim>\<open>retval\<close> of the ranges rendered so far:
  \<^verbatim>\<open>
      for item in iter(sorted_uids):
          item = int(item)
          if start is None:  # First item
              start, end = item, item
          elif item == end + 1:  # Next item in a range
              end = item
          else:  # Starting a new range
              retval.append(getrange(start, end))
              start, end = item, item
  \<close>
\<close>

type_synonym useq_state = "(int \<times> int) option \<times> string list"

fun uid_sequence_step :: "int \<Rightarrow> useq_state \<Rightarrow> useq_state" where
  "uid_sequence_step item (None, retval) = (Some (item, item), retval)"
| "uid_sequence_step item (Some (start, end), retval) =
     (if item = end + 1 then (Some (start, item), retval)
      else (Some (item, item), retval @ [getrange start end]))"

text \<open>
  \<^verbatim>\<open>
  def uid_sequence(uidlist):
      if not len(uidlist):
          return ''  # Empty list, return
      start, end = None, None
      retval = []
      sorted_uids = sorted(map(int, uidlist))
      for item in iter(sorted_uids): ...
      retval.append(getrange(start, end))  # Add final range/item
      return ",".join(retval)
  \<close>
  After the loop over a non-empty list \<^verbatim>\<open>start\<close> is never \<^verbatim>\<open>None\<close>; the model
  keeps the branch, where Python would render \<^verbatim>\<open>str(None)\<close>.
\<close>

definition uid_sequence :: "int list \<Rightarrow> string" where
  "uid_sequence uidlist =
     (if length uidlist = 0 then []
      else (let sorted_uids = sort uidlist;
                (se, retval) = fold uid_sequence_step sorted_uids (None, [])
            in case se of
                 None \<Rightarrow> join '','' (retval @ [''None''])
               | Some (start, end) \<Rightarrow> join '','' (retval @ [getrange start end])))"

text \<open>
  The runs behind the rendered text: the same loop, collecting the pairs
  \<open>(start, end)\<close> instead of their renderings.
\<close>

type_synonym runs_state = "(int \<times> int) option \<times> (int \<times> int) list"

fun runs_step :: "int \<Rightarrow> runs_state \<Rightarrow> runs_state" where
  "runs_step item (None, rs) = (Some (item, item), rs)"
| "runs_step item (Some (start, end), rs) =
     (if item = end + 1 then (Some (start, item), rs)
      else (Some (item, item), rs @ [(start, end)]))"

definition uid_runs :: "int list \<Rightarrow> (int \<times> int) list" where
  "uid_runs uidlist =
     (case fold runs_step (sort uidlist) (None, []) of
        (None, rs) \<Rightarrow> rs
      | (Some p, rs) \<Rightarrow> rs @ [p])"

definition render_runs :: "(int \<times> int) list \<Rightarrow> string" where
  "render_runs rs = join '','' (map (\<lambda>(a, b). getrange a b) rs)"

text \<open>
  Runs are well formed when each is a non-empty interval and every later run starts
  more than one above the end of every earlier one: ascending, disjoint, and no two
  of them could be merged.
\<close>

definition runs_wf :: "(int \<times> int) list \<Rightarrow> bool" where
  "runs_wf rs \<longleftrightarrow> list_all (\<lambda>(a, b). a \<le> b) rs \<and> sorted_wrt (\<lambda>(a, b) (c, d). b + 1 < c) rs"

definition runs_set :: "(int \<times> int) list \<Rightarrow> int set" where
  "runs_set rs = (\<Union>(a, b) \<in> set rs. {a..b})"

section \<open>The folder abstraction (\<^verbatim>\<open>offlineimap/folder/Base.py\<close>)\<close>

subsection \<open>Errors\<close>

text \<open>
  Modelled from the spec: the class \<^verbatim>\<open>OfflineImapError\<close> with its \<^verbatim>\<open>ERROR\<close>
  severities is imported by the folder classes but its file is not among the sources
  at hand. The error taxonomy of the specification lists the severities in ascending
  order: Message, Folder, Folder-retry, Repo, Critical.
\<close>

datatype severity = MESSAGE | FOLDER | FOLDER_RETRY | REPO | CRITICAL

fun severity_rank :: "severity \<Rightarrow> nat" where
  "severity_rank MESSAGE = 0"
| "severity_rank FOLDER = 1"
| "severity_rank FOLDER_RETRY = 2"
| "severity_rank REPO = 3"
| "severity_rank CRITICAL = 4"

text \<open>
  The exceptions the engine tells apart: its own \<^verbatim>\<open>OfflineImapError\<close> with a
  severity, \<^verbatim>\<open>KeyboardInterrupt\<close>, \<^verbatim>\<open>NotImplementedError\<close> (raised by the abstract
  methods of \<^verbatim>\<open>BaseFolder\<close>), \<^verbatim>\<open>KeyError\<close> (a dictionary read of a missing key),
  \<^verbatim>\<open>AssertionError\<close>, \<^verbatim>\<open>TypeError\<close>, and any other exception.
\<close>

datatype exn =
    OfflineImapError severity
  | KeyboardInterrupt
  | NotImplementedError
  | KeyError
  | AssertionError
  | TypeError
  | OtherException

subsection \<open>Message lists\<close>

type_synonym uid = int

text \<open>
  An entry of \<^verbatim>\<open>self.messagelist\<close>: the flags (a set of one-letter flags), the
  time, and the keywords. The key \<^verbatim>\<open>'keywords'\<close> is absent from an entry made by
  \<^verbatim>\<open>msglist_item_initializer\<close> of the IMAP folder.
\<close>

record message =
  flags :: "char set"
  rtime :: int
  keywordset :: "string set option"

text \<open>
  \<^verbatim>\<open>self.messagelist\<close> is a Python dictionary from UID to entry: an association
  list with distinct keys, read with \<^const>\<open>map_of\<close> and written with
  \<^const>\<open>AList.update\<close> and \<^const>\<open>AList.delete\<close>.
\<close>

type_synonym messagelist = "(uid \<times> message) list"

text \<open>
  \<^verbatim>\<open>
  def uidexists(self, uid):
      return uid in self.getmessagelist()

  def getmessageuidlist(self):
      return sorted(self.getmessagelist().keys())
  \<close>
\<close>

definition uidexists :: "messagelist \<Rightarrow> uid \<Rightarrow> bool" where
  "uidexists ml uid \<longleftrightarrow> map_of ml uid \<noteq> None"

definition getmessageuidlist :: "messagelist \<Rightarrow> uid list" where
  "getmessageuidlist ml = sort (map fst ml)"

text \<open>
  \<^verbatim>\<open>getmessageflags\<close> and \<^verbatim>\<open>getmessagetime\<close> read the cached entry
  (\<^verbatim>\<open>self.messagelist[uid]['flags']\<close>, \<^verbatim>\<open>self.messagelist[uid]['time']\<close>);
  a missing UID is a \<^verbatim>\<open>KeyError\<close>.
\<close>

definition getmessageflags :: "messagelist \<Rightarrow> uid \<Rightarrow> exn + char set" where
  "getmessageflags ml uid = (case map_of ml uid of None \<Rightarrow> Inl KeyError | Some m \<Rightarrow> Inr (flags m))"

definition getmessagetime :: "messagelist \<Rightarrow> uid \<Rightarrow> exn + int" where
  "getmessagetime ml uid = (case map_of ml uid of None \<Rightarrow> Inl KeyError | Some m \<Rightarrow> Inr (rtime m))"

subsection \<open>The backend interface\<close>

text \<open>
  The methods \<^verbatim>\<open>BaseFolder\<close> leaves to its subclasses (they raise
  \<^verbatim>\<open>NotImplementedError\<close> in the base class), as a record of functions on the
  message list of the folder. A method returns the exception it raised, if any,
  together with the message list as it left it. \<open>'b\<close> is the type of message
  bodies. \<open>has_keywords\<close> tells whether the backend overrides
  \<^verbatim>\<open>getmessagekeywords\<close>; \<open>getkeywordmap\<close> is
  \<^verbatim>\<open>self.getrepository().getkeywordmap()\<close>, a dictionary from keyword to flag
  letter, or \<^verbatim>\<open>None\<close>.
\<close>

record 'b folder_ops =
  storesmessages :: bool
  getmessage :: "messagelist \<Rightarrow> uid \<Rightarrow> exn + 'b"
  savemessage :: "messagelist \<Rightarrow> uid \<Rightarrow> 'b option \<Rightarrow> char set \<Rightarrow> int \<Rightarrow> (exn + int) \<times> messagelist"
  change_message_uid :: "messagelist \<Rightarrow> uid \<Rightarrow> uid \<Rightarrow> exn option \<times> messagelist"
  deletemessage :: "messagelist \<Rightarrow> uid \<Rightarrow> exn option \<times> messagelist"
  deletemessages :: "messagelist \<Rightarrow> uid list \<Rightarrow> exn option \<times> messagelist"
  addmessagesflags :: "messagelist \<Rightarrow> uid list \<Rightarrow> char set \<Rightarrow> exn option \<times> messagelist"
  deletemessagesflags :: "messagelist \<Rightarrow> uid list \<Rightarrow> char set \<Rightarrow> exn option \<times> messagelist"
  has_keywords :: bool
  getkeywordmap :: "exn + (string \<times> char) list option"

text \<open>
  \<^verbatim>\<open>getmessagekeywords\<close>: \<^verbatim>\<open>NotImplementedError\<close> in the base class; a backend
  with keywords returns \<^verbatim>\<open>self.messagelist[uid]['keywords']\<close>.
\<close>

definition getmessagekeywords :: "'b folder_ops \<Rightarrow> messagelist \<Rightarrow> uid \<Rightarrow> exn + string set" where
  "getmessagekeywords ops ml uid =
     (if \<not> has_keywords ops then Inl NotImplementedError
      else case map_of ml uid of
             None \<Rightarrow> Inl KeyError
           | Some m \<Rightarrow> (case keywordset m of None \<Rightarrow> Inl KeyError | Some ks \<Rightarrow> Inr ks))"

subsection \<open>Flag and delete loops of the base class\<close>

text \<open>
  \<^verbatim>\<open>
  def addmessageflags(self, uid, flags):
      newflags = self.getmessageflags(uid) | flags
      self.savemessageflags(uid, newflags)

  def addmessagesflags(self, uidlist, flags):
      for uid in uidlist:
          if self.uidexists(uid):
              self.addmessageflags(uid, flags)

  def deletemessageflags(self, uid, flags):
      newflags = self.getmessageflags(uid) - flags
      self.savemessageflags(uid, newflags)

  def deletemessagesflags(self, uidlist, flags):
      for uid in uidlist:
          self.deletemessageflags(uid, flags)

  def deletemessages(self, uidlist):
      for uid in uidlist:
          self.deletemessage(uid)
  \<close>
  The first argument is the \<^verbatim>\<open>savemessageflags\<close>, or the \<^verbatim>\<open>deletemessage\<close>, of
  the subclass.
\<close>

type_synonym saveflags = "messagelist \<Rightarrow> uid \<Rightarrow> char set \<Rightarrow> exn option \<times> messagelist"

definition Base_addmessageflags :: "saveflags \<Rightarrow> messagelist \<Rightarrow> uid \<Rightarrow> char set \<Rightarrow> exn option \<times> messagelist" where
  "Base_addmessageflags save ml uid fl =
     (case getmessageflags ml uid of
        Inl e \<Rightarrow> (Some e, ml)
      | Inr old \<Rightarrow> save ml uid (old \<union> fl))"

fun Base_addmessagesflags :: "saveflags \<Rightarrow> messagelist \<Rightarrow> uid list \<Rightarrow> char set \<Rightarrow> exn option \<times> messagelist" where
  "Base_addmessagesflags save ml [] fl = (None, ml)"
| "Base_addmessagesflags save ml (uid # uidlist) fl =
     (if uidexists ml uid then
        (case Base_addmessageflags save ml uid fl of
           (Some e, ml') \<Rightarrow> (Some e, ml')
         | (None, ml') \<Rightarrow> Base_addmessagesflags save ml' uidlist fl)
      else Base_addmessagesflags save ml uidlist fl)"

definition Base_deletemessageflags :: "saveflags \<Rightarrow> messagelist \<Rightarrow> uid \<Rightarrow> char set \<Rightarrow> exn option \<times> messagelist" where
  "Base_deletemessageflags save ml uid fl =
     (case getmessageflags ml uid of
        Inl e \<Rightarrow> (Some e, ml)
      | Inr old \<Rightarrow> save ml uid (old - fl))"

fun Base_deletemessagesflags :: "saveflags \<Rightarrow> messagelist \<Rightarrow> uid list \<Rightarrow> char set \<Rightarrow> exn option \<times> messagelist" where
  "Base_deletemessagesflags save ml [] fl = (None, ml)"
| "Base_deletemessagesflags save ml (uid # uidlist) fl =
     (case Base_deletemessageflags save ml uid fl of
        (Some e, ml') \<Rightarrow> (Some e, ml')
      | (None, ml') \<Rightarrow> Base_deletemessagesflags save ml' uidlist fl)"

fun Base_deletemessages :: "(messagelist \<Rightarrow> uid \<Rightarrow> exn option \<times> messagelist) \<Rightarrow> messagelist \<Rightarrow> uid list \<Rightarrow> exn option \<times> messagelist" where
  "Base_deletemessages del ml [] = (None, ml)"
| "Base_deletemessages del ml (uid # uidlist) =
     (case del ml uid of
        (Some e, ml') \<Rightarrow> (Some e, ml')
      | (None, ml') \<Rightarrow> Base_deletemessages del ml' uidlist)"

subsection \<open>The status folder\<close>

text \<open>
  Modelled from the spec: the class of the status folder (\<^verbatim>\<open>LocalStatusFolder\<close>)
  is not among the sources at hand. The specification describes it as a mapping from
  UID to flags, keywords and internal time with the interface of a folder:
  \<^verbatim>\<open>save\<close> ignores the body and writes the flags and the time under the UID,
  \<^verbatim>\<open>delete\<close> is idempotent, and \<^verbatim>\<open>save_flags\<close> sets the flags of an entry. The
  specification does not say what \<^verbatim>\<open>save_flags\<close> does without an entry; a
  dictionary write to a missing entry is a \<^verbatim>\<open>KeyError\<close>. Whatever the base class
  implements (\<^verbatim>\<open>uidexists\<close>, \<^verbatim>\<open>deletemessages\<close>, the flag loops) is taken from
  the base class.
\<close>

definition status_savemessage :: "messagelist \<Rightarrow> uid \<Rightarrow> char set \<Rightarrow> int \<Rightarrow> messagelist" where
  "status_savemessage st uid fl t = AList.update uid \<lparr>flags = fl, rtime = t, keywordset = Some {}\<rparr> st"

definition status_deletemessage :: "messagelist \<Rightarrow> uid \<Rightarrow> exn option \<times> messagelist" where
  "status_deletemessage st uid = (None, AList.delete uid st)"

definition status_savemessageflags :: saveflags where
  "status_savemessageflags st uid fl =
     (case map_of st uid of
        None \<Rightarrow> (Some KeyError, st)
      | Some m \<Rightarrow> (None, AList.update uid (m\<lparr>flags := fl\<rparr>) st))"

definition status_deletemessages :: "messagelist \<Rightarrow> uid list \<Rightarrow> exn option \<times> messagelist" where
  "status_deletemessages = Base_deletemessages status_deletemessage"

definition status_addmessagesflags :: "messagelist \<Rightarrow> uid list \<Rightarrow> char set \<Rightarrow> exn option \<times> messagelist" where
  "status_addmessagesflags = Base_addmessagesflags status_savemessageflags"

definition status_deletemessagesflags :: "messagelist \<Rightarrow> uid list \<Rightarrow> char set \<Rightarrow> exn option \<times> messagelist" where
  "status_deletemessagesflags = Base_deletemessagesflags status_savemessageflags"

section \<open>The three-pass synchronizer (\<^verbatim>\<open>BaseFolder.syncmessagesto\<close>)\<close>

subsection \<open>State, settings and trace\<close>

text \<open>
  What the engine reads but does not write: the account's \<^verbatim>\<open>dryrun\<close> option, the
  folder's \<^verbatim>\<open>_sync_deletes\<close> and \<^verbatim>\<open>copy_ignoreUIDs\<close> (a list or \<^verbatim>\<open>None\<close>), the
  latch \<^verbatim>\<open>abort_NOW_signal\<close>, and whether \<^verbatim>\<open>newmail_hook\<close> is set.
\<close>

record settings =
  dryrun :: bool
  sync_deletes :: bool
  copy_ignoreUIDs :: "uid list option"
  abort_NOW_signal :: bool
  newmail_hook :: bool

text \<open>
  The trace lists, in order, the calls the engine makes on the user interface and
  on the methods of the three folders that read a body or write a folder.
\<close>

datatype event =
    Ui_warn
  | Ui_error exn
  | Ui_info_dryrun_copy nat
  | Ui_ignorecopyingmessage uid
  | Ui_copyingmessage uid nat nat
  | Ui_deletingmessages "uid list"
  | Ui_addingflags "uid list" char
  | Ui_deletingflags "uid list" char
  | Src_getmessage uid
  | Src_change_message_uid uid uid
  | Src_deletemessage uid
  | Dst_savemessage uid
  | Dst_deletemessages "uid list"
  | Dst_addmessagesflags "uid list" char
  | Dst_deletemessagesflags "uid list" char
  | Status_savemessage uid
  | Status_deletemessage uid
  | Status_deletemessages "uid list"
  | Status_addmessagesflags "uid list" char
  | Status_deletemessagesflags "uid list" char
  | Newmail_hook

text \<open>
  The state of one run: the message lists of \<^verbatim>\<open>self\<close> (the source), of
  \<^verbatim>\<open>dstfolder\<close> and of \<^verbatim>\<open>statusfolder\<close>, the attribute \<^verbatim>\<open>have_newmail\<close>, and
  the trace.
\<close>

record sync_state =
  src :: messagelist
  dst :: messagelist
  status :: messagelist
  have_newmail :: bool
  trace :: "event list"

definition log :: "event list \<Rightarrow> sync_state \<Rightarrow> sync_state" where
  "log es s = s\<lparr>trace := trace s @ es\<rparr>"

subsection \<open>\<^verbatim>\<open>copymessageto\<close>\<close>

text \<open>
  The body of the \<^verbatim>\<open>try\<close> block:
  \<^verbatim>\<open>
  message = None
  flags = self.getmessageflags(uid)
  rtime = self.getmessagetime(uid)
  if dstfolder.storesmessages():
      message = self.getmessage(uid)
  new_uid = dstfolder.savemessage(uid, message, flags, rtime)
  if new_uid > 0:
      if new_uid != uid:
          self.change_message_uid(uid, new_uid)
          statusfolder.deletemessage(uid)
      statusfolder.savemessage(new_uid, message, flags, rtime)
      if 'S' not in flags:
          self.have_newmail = True
  elif new_uid == 0:
      self.deletemessage(uid)
  else:
      raise OfflineImapError(msg, OfflineImapError.ERROR.MESSAGE)
  \<close>
\<close>

definition copymessageto_load ::
  "'b folder_ops \<Rightarrow> 'b folder_ops \<Rightarrow> uid \<Rightarrow> sync_state \<Rightarrow> (exn + 'b option) \<times> sync_state" where
  "copymessageto_load srcops dstops uid s =
     (if storesmessages dstops then
        (case getmessage srcops (src s) uid of
           Inl e \<Rightarrow> (Inl e, log [Src_getmessage uid] s)
         | Inr m \<Rightarrow> (Inr (Some m), log [Src_getmessage uid] s))
      else (Inr None, s))"

definition copymessageto_saved ::
  "'b folder_ops \<Rightarrow> uid \<Rightarrow> int \<Rightarrow> char set \<Rightarrow> int \<Rightarrow> sync_state \<Rightarrow> exn option \<times> sync_state" where
  "copymessageto_saved srcops uid new_uid fl t s =
     (if new_uid > 0 then
        (case (if new_uid \<noteq> uid then
                 (case change_message_uid srcops (src s) uid new_uid of
                    (Some e, src') \<Rightarrow> (Some e, log [Src_change_message_uid uid new_uid] (s\<lparr>src := src'\<rparr>))
                  | (None, src') \<Rightarrow>
                      (case status_deletemessage (status s) uid of
                         (r, st') \<Rightarrow>
                           (r, log [Src_change_message_uid uid new_uid, Status_deletemessage uid]
                                 (s\<lparr>src := src', status := st'\<rparr>))))
               else (None, s)) of
           (Some e, s') \<Rightarrow> (Some e, s')
         | (None, s') \<Rightarrow>
             (None, log [Status_savemessage new_uid]
                      (s'\<lparr>status := status_savemessage (status s') new_uid fl t,
                          have_newmail := (if CHR ''S'' \<notin> fl then True else have_newmail s')\<rparr>)))
      else if new_uid = 0 then
        (case deletemessage srcops (src s) uid of
           (r, src') \<Rightarrow> (r, log [Src_deletemessage uid] (s\<lparr>src := src'\<rparr>)))
      else (Some (OfflineImapError MESSAGE), s))"

definition copymessageto_try ::
  "'b folder_ops \<Rightarrow> 'b folder_ops \<Rightarrow> uid \<Rightarrow> sync_state \<Rightarrow> exn option \<times> sync_state" where
  "copymessageto_try srcops dstops uid s =
     (case getmessageflags (src s) uid of
        Inl e \<Rightarrow> (Some e, s)
      | Inr fl \<Rightarrow>
     (case getmessagetime (src s) uid of
        Inl e \<Rightarrow> (Some e, s)
      | Inr t \<Rightarrow>
     (case copymessageto_load srcops dstops uid s of
        (Inl e, s1) \<Rightarrow> (Some e, s1)
      | (Inr message, s1) \<Rightarrow>
     (case savemessage dstops (dst s1) uid message fl t of
        (Inl e, dst') \<Rightarrow> (Some e, log [Dst_savemessage uid] (s1\<lparr>dst := dst'\<rparr>))
      | (Inr new_uid, dst') \<Rightarrow>
          copymessageto_saved srcops uid new_uid fl t (log [Dst_savemessage uid] (s1\<lparr>dst := dst'\<rparr>))))))"

text \<open>
  The handlers of \<^verbatim>\<open>copymessageto\<close>:
  \<^verbatim>\<open>
  except KeyboardInterrupt:  # Bubble up CTRL-C.
      raise
  except OfflineImapError as e:
      if e.severity > OfflineImapError.ERROR.MESSAGE:
          raise  # Bubble severe errors up.
      self.ui.error(e, exc_info()[2])
  except Exception as e:
      self.ui.error(e, exc_info()[2], msg=...)
      raise  # Raise on unknown errors, so we can fix those.
  \<close>
\<close>

fun copymessageto_except :: "exn \<Rightarrow> sync_state \<Rightarrow> exn option \<times> sync_state" where
  "copymessageto_except KeyboardInterrupt s = (Some KeyboardInterrupt, s)"
| "copymessageto_except (OfflineImapError sev) s =
     (if severity_rank sev > severity_rank MESSAGE then (Some (OfflineImapError sev), s)
      else (None, log [Ui_error (OfflineImapError sev)] s))"
| "copymessageto_except e s = (Some e, log [Ui_error e] s)"

definition copymessageto ::
  "'b folder_ops \<Rightarrow> 'b folder_ops \<Rightarrow> uid \<Rightarrow> sync_state \<Rightarrow> exn option \<times> sync_state" where
  "copymessageto srcops dstops uid s =
     (case copymessageto_try srcops dstops uid s of
        (None, s') \<Rightarrow> (None, s')
      | (Some e, s') \<Rightarrow> copymessageto_except e s')"

subsection \<open>Pass 1: copy\<close>

text \<open>
  \<^verbatim>\<open>
  if self.copy_ignoreUIDs is not None:
      for uid in self.copy_ignoreUIDs:
          if uid in copylist:
              copylist.remove(uid)
              self.ui.ignorecopyingmessage(uid, self, dstfolder)
  \<close>
\<close>

fun copy_ignore :: "uid list \<Rightarrow> uid list \<times> event list \<Rightarrow> uid list \<times> event list" where
  "copy_ignore [] (copylist, es) = (copylist, es)"
| "copy_ignore (uid # uids) (copylist, es) =
     (if uid \<in> set copylist
      then copy_ignore uids (remove1 uid copylist, es @ [Ui_ignorecopyingmessage uid])
      else copy_ignore uids (copylist, es))"

text \<open>
  One round of the loop over \<^verbatim>\<open>enumerate(copylist)\<close>, after the test of the abort
  latch. The model follows the branch in which \<^verbatim>\<open>suggeststhreads()\<close> is false and
  \<^verbatim>\<open>copymessageto\<close> is called in line; the other branch runs the same method in a
  thread of its own.
  \<^verbatim>\<open>
  if uid == 0:
      self.ui.warn(msg)
      continue
  if uid > 0 and dstfolder.uidexists(uid):
      flags = self.getmessageflags(uid)
      rtime = self.getmessagetime(uid)
      statusfolder.savemessage(uid, None, flags, rtime)
      continue
  self.ui.copyingmessage(uid, num + 1, num_to_copy, self, dstfolder)
  self.copymessageto(uid, dstfolder, statusfolder, register=0)
  \<close>
\<close>

definition copy_round ::
  "'b folder_ops \<Rightarrow> 'b folder_ops \<Rightarrow> nat \<Rightarrow> nat \<Rightarrow> uid \<Rightarrow> sync_state \<Rightarrow> exn option \<times> sync_state" where
  "copy_round srcops dstops num_to_copy num uid s =
     (if uid = 0 then (None, log [Ui_warn] s)
      else if uid > 0 \<and> uidexists (dst s) uid then
        (case getmessageflags (src s) uid of
           Inl e \<Rightarrow> (Some e, s)
         | Inr fl \<Rightarrow>
        (case getmessagetime (src s) uid of
           Inl e \<Rightarrow> (Some e, s)
         | Inr t \<Rightarrow>
             (None, log [Status_savemessage uid] (s\<lparr>status := status_savemessage (status s) uid fl t\<rparr>))))
      else copymessageto srcops dstops uid (log [Ui_copyingmessage uid (num + 1) num_to_copy] s))"

fun copy_loop ::
  "settings \<Rightarrow> 'b folder_ops \<Rightarrow> 'b folder_ops \<Rightarrow> nat \<Rightarrow> nat \<Rightarrow> uid list \<Rightarrow> sync_state \<Rightarrow> exn option \<times> sync_state" where
  "copy_loop cfg srcops dstops num_to_copy num [] s = (None, s)"
| "copy_loop cfg srcops dstops num_to_copy num (uid # copylist) s =
     (if abort_NOW_signal cfg then (None, s)
      else (case copy_round srcops dstops num_to_copy num uid s of
              (Some e, s') \<Rightarrow> (Some e, s')
            | (None, s') \<Rightarrow> copy_loop cfg srcops dstops num_to_copy (num + 1) copylist s'))"

text \<open>
  \<^verbatim>\<open>
  def __syncmessagesto_copy(self, dstfolder, statusfolder):
      self.have_newmail = False
      copylist = [uid for uid in self.getmessageuidlist()
                  if not statusfolder.uidexists(uid)]
      num_to_copy = len(copylist)
      (the copy_ignoreUIDs filter)
      if num_to_copy > 0 and self.repository.account.dryrun:
          self.ui.info("[DRYRUN] Copy {} messages from {}[{}] to {}".format(...))
          return
      with self:
          for num, uid in enumerate(copylist):
              if offlineimap.accounts.Account.abort_NOW_signal.is_set():
                  break
              ...
      if self.have_newmail:
          if self.newmail_hook is not None:
              self.newmail_hook()
  \<close>
\<close>

definition syncmessagesto_copy ::
  "settings \<Rightarrow> 'b folder_ops \<Rightarrow> 'b folder_ops \<Rightarrow> sync_state \<Rightarrow> exn option \<times> sync_state" where
  "syncmessagesto_copy cfg srcops dstops s =
     (let s0 = s\<lparr>have_newmail := False\<rparr>;
          copylist0 = filter (\<lambda>uid. \<not> uidexists (status s0) uid) (getmessageuidlist (src s0));
          num_to_copy = length copylist0;
          (copylist, es) = (case copy_ignoreUIDs cfg of
                              None \<Rightarrow> (copylist0, [])
                            | Some uids \<Rightarrow> copy_ignore uids (copylist0, []));
          s1 = log es s0
      in if num_to_copy > 0 \<and> dryrun cfg then (None, log [Ui_info_dryrun_copy num_to_copy] s1)
         else (case copy_loop cfg srcops dstops num_to_copy 0 copylist s1 of
                 (Some e, s2) \<Rightarrow> (Some e, s2)
               | (None, s2) \<Rightarrow>
                   (if have_newmail s2 \<and> newmail_hook cfg then (None, log [Newmail_hook] s2)
                    else (None, s2))))"

subsection \<open>Pass 2: delete\<close>

text \<open>
  \<^verbatim>\<open>
  def __syncmessagesto_delete(self, dstfolder, statusfolder):
      deletelist = [uid for uid in statusfolder.getmessageuidlist()
                    if uid >= 0 and
                    not self.uidexists(uid) and
                    (self._sync_deletes or not dstfolder.uidexists(uid))]
      if len(deletelist):
          if not self.repository.account.dryrun:
              statusfolder.deletemessages(deletelist)
          # Filter out untracked messages.
          deletelist = [uid for uid in deletelist if dstfolder.uidexists(uid)]
          if len(deletelist):
              self.ui.deletingmessages(deletelist, [dstfolder])
              if not self.repository.account.dryrun:
                  dstfolder.deletemessages(deletelist)
  \<close>
\<close>

definition deletelist_of :: "settings \<Rightarrow> sync_state \<Rightarrow> uid list" where
  "deletelist_of cfg s =
     filter (\<lambda>uid. uid \<ge> 0 \<and> \<not> uidexists (src s) uid \<and> (sync_deletes cfg \<or> \<not> uidexists (dst s) uid))
       (getmessageuidlist (status s))"

definition delete_from_status :: "settings \<Rightarrow> uid list \<Rightarrow> sync_state \<Rightarrow> exn option \<times> sync_state" where
  "delete_from_status cfg deletelist s =
     (if \<not> dryrun cfg then
        (case status_deletemessages (status s) deletelist of
           (r, st') \<Rightarrow> (r, log [Status_deletemessages deletelist] (s\<lparr>status := st'\<rparr>)))
      else (None, s))"

definition delete_from_dst :: "settings \<Rightarrow> 'b folder_ops \<Rightarrow> uid list \<Rightarrow> sync_state \<Rightarrow> exn option \<times> sync_state" where
  "delete_from_dst cfg dstops deletelist s =
     (if length deletelist \<noteq> 0 then
        (let s1 = log [Ui_deletingmessages deletelist] s
         in if \<not> dryrun cfg then
              (case deletemessages dstops (dst s1) deletelist of
                 (r, dst') \<Rightarrow> (r, log [Dst_deletemessages deletelist] (s1\<lparr>dst := dst'\<rparr>)))
            else (None, s1))
      else (None, s))"

definition syncmessagesto_delete ::
  "settings \<Rightarrow> 'b folder_ops \<Rightarrow> 'b folder_ops \<Rightarrow> sync_state \<Rightarrow> exn option \<times> sync_state" where
  "syncmessagesto_delete cfg srcops dstops s =
     (let deletelist = deletelist_of cfg s
      in if length deletelist \<noteq> 0 then
           (case delete_from_status cfg deletelist s of
              (Some e, s1) \<Rightarrow> (Some e, s1)
            | (None, s1) \<Rightarrow>
                delete_from_dst cfg dstops (filter (\<lambda>uid. uidexists (dst s1) uid) deletelist) s1)
         else (None, s))"

subsection \<open>Pass 3: flags\<close>

text \<open>
  \<^verbatim>\<open>
  def combine_flags_and_keywords(self, uid, dstfolder):
      selfflags = set(self.getmessageflags(uid))
      try:
          keywordmap = dstfolder.getrepository().getkeywordmap()
          if keywordmap is None:
              return selfflags
          knownkeywords = set(keywordmap.keys())
          selfkeywords = self.getmessagekeywords(uid)
          if not knownkeywords >= selfkeywords:
              skipped_keywords = list(selfkeywords - knownkeywords)
              selfkeywords &= knownkeywords
              self.ui.warn(msg)
          keywordletterset = set([keywordmap[keyw] for keyw in selfkeywords])
          selfflags |= keywordletterset
      except NotImplementedError:
          pass
      return selfflags
  \<close>
  \<^verbatim>\<open>selfkeywords\<close> is the very set held in the message list, so
  \<^verbatim>\<open>selfkeywords &= knownkeywords\<close> also updates the entry of the source.
\<close>

definition set_keywords :: "messagelist \<Rightarrow> uid \<Rightarrow> string set \<Rightarrow> messagelist" where
  "set_keywords ml uid ks =
     (case map_of ml uid of
        None \<Rightarrow> ml
      | Some m \<Rightarrow> AList.update uid (m\<lparr>keywordset := Some ks\<rparr>) ml)"

definition keywordletterset :: "(string \<times> char) list \<Rightarrow> string set \<Rightarrow> exn + char set" where
  "keywordletterset keywordmap selfkeywords =
     (if \<exists>keyw \<in> selfkeywords. map_of keywordmap keyw = None then Inl KeyError
      else Inr {c. \<exists>keyw \<in> selfkeywords. map_of keywordmap keyw = Some c})"

definition combine_mapped ::
  "(string \<times> char) list \<Rightarrow> uid \<Rightarrow> char set \<Rightarrow> string set \<Rightarrow> sync_state \<Rightarrow> (exn + char set) \<times> sync_state" where
  "combine_mapped keywordmap uid selfflags selfkeywords s =
     (let knownkeywords = set (map fst keywordmap);
          (selfkeywords', s') =
             (if \<not> selfkeywords \<subseteq> knownkeywords
              then (selfkeywords \<inter> knownkeywords,
                    log [Ui_warn] (s\<lparr>src := set_keywords (src s) uid (selfkeywords \<inter> knownkeywords)\<rparr>))
              else (selfkeywords, s))
      in case keywordletterset keywordmap selfkeywords' of
           Inl e \<Rightarrow> (Inl e, s')
         | Inr letters \<Rightarrow> (Inr (selfflags \<union> letters), s'))"

definition combine_flags_and_keywords ::
  "'b folder_ops \<Rightarrow> 'b folder_ops \<Rightarrow> uid \<Rightarrow> sync_state \<Rightarrow> (exn + char set) \<times> sync_state" where
  "combine_flags_and_keywords srcops dstops uid s =
     (case getmessageflags (src s) uid of
        Inl e \<Rightarrow> (Inl e, s)
      | Inr selfflags \<Rightarrow>
     (case getkeywordmap dstops of
        Inl e \<Rightarrow> (if e = NotImplementedError then (Inr selfflags, s) else (Inl e, s))
      | Inr None \<Rightarrow> (Inr selfflags, s)
      | Inr (Some keywordmap) \<Rightarrow>
     (case getmessagekeywords srcops (src s) uid of
        Inl e \<Rightarrow> (if e = NotImplementedError then (Inr selfflags, s) else (Inl e, s))
      | Inr selfkeywords \<Rightarrow>
     (case combine_mapped keywordmap uid selfflags selfkeywords s of
        (Inl e, s') \<Rightarrow> (if e = NotImplementedError then (Inr selfflags, s') else (Inl e, s'))
      | (Inr fl, s') \<Rightarrow> (Inr fl, s')))))"

text \<open>
  The dictionaries \<^verbatim>\<open>addflaglist\<close> and \<^verbatim>\<open>delflaglist\<close> map a flag to the list
  of the UIDs it is to be added to, or removed from:
  \<^verbatim>\<open>
  for flag in addflags:
      if flag not in addflaglist:
          addflaglist[flag] = []
      addflaglist[flag].append(uid)
  \<close>
  Python walks a set in an order of its own; the model walks it in ascending order.
\<close>

type_synonym flaglist = "(char \<times> uid list) list"

definition flaglist_append :: "uid \<Rightarrow> char \<Rightarrow> flaglist \<Rightarrow> flaglist" where
  "flaglist_append uid flag d =
     (case map_of d flag of
        None \<Rightarrow> AList.update flag [uid] d
      | Some uids \<Rightarrow> AList.update flag (uids @ [uid]) d)"

definition flaglist_extend :: "uid \<Rightarrow> char set \<Rightarrow> flaglist \<Rightarrow> flaglist" where
  "flaglist_extend uid fls d = fold (flaglist_append uid) (sorted_list_of_set fls) d"

text \<open>
  The first loop of \<^verbatim>\<open>__syncmessagesto_flags\<close>:
  \<^verbatim>\<open>
  for uid in self.getmessageuidlist():
      if uid < 0 or not dstfolder.uidexists(uid):
          continue
      if statusfolder.uidexists(uid):
          statusflags = statusfolder.getmessageflags(uid)
      else:
          statusflags = set()
      selfflags = self.combine_flags_and_keywords(uid, dstfolder)
      addflags = selfflags - statusflags
      delflags = statusflags - selfflags
      (append uid to addflaglist[flag] for each flag in addflags)
      (append uid to delflaglist[flag] for each flag in delflags)
  \<close>
\<close>

definition statusflags_of :: "messagelist \<Rightarrow> uid \<Rightarrow> exn + char set" where
  "statusflags_of st uid = (if uidexists st uid then getmessageflags st uid else Inr {})"

fun flags_collect ::
  "'b folder_ops \<Rightarrow> 'b folder_ops \<Rightarrow> uid list \<Rightarrow> flaglist \<times> flaglist \<Rightarrow> sync_state
     \<Rightarrow> (exn + flaglist \<times> flaglist) \<times> sync_state" where
  "flags_collect srcops dstops [] (addflaglist, delflaglist) s = (Inr (addflaglist, delflaglist), s)"
| "flags_collect srcops dstops (uid # uids) (addflaglist, delflaglist) s =
     (if uid < 0 \<or> \<not> uidexists (dst s) uid then
        flags_collect srcops dstops uids (addflaglist, delflaglist) s
      else
        (case statusflags_of (status s) uid of
           Inl e \<Rightarrow> (Inl e, s)
         | Inr statusflags \<Rightarrow>
        (case combine_flags_and_keywords srcops dstops uid s of
           (Inl e, s') \<Rightarrow> (Inl e, s')
         | (Inr selfflags, s') \<Rightarrow>
             flags_collect srcops dstops uids
               (flaglist_extend uid (selfflags - statusflags) addflaglist,
                flaglist_extend uid (statusflags - selfflags) delflaglist) s')))"

text \<open>
  The two loops that apply the lists:
  \<^verbatim>\<open>
  for flag, uids in list(addflaglist.items()):
      self.ui.addingflags(uids, flag, dstfolder)
      if self.repository.account.dryrun:
          continue  # Don't actually add in a dryrun.
      dstfolder.addmessagesflags(uids, set(flag))
      statusfolder.addmessagesflags(uids, set(flag))

  for flag, uids in list(delflaglist.items()):
      self.ui.deletingflags(uids, flag, dstfolder)
      if self.repository.account.dryrun:
          continue  # Don't actually remove in a dryrun.
      dstfolder.deletemessagesflags(uids, set(flag))
      statusfolder.deletemessagesflags(uids, set(flag))
  \<close>
\<close>

fun flags_add_loop :: "settings \<Rightarrow> 'b folder_ops \<Rightarrow> flaglist \<Rightarrow> sync_state \<Rightarrow> exn option \<times> sync_state" where
  "flags_add_loop cfg dstops [] s = (None, s)"
| "flags_add_loop cfg dstops ((flag, uids) # items) s =
     (let s1 = log [Ui_addingflags uids flag] s
      in if dryrun cfg then flags_add_loop cfg dstops items s1
         else
           (case addmessagesflags dstops (dst s1) uids {flag} of
              (Some e, dst') \<Rightarrow> (Some e, log [Dst_addmessagesflags uids flag] (s1\<lparr>dst := dst'\<rparr>))
            | (None, dst') \<Rightarrow>
           (case status_addmessagesflags (status s1) uids {flag} of
              (Some e, st') \<Rightarrow>
                (Some e, log [Dst_addmessagesflags uids flag, Status_addmessagesflags uids flag]
                           (s1\<lparr>dst := dst', status := st'\<rparr>))
            | (None, st') \<Rightarrow>
                flags_add_loop cfg dstops items
                  (log [Dst_addmessagesflags uids flag, Status_addmessagesflags uids flag]
                     (s1\<lparr>dst := dst', status := st'\<rparr>)))))"

fun flags_del_loop :: "settings \<Rightarrow> 'b folder_ops \<Rightarrow> flaglist \<Rightarrow> sync_state \<Rightarrow> exn option \<times> sync_state" where
  "flags_del_loop cfg dstops [] s = (None, s)"
| "flags_del_loop cfg dstops ((flag, uids) # items) s =
     (let s1 = log [Ui_deletingflags uids flag] s
      in if dryrun cfg then flags_del_loop cfg dstops items s1
         else
           (case deletemessagesflags dstops (dst s1) uids {flag} of
              (Some e, dst') \<Rightarrow> (Some e, log [Dst_deletemessagesflags uids flag] (s1\<lparr>dst := dst'\<rparr>))
            | (None, dst') \<Rightarrow>
           (case status_deletemessagesflags (status s1) uids {flag} of
              (Some e, st') \<Rightarrow>
                (Some e, log [Dst_deletemessagesflags uids flag, Status_deletemessagesflags uids flag]
                           (s1\<lparr>dst := dst', status := st'\<rparr>))
            | (None, st') \<Rightarrow>
                flags_del_loop cfg dstops items
                  (log [Dst_deletemessagesflags uids flag, Status_deletemessagesflags uids flag]
                     (s1\<lparr>dst := dst', status := st'\<rparr>)))))"

definition syncmessagesto_flags ::
  "settings \<Rightarrow> 'b folder_ops \<Rightarrow> 'b folder_ops \<Rightarrow> sync_state \<Rightarrow> exn option \<times> sync_state" where
  "syncmessagesto_flags cfg srcops dstops s =
     (case flags_collect srcops dstops (getmessageuidlist (src s)) ([], []) s of
        (Inl e, s1) \<Rightarrow> (Some e, s1)
      | (Inr (addflaglist, delflaglist), s1) \<Rightarrow>
     (case flags_add_loop cfg dstops addflaglist s1 of
        (Some e, s2) \<Rightarrow> (Some e, s2)
      | (None, s2) \<Rightarrow> flags_del_loop cfg dstops delflaglist s2))"

subsection \<open>The pass loop\<close>

text \<open>
  \<^verbatim>\<open>
  for action in self.syncmessagesto_passes:
      # Bail out on CTRL-C or SIGTERM.
      if offlineimap.accounts.Account.abort_NOW_signal.is_set():
          break
      try:
          action(dstfolder, statusfolder)
      except KeyboardInterrupt:
          raise
      except OfflineImapError as e:
          if e.severity > OfflineImapError.ERROR.FOLDER:
              raise
          msg = "while syncing %s [account %s]" % (self, self.accountname)
          self.ui.error(e, exc_info()[2], msg)
      except Exception as e:
          msg = "while syncing %s [account %s]" % (self, self.accountname)
          self.ui.error(e, exc_info()[2], msg)
          raise  # Raise unknown Exceptions so we can fix them.
  \<close>
\<close>

fun syncmessagesto_except :: "exn \<Rightarrow> sync_state \<Rightarrow> exn option \<times> sync_state" where
  "syncmessagesto_except KeyboardInterrupt s = (Some KeyboardInterrupt, s)"
| "syncmessagesto_except (OfflineImapError sev) s =
     (if severity_rank sev > severity_rank FOLDER then (Some (OfflineImapError sev), s)
      else (None, log [Ui_error (OfflineImapError sev)] s))"
| "syncmessagesto_except e s = (Some e, log [Ui_error e] s)"

type_synonym pass = "sync_state \<Rightarrow> exn option \<times> sync_state"

fun run_passes :: "settings \<Rightarrow> pass list \<Rightarrow> sync_state \<Rightarrow> exn option \<times> sync_state" where
  "run_passes cfg [] s = (None, s)"
| "run_passes cfg (action # passes) s =
     (if abort_NOW_signal cfg then (None, s)
      else (case action s of
              (None, s') \<Rightarrow> run_passes cfg passes s'
            | (Some e, s') \<Rightarrow>
                (case syncmessagesto_except e s' of
                   (None, s'') \<Rightarrow> run_passes cfg passes s''
                 | (Some e', s'') \<Rightarrow> (Some e', s''))))"

text \<open>
  \<^verbatim>\<open>
  self.syncmessagesto_passes = [
      self.__syncmessagesto_copy,
      self.__syncmessagesto_delete,
      self.__syncmessagesto_flags,
  ]
  \<close>
\<close>

definition syncmessagesto_passes :: "settings \<Rightarrow> 'b folder_ops \<Rightarrow> 'b folder_ops \<Rightarrow> pass list" where
  "syncmessagesto_passes cfg srcops dstops =
     [syncmessagesto_copy cfg srcops dstops,
      syncmessagesto_delete cfg srcops dstops,
      syncmessagesto_flags cfg srcops dstops]"

definition syncmessagesto ::
  "settings \<Rightarrow> 'b folder_ops \<Rightarrow> 'b folder_ops \<Rightarrow> sync_state \<Rightarrow> exn option \<times> sync_state" where
  "syncmessagesto cfg srcops dstops s = run_passes cfg (syncmessagesto_passes cfg srcops dstops) s"

section \<open>The IMAP folder (\<^verbatim>\<open>offlineimap/folder/IMAP.py\<close>)\<close>

subsection \<open>Text matching\<close>

text \<open>
  The regular expressions of the folder are searched with \<^verbatim>\<open>re.IGNORECASE\<close>;
  \<^verbatim>\<open>\s\<close> is a whitespace character and \<^verbatim>\<open>\d\<close> a decimal digit. Characters
  are the code points below 256.
\<close>

definition lower :: "char \<Rightarrow> char" where
  "lower c = (if CHR ''A'' \<le> c \<and> c \<le> CHR ''Z'' then char_of (of_char c + (32::nat)) else c)"

definition ci_prefix :: "string \<Rightarrow> string \<Rightarrow> bool" where
  "ci_prefix p s \<longleftrightarrow> length p \<le> length s \<and> map lower (take (length p) s) = map lower p"

definition is_space :: "char \<Rightarrow> bool" where
  "is_space c \<longleftrightarrow>
     (CHR 0x09 \<le> c \<and> c \<le> CHR 0x0D) \<or> (CHR 0x1C \<le> c \<and> c \<le> CHR 0x20) \<or> c = CHR 0x85 \<or> c = CHR 0xA0"

definition is_digit :: "char \<Rightarrow> bool" where
  "is_digit c \<longleftrightarrow> CHR ''0'' \<le> c \<and> c \<le> CHR ''9''"

text \<open>Python's \<^verbatim>\<open>int(s)\<close> on a string of decimal digits.\<close>

definition int_of_digits :: "string \<Rightarrow> int" where
  "int_of_digits ds = fold (\<lambda>c n. 10 * n + (int (of_char c) - 48)) ds 0"

text \<open>
  The search of \<^verbatim>\<open>__savemessage_fetchheaders\<close> for the header line:
  \<^verbatim>\<open>
  re.search(r"(?:^|\\r|\\n)%s:\s*%s(?:\\r|\\n)" % (headername, headervalue),
            item[1], flags=re.IGNORECASE)
  \<close>
  The pattern is a raw string, so \<^verbatim>\<open>\\r\<close> in it is the regular expression for
  a backslash followed by the letter \<^verbatim>\<open>r\<close>, and likewise \<^verbatim>\<open>\\n\<close>. The header
  name and value hold letters, digits and \<^verbatim>\<open>-\<close> only and match themselves.
  \<open>header_here\<close> matches the part of the pattern after the first group at the
  start of a text.
\<close>

definition backslash_rn :: "string \<Rightarrow> bool" where
  "backslash_rn t \<longleftrightarrow> ci_prefix [BS, CHR ''r''] t \<or> ci_prefix [BS, CHR ''n''] t"

definition header_here :: "string \<Rightarrow> string \<Rightarrow> string \<Rightarrow> bool" where
  "header_here headername headervalue t \<longleftrightarrow>
     ci_prefix (headername @ '':'') t \<and>
     (let u = drop (length headername + 1) t
      in \<exists>k \<in> set [0 ..< length (takeWhile is_space u) + 1].
           ci_prefix headervalue (drop k u) \<and>
           backslash_rn (drop (length headervalue) (drop k u)))"

definition header_search :: "string \<Rightarrow> string \<Rightarrow> string \<Rightarrow> bool" where
  "header_search headername headervalue text \<longleftrightarrow>
     header_here headername headervalue text \<or>
     (\<exists>i \<in> set [0 ..< length text].
        backslash_rn (drop i text) \<and> header_here headername headervalue (drop (i + 2) text))"

text \<open>
  \<^verbatim>\<open>re.search(r"UID\s+(\d+)", item, flags=re.IGNORECASE)\<close> and
  \<^verbatim>\<open>re.search(r"\d+\s+\(UID\s+(\d+)", found, flags=re.IGNORECASE)\<close>: the digits of
  the group of the leftmost match, if there is a match.
\<close>

definition uid_here :: "string \<Rightarrow> string option" where
  "uid_here t =
     (if ci_prefix ''UID'' t then
        (let u = drop 3 t; sp = takeWhile is_space u; ds = takeWhile is_digit (dropWhile is_space u)
         in if sp \<noteq> [] \<and> ds \<noteq> [] then Some ds else None)
      else None)"

fun uid_search :: "string \<Rightarrow> string option" where
  "uid_search [] = None"
| "uid_search (c # cs) = (case uid_here (c # cs) of Some ds \<Rightarrow> Some ds | None \<Rightarrow> uid_search cs)"

definition seq_uid_here :: "string \<Rightarrow> string option" where
  "seq_uid_here t =
     (let ds0 = takeWhile is_digit t; u = dropWhile is_digit t;
          sp = takeWhile is_space u; v = dropWhile is_space u
      in if ds0 \<noteq> [] \<and> sp \<noteq> [] \<and> v \<noteq> [] \<and> hd v = CHR ''('' then uid_here (tl v) else None)"

fun seq_uid_search :: "string \<Rightarrow> string option" where
  "seq_uid_search [] = None"
| "seq_uid_search (c # cs) = (case seq_uid_here (c # cs) of Some ds \<Rightarrow> Some ds | None \<Rightarrow> seq_uid_search cs)"

subsection \<open>Flags on the wire\<close>

text \<open>
  \<^verbatim>\<open>
  flagmap = [('\\Seen', 'S'), ('\\Answered', 'R'), ('\\Flagged', 'F'),
             ('\\Deleted', 'T'), ('\\Draft', 'D')]

  def flagsmaildir2imap(maildirflaglist):
      retval = []
      for imapflag, maildirflag in flagmap:
          if maildirflag in maildirflaglist:
              retval.append(imapflag)
      return '(' + ' '.join(sorted(retval)) + ')'
  \<close>
\<close>

definition flagmap :: "(string \<times> char) list" where
  "flagmap = [(BS # ''Seen'', CHR ''S''), (BS # ''Answered'', CHR ''R''), (BS # ''Flagged'', CHR ''F''),
              (BS # ''Deleted'', CHR ''T''), (BS # ''Draft'', CHR ''D'')]"

definition flagsmaildir2imap :: "char set \<Rightarrow> string" where
  "flagsmaildir2imap maildirflaglist =
     ''('' @ join '' '' (sort (map fst (filter (\<lambda>(imapflag, maildirflag). maildirflag \<in> maildirflaglist) flagmap))) @ '')''"

subsection \<open>Messages and the server\<close>

text \<open>
  A message object: its header fields in order, and its payload.
  \<^verbatim>\<open>msg.add_header\<close> appends a field; \<^verbatim>\<open>del msg[h]\<close> removes every field of
  that name, whatever its case.
\<close>

record email =
  headers :: "(string \<times> string) list"
  payload :: string

definition addmessageheader :: "email \<Rightarrow> string \<Rightarrow> string \<Rightarrow> email" where
  "addmessageheader msg headername headervalue = msg\<lparr>headers := headers msg @ [(headername, headervalue)]\<rparr>"

definition deletemessageheaders :: "email \<Rightarrow> string list \<Rightarrow> email" where
  "deletemessageheaders msg header_list =
     fold (\<lambda>h m. m\<lparr>headers := filter (\<lambda>(n, v). map lower n \<noteq> map lower h) (headers m)\<rparr>) header_list msg"

text \<open>
  What the server and the libraries answer is an input of the model. Of an
  \<^verbatim>\<open>APPEND\<close>: \<^verbatim>\<open>OK\<close>, another status, the exception \<^verbatim>\<open>imapobj.abort\<close>, or the
  exception \<^verbatim>\<open>imapobj.error\<close>. Of the untagged \<^verbatim>\<open>APPENDUID\<close> response: none
  (\<^verbatim>\<open>None\<close> or \<^verbatim>\<open>[None]\<close>), a UID, a field that is not a number
  (\<^verbatim>\<open>ValueError\<close>), or a response of another shape. Of \<^verbatim>\<open>UID SEARCH\<close>: the
  exception \<^verbatim>\<open>imapobj.error\<close>, or the UIDs listed. Of \<^verbatim>\<open>UID FETCH\<close>: the items
  of the response, each a pair of texts, a text, or something else.
\<close>

datatype append_result = Append_OK | Append_NO | Append_abort | Append_error

datatype appenduid_response = No_APPENDUID | APPENDUID int | APPENDUID_not_a_number | APPENDUID_malformed

datatype search_response = Search_error | Search_uids "uid list"

datatype fetch_item = Item_tuple string string | Item_bytes string | Item_other

record imap_server =
  select_readonly :: bool
  uidplus :: bool
  append_response :: "nat \<Rightarrow> append_result"
  check_ok :: bool
  appenduid_response :: appenduid_response
  search_response :: "string \<Rightarrow> string \<Rightarrow> search_response"
  fetch_headers_response :: "int \<Rightarrow> bool \<times> fetch_item list"
  store_response :: "string \<Rightarrow> string \<Rightarrow> string \<Rightarrow> bool \<times> (uid \<times> char set) option list"
  store_flags_response :: "uid \<Rightarrow> string \<Rightarrow> bool \<times> char set option"
  expunge_ok :: bool
  fetch_body :: "uid \<Rightarrow> exn + email"
  crc32 :: "email \<Rightarrow> nat"
  randint :: "nat \<Rightarrow> nat"

text \<open>The settings of an IMAP folder and of its repository.\<close>

record imap_folder =
  server :: imap_server
  filterheaders :: "string list"
  expunge :: bool
  keywordmap :: "(string \<times> char) list option"

text \<open>The commands a call sends to the server, in order.\<close>

datatype imap_command =
    SELECT
  | APPEND email
  | CHECK
  | UID_SEARCH_HEADER string string
  | UID_FETCH_HEADER int
  | UID_STORE string string string
  | UID_STORE_FLAGS uid string
  | EXPUNGE

subsection \<open>Writing flags in the message list\<close>

text \<open>
  \<^verbatim>\<open>self.messagelist[uid]['flags'] = flags\<close>: a \<^verbatim>\<open>KeyError\<close> without an entry
  for the UID.
\<close>

definition messagelist_set_flags :: saveflags where
  "messagelist_set_flags ml uid fl =
     (case map_of ml uid of
        None \<Rightarrow> (Some KeyError, ml)
      | Some m \<Rightarrow> (None, AList.update uid (m\<lparr>flags := fl\<rparr>) ml))"

subsection \<open>\<^verbatim>\<open>savemessage\<close>\<close>

text \<open>
  \<^verbatim>\<open>
  headername = 'X-OfflineIMAP'
  headervalue = '{}-{}'.format(
    (binascii.crc32(msg.as_bytes(policy=output_policy)) & 0xffffffff),
    self.randomgenerator.randint(0, 9999999999))
  return headername, headervalue
  \<close>
  \<open>n\<close> counts the numbers drawn so far in this call.
\<close>

definition generate_randomheader :: "imap_server \<Rightarrow> nat \<Rightarrow> email \<Rightarrow> string \<times> string" where
  "generate_randomheader srv n msg =
     (''X-OfflineIMAP'', str (int (crc32 srv msg mod 2 ^ 32)) @ ''-'' @ str (int (randint srv n)))"

text \<open>
  \<^verbatim>\<open>__savemessage_searchforheader\<close>: \<^verbatim>\<open>0\<close> when the search raises
  \<^verbatim>\<open>imapobj.error\<close> or finds nothing, the UID when it finds one, an error of
  severity Message when it finds several.
\<close>

definition savemessage_searchforheader :: "imap_server \<Rightarrow> string \<Rightarrow> string \<Rightarrow> exn + int" where
  "savemessage_searchforheader srv headername headervalue =
     (case search_response srv headername headervalue of
        Search_error \<Rightarrow> Inr 0
      | Search_uids [] \<Rightarrow> Inr 0
      | Search_uids [u] \<Rightarrow> Inr u
      | Search_uids (u # v # us) \<Rightarrow> Inl (OfflineImapError MESSAGE))"

text \<open>
  The loop of \<^verbatim>\<open>__savemessage_fetchheaders\<close> over the items of the response:
  \<^verbatim>\<open>
  found = None
  for item in result:
      if found is None and type(item) == tuple:
          item = [x.decode('utf-8') for x in item]
          if re.search(r"(?:^|\\r|\\n)%s:\s*%s(?:\\r|\\n)" %
                       (headername, headervalue),
                       item[1], flags=re.IGNORECASE):
              found = item[0]
      elif found is not None:
          if isinstance(item, bytes):
              item = item.decode('utf-8')
              uid = re.search(r"UID\s+(\d+)", item, flags=re.IGNORECASE)
              if uid:
                  return int(uid.group(1))
              else:
                  uid = re.search(r"\d+\s+\(UID\s+(\d+)", found,
                                  flags=re.IGNORECASE)
                  if uid:
                      return int(uid.group(1))
                  self.ui.warn(...)
          else:
              self.ui.warn(...)
  return 0
  \<close>
\<close>

fun fetch_scan :: "string \<Rightarrow> string \<Rightarrow> string option \<Rightarrow> fetch_item list \<Rightarrow> int" where
  "fetch_scan hn hv found [] = 0"
| "fetch_scan hn hv None (Item_tuple a b # items) =
     fetch_scan hn hv (if header_search hn hv b then Some a else None) items"
| "fetch_scan hn hv None (item # items) = fetch_scan hn hv None items"
| "fetch_scan hn hv (Some f) (Item_bytes t # items) =
     (case uid_search t of
        Some ds \<Rightarrow> int_of_digits ds
      | None \<Rightarrow>
          (case seq_uid_search f of
             Some ds \<Rightarrow> int_of_digits ds
           | None \<Rightarrow> fetch_scan hn hv (Some f) items))"
| "fetch_scan hn hv (Some f) (item # items) = fetch_scan hn hv (Some f) items"

text \<open>
  \<^verbatim>\<open>
  if self.getmessagelist():
      start = 1 + max(self.getmessagelist().keys())
  else:
      start = 1
  result = imapobj.uid('FETCH', '%d:*' % start, 'rfc822.header')
  if result[0] != 'OK':
      raise OfflineImapError(msg, OfflineImapError.ERROR.MESSAGE)
  \<close>
\<close>

definition fetchheaders_start :: "messagelist \<Rightarrow> int" where
  "fetchheaders_start ml = (if ml \<noteq> [] then 1 + Max (set (map fst ml)) else 1)"

definition savemessage_fetchheaders :: "imap_server \<Rightarrow> messagelist \<Rightarrow> string \<Rightarrow> string \<Rightarrow> exn + int" where
  "savemessage_fetchheaders srv ml headername headervalue =
     (case fetch_headers_response srv (fetchheaders_start ml) of
        (ok, items) \<Rightarrow>
          if \<not> ok then Inl (OfflineImapError MESSAGE)
          else Inr (fetch_scan headername headervalue None items))"

text \<open>
  One round of the loop \<^verbatim>\<open>while retry_left\<close>: the header is generated and added
  unless the server has \<^verbatim>\<open>UIDPLUS\<close>, the folder is selected, and the message is
  appended.
  \<^verbatim>\<open>
  use_uidplus = 'UIDPLUS' in imapobj.capabilities
  if not use_uidplus:
      (headername, headervalue) = self.__generate_randomheader(msg)
      self.addmessageheader(msg, headername, headervalue)
  try:
      imapobj.select(self.getfullIMAPname())
  except imapobj.readonly:
      self.ui.msgtoreadonly(self, uid)
      return uid
  try:
      (typ, dat) = imapobj.append(...)
      if typ != 'OK':
          raise OfflineImapError(err_msg, OfflineImapError.ERROR.REPO)
      retry_left = 0  # Mark as success.
  except imapobj.abort as e:
      retry_left -= 1
      ...
      if not retry_left:
          raise OfflineImapError(..., OfflineImapError.ERROR.MESSAGE, ...)
  except imapobj.error as e:  # APPEND failed
      raise OfflineImapError(..., OfflineImapError.ERROR.MESSAGE, ...)
  \<close>
\<close>

datatype attempt =
    Attempt_readonly
  | Attempt_raised exn
  | Attempt_abort email
  | Attempt_appended "string option" email

definition savemessage_attempt :: "imap_server \<Rightarrow> nat \<Rightarrow> email \<Rightarrow> attempt \<times> imap_command list" where
  "savemessage_attempt srv n msg =
     (let (hv, msg1) =
            (if \<not> uidplus srv
             then (case generate_randomheader srv n msg of
                     (headername, headervalue) \<Rightarrow>
                       (Some headervalue, addmessageheader msg headername headervalue))
             else (None, msg))
      in if select_readonly srv then (Attempt_readonly, [SELECT])
         else (case append_response srv n of
                 Append_OK \<Rightarrow> (Attempt_appended hv msg1, [SELECT, APPEND msg1])
               | Append_NO \<Rightarrow> (Attempt_raised (OfflineImapError REPO), [SELECT, APPEND msg1])
               | Append_abort \<Rightarrow> (Attempt_abort msg1, [SELECT, APPEND msg1])
               | Append_error \<Rightarrow> (Attempt_raised (OfflineImapError MESSAGE), [SELECT, APPEND msg1])))"

text \<open>
  The loop, by the value of \<^verbatim>\<open>retry_left\<close>; \<^verbatim>\<open>savemessage\<close> starts it at 2. It
  is never entered at 0; there the names the rest of the method reads would be
  unbound.
\<close>

fun savemessage_append :: "imap_server \<Rightarrow> nat \<Rightarrow> nat \<Rightarrow> email \<Rightarrow> attempt \<times> imap_command list" where
  "savemessage_append srv 0 n msg = (Attempt_raised OtherException, [])"
| "savemessage_append srv (Suc retry_left) n msg =
     (case savemessage_attempt srv n msg of
        (Attempt_abort msg1, cs) \<Rightarrow>
          (if retry_left = 0 then (Attempt_raised (OfflineImapError MESSAGE), cs)
           else (case savemessage_append srv retry_left (n + 1) msg1 of
                   (r, cs') \<Rightarrow> (r, cs @ cs')))
      | (r, cs) \<Rightarrow> (r, cs))"

text \<open>
  After the loop: \<^verbatim>\<open>imapobj.check()\<close>, then the new UID, from the
  \<^verbatim>\<open>APPENDUID\<close> response with \<^verbatim>\<open>UIDPLUS\<close>, and otherwise:
  \<^verbatim>\<open>
  uid = self.__savemessage_searchforheader(imapobj, headername, headervalue)
  if uid == 0:
      uid = self.__savemessage_fetchheaders(imapobj, headername, headervalue)
  \<close>
\<close>

definition savemessage_uidplus :: "imap_server \<Rightarrow> (exn + int) \<times> bool" where
  "savemessage_uidplus srv =
     (case appenduid_response srv of
        No_APPENDUID \<Rightarrow> (Inr 0, True)
      | APPENDUID u \<Rightarrow> (Inr u, False)
      | APPENDUID_not_a_number \<Rightarrow> (Inr 0, False)
      | APPENDUID_malformed \<Rightarrow> (Inl (OfflineImapError MESSAGE), False))"

definition savemessage_finduid ::
  "imap_server \<Rightarrow> messagelist \<Rightarrow> string \<Rightarrow> string \<Rightarrow> (exn + int) \<times> imap_command list" where
  "savemessage_finduid srv ml headername headervalue =
     (case savemessage_searchforheader srv headername headervalue of
        Inl e \<Rightarrow> (Inl e, [UID_SEARCH_HEADER headername headervalue])
      | Inr u \<Rightarrow>
          if u = 0 then
            (savemessage_fetchheaders srv ml headername headervalue,
             [UID_SEARCH_HEADER headername headervalue, UID_FETCH_HEADER (fetchheaders_start ml)])
          else (Inr u, [UID_SEARCH_HEADER headername headervalue]))"

text \<open>
  The end of \<^verbatim>\<open>savemessage\<close>:
  \<^verbatim>\<open>
  if uid:  # Avoid UID FETCH 0 crash happening later on.
      self.messagelist[uid] = self.msglist_item_initializer(uid)
      self.messagelist[uid]['flags'] = flags
  return uid
  \<close>
  with \<^verbatim>\<open>msglist_item_initializer\<close> returning
  \<^verbatim>\<open>{'uid': uid, 'flags': set(), 'time': 0}\<close>. When \<^verbatim>\<open>UIDPLUS\<close> is advertised and
  no \<^verbatim>\<open>APPENDUID\<close> came, the method has returned 0 before.
\<close>

definition savemessage_register :: "messagelist \<Rightarrow> int \<Rightarrow> char set \<Rightarrow> messagelist" where
  "savemessage_register ml u fl =
     (if u \<noteq> 0 then AList.update u \<lparr>flags = fl, rtime = 0, keywordset = None\<rparr> ml else ml)"

definition savemessage_after_append ::
  "imap_server \<Rightarrow> messagelist \<Rightarrow> char set \<Rightarrow> string option \<Rightarrow> (exn + int) \<times> messagelist \<times> imap_command list" where
  "savemessage_after_append srv ml fl hv =
     (if \<not> check_ok srv then (Inl AssertionError, ml, [CHECK])
      else if uidplus srv then
        (case savemessage_uidplus srv of
           (Inl e, early) \<Rightarrow> (Inl e, ml, [CHECK])
         | (Inr u, early) \<Rightarrow> (Inr u, (if early then ml else savemessage_register ml u fl), [CHECK]))
      else
        (case hv of
           None \<Rightarrow> (Inl OtherException, ml, [CHECK])
         | Some headervalue \<Rightarrow>
             (case savemessage_finduid srv ml ''X-OfflineIMAP'' headervalue of
                (Inl e, cs) \<Rightarrow> (Inl e, ml, CHECK # cs)
              | (Inr u, cs) \<Rightarrow> (Inr u, savemessage_register ml u fl, CHECK # cs))))"

text \<open>
  \<^verbatim>\<open>savemessageflags\<close> of the IMAP folder, which \<^verbatim>\<open>savemessage\<close> calls for a UID
  it already has:
  \<^verbatim>\<open>
  try:
      result = self._store_to_imap(imapobj, str(uid), 'FLAGS',
                                   imaputil.flagsmaildir2imap(flags))
  except imapobj.readonly:
      self.ui.flagstoreadonly(self, [uid], flags)
      return
  if not result:
      self.messagelist[uid]['flags'] = flags
  else:
      flags = imaputil.flags2hash(imaputil.imapsplit(result)[1])['FLAGS']
      self.messagelist[uid]['flags'] = imaputil.flagsimap2maildir(flags)
  \<close>
  with
  \<^verbatim>\<open>
  def _store_to_imap(self, imapobj, uid, field, data):
      imapobj.select(self.getfullIMAPname())
      res_type, retdata = imapobj.uid('store', uid, field, data)
      if res_type != 'OK':
          severity = OfflineImapError.ERROR.MESSAGE
          reason = "IMAP server '%s' failed to store %s " \
                   "for message UID '%d'." \
                   "Server responded: %s %s" % (
                       self.getrepository(), field, uid, res_type, retdata)
          raise OfflineImapError(reason, severity)
      return retdata[0]
  \<close>
  When the answer is not \<^verbatim>\<open>OK\<close>, the text of the error is formatted first, with
  \<^verbatim>\<open>%d\<close> for the UID; \<^verbatim>\<open>savemessageflags\<close> passes \<^verbatim>\<open>str(uid)\<close>, so the
  formatting raises \<^verbatim>\<open>TypeError\<close> and the \<^verbatim>\<open>OfflineImapError\<close> is never made.
\<close>

definition IMAP_savemessageflags ::
  "imap_server \<Rightarrow> messagelist \<Rightarrow> uid \<Rightarrow> char set \<Rightarrow> exn option \<times> messagelist \<times> imap_command list" where
  "IMAP_savemessageflags srv ml uid fl =
     (if select_readonly srv then (None, ml, [SELECT])
      else (case store_flags_response srv uid (flagsmaildir2imap fl) of
              (ok, result) \<Rightarrow>
                if \<not> ok then
                  (Some TypeError, ml, [SELECT, UID_STORE_FLAGS uid (flagsmaildir2imap fl)])
                else (case messagelist_set_flags ml uid (case result of None \<Rightarrow> fl | Some fl' \<Rightarrow> fl') of
                        (r, ml') \<Rightarrow> (r, ml', [SELECT, UID_STORE_FLAGS uid (flagsmaildir2imap fl)]))))"

text \<open>
  \<^verbatim>\<open>
  def savemessage(self, uid, msg, flags, rtime):
      # Already have it, just save modified flags.
      if uid > 0 and self.uidexists(uid):
          self.savemessageflags(uid, flags)
          return uid
      # Filter user requested headers before uploading to the IMAP server
      self.deletemessageheaders(msg, self.filterheaders)
      ...
      retry_left = 2  # succeeded in APPENDING?
      ...
  \<close>
  The engine passes \<^verbatim>\<open>None\<close> for the message only to a folder that does not store
  messages; the IMAP folder would fail on it.
\<close>

definition IMAP_savemessage_run ::
  "imap_folder \<Rightarrow> messagelist \<Rightarrow> uid \<Rightarrow> email option \<Rightarrow> char set \<Rightarrow> int
     \<Rightarrow> (exn + int) \<times> messagelist \<times> imap_command list" where
  "IMAP_savemessage_run fld ml uid msg fl t =
     (if uid > 0 \<and> uidexists ml uid then
        (case IMAP_savemessageflags (server fld) ml uid fl of
           (Some e, ml', cs) \<Rightarrow> (Inl e, ml', cs)
         | (None, ml', cs) \<Rightarrow> (Inr uid, ml', cs))
      else
        (case msg of
           None \<Rightarrow> (Inl OtherException, ml, [])
         | Some m \<Rightarrow>
             (case savemessage_append (server fld) 2 0 (deletemessageheaders m (filterheaders fld)) of
                (Attempt_readonly, cs) \<Rightarrow> (Inr uid, ml, cs)
              | (Attempt_raised e, cs) \<Rightarrow> (Inl e, ml, cs)
              | (Attempt_abort m1, cs) \<Rightarrow> (Inl OtherException, ml, cs)
              | (Attempt_appended hv m1, cs) \<Rightarrow>
                  (case savemessage_after_append (server fld) ml fl hv of
                     (r, ml', cs') \<Rightarrow> (r, ml', cs @ cs')))))"

definition IMAP_savemessage ::
  "imap_folder \<Rightarrow> messagelist \<Rightarrow> uid \<Rightarrow> email option \<Rightarrow> char set \<Rightarrow> int \<Rightarrow> (exn + int) \<times> messagelist" where
  "IMAP_savemessage fld ml uid msg fl t =
     (case IMAP_savemessage_run fld ml uid msg fl t of (r, ml', cs) \<Rightarrow> (r, ml'))"

subsection \<open>Flags and deletion on the server\<close>

text \<open>
  \<^verbatim>\<open>__processmessagesflags_real\<close>: nothing is done on a read-only folder; an
  answer other than \<^verbatim>\<open>OK\<close> raises an error of severity Message. Then
  \<^verbatim>\<open>
  needupdate = list(uidlist)
  for result in response:
      if result is None:
          continue
      attributehash = imaputil.flags2hash(imaputil.imapsplit(result)[1])
      if not ('UID' in attributehash and 'FLAGS' in attributehash):
          continue
      flagstr = attributehash['FLAGS']
      uid = int(attributehash['UID'])
      self.messagelist[uid]['flags'] = imaputil.flagsimap2maildir(flagstr)
      try:
          needupdate.remove(uid)
      except ValueError:  # Let it slide if it's not in the list.
          pass
  for uid in needupdate:
      if operation == '+':
          self.messagelist[uid]['flags'] |= flags
      elif operation == '-':
          self.messagelist[uid]['flags'] -= flags
  \<close>
  A result of the response is read as the pair of its UID and its flags, or as
  nothing when it is \<^verbatim>\<open>None\<close> or lacks one of the two.
\<close>

fun store_results ::
  "messagelist \<Rightarrow> uid list \<Rightarrow> (uid \<times> char set) option list \<Rightarrow> exn option \<times> messagelist \<times> uid list" where
  "store_results ml needupdate [] = (None, ml, needupdate)"
| "store_results ml needupdate (None # results) = store_results ml needupdate results"
| "store_results ml needupdate (Some (uid, fl) # results) =
     (case messagelist_set_flags ml uid fl of
        (Some e, ml') \<Rightarrow> (Some e, ml', needupdate)
      | (None, ml') \<Rightarrow> store_results ml' (remove1 uid needupdate) results)"

fun store_needupdate :: "string \<Rightarrow> messagelist \<Rightarrow> uid list \<Rightarrow> char set \<Rightarrow> exn option \<times> messagelist" where
  "store_needupdate operation ml [] fl = (None, ml)"
| "store_needupdate operation ml (uid # needupdate) fl =
     (case (if operation = ''+'' then Base_addmessageflags messagelist_set_flags ml uid fl
            else if operation = ''-'' then Base_deletemessageflags messagelist_set_flags ml uid fl
            else (None, ml)) of
        (Some e, ml') \<Rightarrow> (Some e, ml')
      | (None, ml') \<Rightarrow> store_needupdate operation ml' needupdate fl)"

definition processmessagesflags_real ::
  "imap_server \<Rightarrow> string \<Rightarrow> messagelist \<Rightarrow> uid list \<Rightarrow> char set \<Rightarrow> exn option \<times> messagelist" where
  "processmessagesflags_real srv operation ml uidlist fl =
     (if select_readonly srv then (None, ml)
      else (case store_response srv (uid_sequence uidlist) (operation @ ''FLAGS'') (flagsmaildir2imap fl) of
              (ok, response) \<Rightarrow>
                if \<not> ok then (Some (OfflineImapError MESSAGE), ml)
                else (case store_results ml uidlist response of
                        (Some e, ml', needupdate) \<Rightarrow> (Some e, ml')
                      | (None, ml', needupdate) \<Rightarrow> store_needupdate operation ml' needupdate fl)))"

text \<open>
  \<^verbatim>\<open>
  def __processmessagesflags(self, operation, uidlist, flags):
      batch_size = 100
      for i in range(0, len(uidlist), batch_size):
          self.__processmessagesflags_real(operation,
                                           uidlist[i:i + batch_size], flags)
  \<close>
\<close>

definition batches :: "nat \<Rightarrow> 'a list \<Rightarrow> 'a list list" where
  "batches batch_size xs =
     map (\<lambda>i. take batch_size (drop (i * batch_size) xs)) [0 ..< (length xs + batch_size - 1) div batch_size]"

fun processmessagesflags_loop ::
  "imap_server \<Rightarrow> string \<Rightarrow> messagelist \<Rightarrow> uid list list \<Rightarrow> char set \<Rightarrow> exn option \<times> messagelist" where
  "processmessagesflags_loop srv operation ml [] fl = (None, ml)"
| "processmessagesflags_loop srv operation ml (b # bs) fl =
     (case processmessagesflags_real srv operation ml b fl of
        (Some e, ml') \<Rightarrow> (Some e, ml')
      | (None, ml') \<Rightarrow> processmessagesflags_loop srv operation ml' bs fl)"

definition processmessagesflags ::
  "imap_server \<Rightarrow> string \<Rightarrow> messagelist \<Rightarrow> uid list \<Rightarrow> char set \<Rightarrow> exn option \<times> messagelist" where
  "processmessagesflags srv operation ml uidlist fl =
     processmessagesflags_loop srv operation ml (batches 100 uidlist) fl"

text \<open>
  \<^verbatim>\<open>
  def __deletemessages_noconvert(self, uidlist):
      if not len(uidlist):
          return
      self.__addmessagesflags_noconvert(uidlist, set('T'))
      imapobj = self.imapserver.acquireconnection()
      try:
          try:
              imapobj.select(self.getfullIMAPname())
          except imapobj.readonly:
              self.ui.deletereadonly(self, uidlist)
              return
          if self.expunge:
              assert (imapobj.expunge()[0] == 'OK')
      finally:
          self.imapserver.releaseconnection(imapobj)
      for uid in uidlist:
          del self.messagelist[uid]
  \<close>
\<close>

fun del_messagelist :: "messagelist \<Rightarrow> uid list \<Rightarrow> exn option \<times> messagelist" where
  "del_messagelist ml [] = (None, ml)"
| "del_messagelist ml (uid # uidlist) =
     (if uidexists ml uid then del_messagelist (AList.delete uid ml) uidlist
      else (Some KeyError, ml))"

definition IMAP_deletemessages :: "imap_folder \<Rightarrow> messagelist \<Rightarrow> uid list \<Rightarrow> exn option \<times> messagelist" where
  "IMAP_deletemessages fld ml uidlist =
     (if length uidlist = 0 then (None, ml)
      else (case processmessagesflags (server fld) ''+'' ml uidlist {CHR ''T''} of
              (Some e, ml') \<Rightarrow> (Some e, ml')
            | (None, ml') \<Rightarrow>
                if select_readonly (server fld) then (None, ml')
                else if expunge fld \<and> \<not> expunge_ok (server fld) then (Some AssertionError, ml')
                else del_messagelist ml' uidlist))"

subsection \<open>The IMAP folder as a backend\<close>

text \<open>
  \<^verbatim>\<open>getmessage\<close> fetches the body from the server; \<^verbatim>\<open>change_message_uid\<close>
  always raises an error of severity Message; \<^verbatim>\<open>deletemessage(uid)\<close> is
  \<^verbatim>\<open>__deletemessages_noconvert([uid])\<close>; \<^verbatim>\<open>addmessagesflags\<close> and
  \<^verbatim>\<open>deletemessagesflags\<close> are \<^verbatim>\<open>__processmessagesflags\<close> with \<^verbatim>\<open>'+'\<close> and
  \<^verbatim>\<open>'-'\<close>; \<^verbatim>\<open>storesmessages\<close> is inherited and true.
\<close>

definition IMAP_ops :: "imap_folder \<Rightarrow> email folder_ops" where
  "IMAP_ops fld =
     \<lparr>storesmessages = True,
      getmessage = (\<lambda>ml uid. fetch_body (server fld) uid),
      savemessage = IMAP_savemessage fld,
      change_message_uid = (\<lambda>ml uid new_uid. (Some (OfflineImapError MESSAGE), ml)),
      deletemessage = (\<lambda>ml uid. IMAP_deletemessages fld ml [uid]),
      deletemessages = IMAP_deletemessages fld,
      addmessagesflags = processmessagesflags (server fld) ''+'',
      deletemessagesflags = processmessagesflags (server fld) ''-'',
      has_keywords = True,
      getkeywordmap = Inr (keywordmap fld)\<rparr>"

text \<open>
  A server for examples: it has \<^verbatim>\<open>UIDPLUS\<close>, accepts every command, answers a
  \<^verbatim>\<open>STORE\<close> without results, and gives every appended message the UID \<open>new_uid\<close>.
\<close>

definition plain_server :: "int \<Rightarrow> imap_server" where
  "plain_server new_uid =
     \<lparr>select_readonly = False,
      uidplus = True,
      append_response = (\<lambda>n. Append_OK),
      check_ok = True,
      appenduid_response = APPENDUID new_uid,
      search_response = (\<lambda>headername headervalue. Search_uids []),
      fetch_headers_response = (\<lambda>start. (True, [])),
      store_response = (\<lambda>uids operation fl. (True, [])),
      store_flags_response = (\<lambda>uid fl. (True, None)),
      expunge_ok = True,
      fetch_body = (\<lambda>uid. Inr \<lparr>headers = [(''Subject'', ''x'')], payload = ''text''\<rparr>),
      crc32 = (\<lambda>msg. 907060870),
      randint = (\<lambda>n. 1234567890)\<rparr>"

definition plain_folder :: "int \<Rightarrow> imap_folder" where
  "plain_folder new_uid = \<lparr>server = plain_server new_uid, filterheaders = [], expunge = True, keywordmap = None\<rparr>"

subsection \<open>Values for examples\<close>

text \<open>
  The default settings of a run, a message with given flags and no keywords, and the
  state at the start of a run over three message lists.
\<close>

definition default_settings :: settings where
  "default_settings =
     \<lparr>dryrun = False, sync_deletes = True, copy_ignoreUIDs = None, abort_NOW_signal = False,
      newmail_hook = False\<rparr>"

definition msg_with :: "char set \<Rightarrow> message" where
  "msg_with fl = \<lparr>flags = fl, rtime = 0, keywordset = Some {}\<rparr>"

definition state_of :: "messagelist \<Rightarrow> messagelist \<Rightarrow> messagelist \<Rightarrow> sync_state" where
  "state_of s d st = \<lparr>src = s, dst = d, status = st, have_newmail = False, trace = []\<rparr>"

text \<open>A folder whose server fails every fetch of a body with an error of severity Folder.\<close>

definition unselectable_folder :: imap_folder where
  "unselectable_folder =
     \<lparr>server = (plain_server 1)\<lparr>fetch_body := (\<lambda>uid. Inl (OfflineImapError FOLDER))\<rparr>,
      filterheaders = [], expunge = True, keywordmap = None\<rparr>"

text \<open>A folder whose server does not have \<^verbatim>\<open>UIDPLUS\<close> and finds no header.\<close>

definition no_uidplus_folder :: imap_folder where
  "no_uidplus_folder =
     \<lparr>server = (plain_server 1)\<lparr>uidplus := False\<rparr>, filterheaders = [], expunge = True, keywordmap = None\<rparr>"

definition example_email :: email where
  "example_email = \<lparr>headers = [(''Subject'', ''x'')], payload = ''text''\<rparr>"

text \<open>A read-only folder.\<close>

definition readonly_folder :: imap_folder where
  "readonly_folder =
     \<lparr>server = (plain_server 1)\<lparr>select_readonly := True\<rparr>, filterheaders = [], expunge = True, keywordmap = None\<rparr>"

text \<open>
  A folder whose server does not have \<^verbatim>\<open>UIDPLUS\<close>, finds no header by \<^verbatim>\<open>UID SEARCH\<close>, and
  answers the fetch of the headers with the headers of one message, UID 4: a subject line and
  the header \<^verbatim>\<open>X-OfflineIMAP\<close> that \<^verbatim>\<open>savemessage\<close> generates for
  \<open>example_email\<close>, the lines ended by carriage return and line feed.
\<close>

definition crlf_headers_folder :: imap_folder where
  "crlf_headers_folder =
     \<lparr>server = (plain_server 1)
        \<lparr>uidplus := False,
         fetch_headers_response :=
           (\<lambda>start. (True,
              [Item_tuple ''1 (RFC822.HEADER {51}''
                 (''Subject: x'' @ [CHR 0x0D, CHR 0x0A] @ ''X-OfflineIMAP: 907060870-1234567890'' @
                  [CHR 0x0D, CHR 0x0A, CHR 0x0D, CHR 0x0A]),
               Item_bytes '' UID 4)'']))\<rparr>,
      filterheaders = [], expunge = True, keywordmap = None\<rparr>"


subsection \<open>The flags Pass 3 aims at\<close>

text \<open>
  In the words of the specification: the effective flags of a message of the source
  are its flags united with its keywords mapped through the keyword map of the
  destination, keywords without a mapping being dropped. A source without keywords
  contributes none, and so does a destination without a keyword map.
\<close>

definition mapped_keywords :: "(string \<times> char) list option \<Rightarrow> string set \<Rightarrow> char set" where
  "mapped_keywords km ks =
     (case km of None \<Rightarrow> {} | Some kmap \<Rightarrow> {c. \<exists>keyw \<in> ks. map_of kmap keyw = Some c})"

definition src_keywords :: "'b folder_ops \<Rightarrow> message \<Rightarrow> string set" where
  "src_keywords srcops m =
     (if has_keywords srcops then (case keywordset m of None \<Rightarrow> {} | Some ks \<Rightarrow> ks) else {})"

definition effective_flags :: "'b folder_ops \<Rightarrow> 'b folder_ops \<Rightarrow> message \<Rightarrow> char set" where
  "effective_flags srcops dstops m =
     flags m \<union> (case getkeywordmap dstops of
                  Inl e \<Rightarrow> {}
                | Inr km \<Rightarrow> mapped_keywords km (src_keywords srcops m))"

definition effective_of :: "'b folder_ops \<Rightarrow> 'b folder_ops \<Rightarrow> messagelist \<Rightarrow> uid \<Rightarrow> char set option" where
  "effective_of srcops dstops ml uid = map_option (effective_flags srcops dstops) (map_of ml uid)"

definition flags_of :: "messagelist \<Rightarrow> uid \<Rightarrow> char set option" where
  "flags_of ml uid = map_option flags (map_of ml uid)"

definition flaglist_get :: "flaglist \<Rightarrow> char \<Rightarrow> uid list" where
  "flaglist_get d flag = (case map_of d flag of None \<Rightarrow> [] | Some uids \<Rightarrow> uids)"

section \<open>Properties of the utility functions\<close>

subsection \<open>Quoting\<close>

lemma replace_Nil: "old \<noteq> [] \<Longrightarrow> replace old new [] = []"
  by (simp add: replace.simps)

lemma replace_single_Cons:
  "replace [a] new (c # cs) = (if c = a then new @ replace [a] new cs else c # replace [a] new cs)"
  by (subst replace.simps) simp

lemma replace_pair_Cons:
  "replace [a, b] new (c # cs) =
     (if c = a \<and> take 1 cs = [b] then new @ replace [a, b] new (drop 1 cs)
      else c # replace [a, b] new cs)"
  by (subst replace.simps) auto

lemma replace_single_absent: "a \<notin> set s \<Longrightarrow> replace [a] new s = s"
  by (induction s) (auto simp: replace_Nil replace_single_Cons)

lemma replace_single_concat:
  "replace [a] new s = concat (map (\<lambda>c. if c = a then new else [c]) s)"
  by (induction s) (simp_all add: replace_Nil replace_single_Cons)

lemma replace_pair_absent: "b \<notin> set s \<Longrightarrow> replace [a, b] new s = s"
proof (induction s)
  case Nil
  show ?case by (simp add: replace_Nil)
next
  case (Cons c cs)
  have "take 1 cs \<noteq> [b]"
  proof
    assume h: "take 1 cs = [b]"
    have "set (take 1 cs) \<subseteq> set cs" by (rule set_take_subset)
    with h have "b \<in> set cs" by auto
    with Cons.prems show False by simp
  qed
  with Cons show ?case by (simp add: replace_pair_Cons)
qed

lemma replace_undouble:
  "replace [BS, BS] [BS] (concat (map (\<lambda>c. if c = BS then [BS, BS] else [c]) s)) = s"
  by (induction s) (simp_all add: replace_Nil replace_pair_Cons)

lemma dequote_quote_without_DQ:
  assumes "DQ \<notin> set s"
  shows "dequote (quote s) = s"
proof -
  let ?d = "concat (map (\<lambda>c. if c = BS then [BS, BS] else [c]) s)"
  have "replace [DQ] [BS, DQ] s = s"
    using assms by (rule replace_single_absent)
  then have q: "quote s = [DQ] @ ?d @ [DQ]"
    by (simp add: quote_def replace_single_concat [of BS])
  have nodq: "DQ \<notin> set ?d"
    using assms by (auto simp: DQ_def BS_def split: if_splits)
  have "dequote ([DQ] @ ?d @ [DQ]) = replace [BS, BS] [BS] (replace [BS, DQ] [DQ] ?d)"
    by (simp add: dequote_def butlast_append)
  also have "\<dots> = replace [BS, BS] [BS] ?d"
    by (simp only: replace_pair_absent [OF nodq])
  also have "\<dots> = s"
    by (rule replace_undouble)
  finally show ?thesis using q by simp
qed

text \<open>
  Claim C10 (quoted strings round-trip): for every string \<open>s\<close>,
  \<^verbatim>\<open>dequote(quote(s)) == s\<close>. The code does not do this for a string that holds a
  double quote: \<^verbatim>\<open>quote\<close> escapes the double quotes first and the backslashes
  second, so the backslash it has just put before a double quote is doubled as well.
  On the one-character string \<^verbatim>\<open>"\<close>, \<^verbatim>\<open>quote\<close> returns the five characters
  \<^verbatim>\<open>"\\""\<close> and \<^verbatim>\<open>dequote\<close> of that returns the two characters \<^verbatim>\<open>\"\<close>,
  not the string it started from.
\<close>

theorem dequote_quote_double_quote:
  "quote [DQ] = [DQ, BS, BS, DQ, DQ] \<and> dequote (quote [DQ]) = [BS, DQ] \<and> dequote (quote [DQ]) \<noteq> [DQ]"
  by code_simp

subsection \<open>UID sequences\<close>

lemma fold_step_sim:
  "fold uid_sequence_step xs (se, map (\<lambda>(a, b). getrange a b) rs) =
     (case fold runs_step xs (se, rs) of (se', rs') \<Rightarrow> (se', map (\<lambda>(a, b). getrange a b) rs'))"
proof (induction xs arbitrary: se rs)
  case Nil
  show ?case by simp
next
  case (Cons x xs)
  show ?case
  proof (cases se)
    case None
    then show ?thesis using Cons [of "Some (x, x)" rs] by simp
  next
    case (Some p)
    obtain s e where p: "p = (s, e)" by (cases p)
    show ?thesis
    proof (cases "x = e + 1")
      case True
      then show ?thesis using Some p Cons [of "Some (s, x)" rs] by simp
    next
      case False
      then show ?thesis using Some p Cons [of "Some (x, x)" "rs @ [(s, e)]"] by simp
    qed
  qed
qed

lemma fold_runs_step_Some:
  "\<exists>p rs'. fold runs_step xs (Some q, rs) = (Some p, rs')"
proof (induction xs arbitrary: q rs)
  case Nil
  show ?case by simp
next
  case (Cons x xs)
  obtain s e where q: "q = (s, e)" by (cases q)
  show ?case using Cons q by (cases "x = e + 1") simp_all
qed

lemma uid_sequence_render: "uid_sequence xs = render_runs (uid_runs xs)"
proof (cases xs)
  case Nil
  then show ?thesis by (simp add: uid_sequence_def uid_runs_def render_runs_def)
next
  case (Cons y ys)
  then have ne: "sort xs \<noteq> []" by (metis length_sort list.size(3) list.distinct(1) length_0_conv)
  then obtain z zs where z: "sort xs = z # zs" by (cases "sort xs") auto
  obtain p rs' where f: "fold runs_step zs (Some (z, z), []) = (Some p, rs')"
    using fold_runs_step_Some by blast
  obtain s e where p: "p = (s, e)" by (cases p)
  have g: "fold uid_sequence_step zs (Some (z, z), []) = (Some p, map (\<lambda>(a, b). getrange a b) rs')"
    using fold_step_sim [of zs "Some (z, z)" "[]"] f by simp
  show ?thesis
    using Cons z f g p by (simp add: uid_sequence_def uid_runs_def render_runs_def)
qed

lemma runs_wf_snoc:
  "runs_wf (rs @ [(s, e)]) \<longleftrightarrow> runs_wf rs \<and> s \<le> e \<and> (\<forall>(a, b) \<in> set rs. b + 1 < s)"
  by (auto simp: runs_wf_def sorted_wrt_append list_all_iff)

lemma runs_set_snoc: "runs_set (rs @ [(s, e)]) = runs_set rs \<union> {s..e}"
  by (auto simp: runs_set_def)

lemma fold_runs_step_inv:
  assumes "sorted_wrt (<) xs" and "runs_wf (rs @ [(s, e)])" and "\<forall>x \<in> set xs. e < x"
    and "fold runs_step xs (Some (s, e), rs) = (Some (s', e'), rs')"
  shows "runs_wf (rs' @ [(s', e')]) \<and> runs_set (rs' @ [(s', e')]) = runs_set (rs @ [(s, e)]) \<union> set xs"
  using assms
proof (induction xs arbitrary: s e rs)
  case Nil
  then show ?case by simp
next
  case (Cons x xs)
  have ex: "e < x" using Cons.prems(3) by simp
  have srt: "sorted_wrt (<) xs" and gt: "\<forall>y \<in> set xs. x < y" using Cons.prems(1) by auto
  show ?case
  proof (cases "x = e + 1")
    case True
    have wf: "runs_wf (rs @ [(s, x)])"
      using Cons.prems(2) ex by (auto simp: runs_wf_snoc)
    have f: "fold runs_step xs (Some (s, x), rs) = (Some (s', e'), rs')"
      using Cons.prems(4) True by simp
    have se: "s \<le> e" using Cons.prems(2) by (simp add: runs_wf_snoc)
    have "{s..x} = {s..e} \<union> {x}" using True se by auto
    then have "runs_set (rs @ [(s, x)]) = runs_set (rs @ [(s, e)]) \<union> {x}"
      by (simp add: runs_set_snoc Un_assoc)
    with Cons.IH [OF srt wf gt f] show ?thesis by auto
  next
    case False
    have wf: "runs_wf ((rs @ [(s, e)]) @ [(x, x)])"
      using Cons.prems(2) ex False by (subst runs_wf_snoc) (auto simp: runs_wf_snoc)
    have f: "fold runs_step xs (Some (x, x), rs @ [(s, e)]) = (Some (s', e'), rs')"
      using Cons.prems(4) False by simp
    have "runs_set ((rs @ [(s, e)]) @ [(x, x)]) = runs_set (rs @ [(s, e)]) \<union> {x}"
      by (subst runs_set_snoc) simp
    with Cons.IH [OF srt wf gt f] show ?thesis by auto
  qed
qed

lemma uid_runs_distinct:
  assumes "distinct xs"
  shows "runs_wf (uid_runs xs) \<and> runs_set (uid_runs xs) = set xs"
proof (cases "sort xs")
  case Nil
  then have "xs = []" by (metis length_sort length_0_conv)
  then show ?thesis by (simp add: uid_runs_def runs_wf_def runs_set_def)
next
  case (Cons z zs)
  have "sorted_wrt (<) (sort xs)"
    using assms by (simp add: strict_sorted_iff)
  then have srt: "sorted_wrt (<) zs" and gt: "\<forall>y \<in> set zs. z < y" using Cons by auto
  obtain p rs' where f: "fold runs_step zs (Some (z, z), []) = (Some p, rs')"
    using fold_runs_step_Some by blast
  obtain s e where p: "p = (s, e)" by (cases p)
  have wf0: "runs_wf ([] @ [(z, z)])" by (simp add: runs_wf_def)
  have "runs_wf (rs' @ [(s, e)]) \<and> runs_set (rs' @ [(s, e)]) = runs_set ([] @ [(z, z)]) \<union> set zs"
    using fold_runs_step_inv [OF srt wf0 gt] f p by simp
  moreover have "uid_runs xs = rs' @ [(s, e)]"
    using Cons f p by (simp add: uid_runs_def)
  moreover have "set xs = insert z (set zs)"
    using Cons by (metis set_sort list.simps(15))
  ultimately show ?thesis by (simp add: runs_set_def)
qed

text \<open>
  Claim C9 as stated (for every list of positive integers the emitted ranges are
  ascending and non-overlapping) fails on a list with a repeated value: the input is
  sorted but never deduplicated, so \<^verbatim>\<open>uid_sequence([1, 1])\<close> is \<^verbatim>\<open>"1,1"\<close>, the
  run \<open>1\<close> twice.
\<close>

theorem uid_sequence_duplicate:
  "uid_sequence [1, 1] = ''1,1'' \<and> uid_runs [1, 1] = [(1, 1), (1, 1)] \<and> \<not> runs_wf (uid_runs [1, 1])"
  by code_simp

text \<open>
  Claim C9, amended: for every list of distinct integers (UIDs are distinct and
  positive), \<^verbatim>\<open>uid_sequence\<close> sorts the input ascending and emits, separated by
  commas, the maximal runs of consecutive integers, each rendered as \<^verbatim>\<open>a:b\<close>
  (inclusive) or as a single value; the runs are ascending, pairwise disjoint and not
  adjacent, and their union is the set of the input. In particular
  \<^verbatim>\<open>uid_sequence([1,2,3,4,5,10,12,13])\<close> is \<^verbatim>\<open>"1:5,10,12:13"\<close> and the empty list
  gives the empty string.
\<close>

theorem uid_sequence_distinct:
  "(distinct xs \<longrightarrow>
      uid_sequence xs = render_runs (uid_runs xs) \<and>
      runs_wf (uid_runs xs) \<and>
      runs_set (uid_runs xs) = set xs) \<and>
   uid_sequence [1, 2, 3, 4, 5, 10, 12, 13] = ''1:5,10,12:13'' \<and>
   uid_sequence [] = []"
proof -
  have "uid_sequence [1, 2, 3, 4, 5, 10, 12, 13] = ''1:5,10,12:13''"
    by code_simp
  moreover have "uid_sequence [] = []"
    by (simp add: uid_sequence_def)
  ultimately show ?thesis
    using uid_sequence_render [of xs] uid_runs_distinct [of xs] by simp
qed

theorem uid_sequence_distinct_witness:
  "distinct [3, 1, 2, 7 :: int] \<and>
   uid_sequence [3, 1, 2, 7] = ''1:3,7'' \<and>
   uid_runs [3, 1, 2, 7] = [(1, 3), (7, 7)] \<and>
   runs_wf (uid_runs [3, 1, 2, 7]) \<and>
   runs_set (uid_runs [3, 1, 2, 7]) = {3, 1, 2, 7}"
proof -
  have d: "distinct [3, 1, 2, 7 :: int]" by simp
  have r: "uid_runs [3, 1, 2, 7] = [(1, 3), (7, 7)]" by code_simp
  have t: "render_runs [(1, 3), (7, 7)] = ''1:3,7''" by code_simp
  show ?thesis
    using uid_sequence_distinct [of "[3, 1, 2, 7]"] d r t by simp
qed

section \<open>Properties of message lists\<close>

lemma uidexists_update: "uidexists (AList.update k v ml) uid \<longleftrightarrow> uid = k \<or> uidexists ml uid"
  by (simp add: uidexists_def update_conv')

lemma uidexists_delete: "uidexists (AList.delete k ml) uid \<longleftrightarrow> uid \<noteq> k \<and> uidexists ml uid"
  by (simp add: uidexists_def delete_conv')

lemma set_getmessageuidlist: "uid \<in> set (getmessageuidlist ml) \<longleftrightarrow> uidexists ml uid"
  by (auto simp: getmessageuidlist_def uidexists_def map_of_eq_None_iff image_iff)

section \<open>Properties of the IMAP folder\<close>

lemmas imap_eval =
  IMAP_ops_def IMAP_savemessage_def IMAP_savemessage_run_def savemessage_attempt_def
  savemessage_after_append_def savemessage_uidplus_def savemessage_finduid_def
  savemessage_searchforheader_def savemessage_fetchheaders_def savemessage_register_def
  generate_randomheader_def addmessageheader_def deletemessageheaders_def
  IMAP_deletemessages_def processmessagesflags_def processmessagesflags_real_def batches_def
  Base_addmessageflags_def Base_deletemessageflags_def messagelist_set_flags_def
  getmessageflags_def getmessagetime_def uidexists_def
  plain_folder_def plain_server_def no_uidplus_folder_def example_email_def

lemma savemessage_append_2:
  "savemessage_append srv 2 n msg =
     (case savemessage_attempt srv n msg of
        (Attempt_abort msg1, cs) \<Rightarrow>
          (case savemessage_attempt srv (n + 1) msg1 of
             (Attempt_abort msg2, cs') \<Rightarrow> (Attempt_raised (OfflineImapError MESSAGE), cs @ cs')
           | (r, cs') \<Rightarrow> (r, cs @ cs'))
      | (r, cs) \<Rightarrow> (r, cs))"
  by (simp add: numeral_2_eq_2 split: prod.splits attempt.splits)

lemma savemessage_attempt_readonly:
  "select_readonly srv \<Longrightarrow> savemessage_attempt srv n msg = (Attempt_readonly, [SELECT])"
  by (simp add: savemessage_attempt_def Let_def split_beta)

lemma savemessage_readonly:
  assumes "select_readonly (server fld)" and "\<not> (uid > 0 \<and> uidexists ml uid)"
  shows "IMAP_savemessage_run fld ml uid (Some msg) fl t = (Inr uid, ml, [SELECT])"
proof -
  have "savemessage_append (server fld) 2 0 (deletemessageheaders msg (filterheaders fld))
          = (Attempt_readonly, [SELECT])"
    using assms(1) by (simp add: savemessage_append_2 savemessage_attempt_readonly)
  then show ?thesis
    using assms(2) by (auto simp: IMAP_savemessage_run_def)
qed

lemma savemessage_attempt_appended:
  assumes "\<not> uidplus srv" and "\<not> select_readonly srv" and "append_response srv n = Append_OK"
  shows "savemessage_attempt srv n m =
           (Attempt_appended (Some (snd (generate_randomheader srv n m)))
              (addmessageheader m ''X-OfflineIMAP'' (snd (generate_randomheader srv n m))),
            [SELECT, APPEND (addmessageheader m ''X-OfflineIMAP'' (snd (generate_randomheader srv n m)))])"
  using assms by (simp add: savemessage_attempt_def generate_randomheader_def Let_def)

lemma savemessage_after_append_search:
  assumes "\<not> uidplus srv" and "check_ok srv"
  shows "savemessage_after_append srv ml fl (Some hv) =
           (case savemessage_searchforheader srv ''X-OfflineIMAP'' hv of
              Inl e \<Rightarrow> (Inl e, ml, [CHECK, UID_SEARCH_HEADER ''X-OfflineIMAP'' hv])
            | Inr u \<Rightarrow>
                if u \<noteq> 0 then
                  (Inr u, AList.update u \<lparr>flags = fl, rtime = 0, keywordset = None\<rparr> ml,
                   [CHECK, UID_SEARCH_HEADER ''X-OfflineIMAP'' hv])
                else
                  (case fetch_headers_response srv (fetchheaders_start ml) of
                     (ok, items) \<Rightarrow>
                       if \<not> ok then
                         (Inl (OfflineImapError MESSAGE), ml,
                          [CHECK, UID_SEARCH_HEADER ''X-OfflineIMAP'' hv, UID_FETCH_HEADER (fetchheaders_start ml)])
                       else
                         (Inr (fetch_scan ''X-OfflineIMAP'' hv None items),
                          savemessage_register ml (fetch_scan ''X-OfflineIMAP'' hv None items) fl,
                          [CHECK, UID_SEARCH_HEADER ''X-OfflineIMAP'' hv, UID_FETCH_HEADER (fetchheaders_start ml)])))"
  using assms
  by (simp add: savemessage_after_append_def savemessage_finduid_def savemessage_fetchheaders_def
      savemessage_register_def split: sum.splits prod.splits)

lemma fetchheaders_start_above:
  "uidexists ml u \<Longrightarrow> u < fetchheaders_start ml"
proof -
  assume "uidexists ml u"
  then have mem: "u \<in> set (map fst ml)"
    by (auto simp: uidexists_def map_of_eq_None_iff image_iff)
  then have "ml \<noteq> []" by auto
  moreover have "u \<le> Max (set (map fst ml))" using mem by (intro Max_ge) auto
  ultimately show ?thesis by (simp add: fetchheaders_start_def)
qed

lemma fetchheaders_start_max:
  "ml \<noteq> [] \<Longrightarrow> uidexists ml (fetchheaders_start ml - 1)"
proof -
  assume ne: "ml \<noteq> []"
  then have "Max (set (map fst ml)) \<in> set (map fst ml)" by (intro Max_in) auto
  then show ?thesis using ne
    by (auto simp: fetchheaders_start_def uidexists_def map_of_eq_None_iff image_iff)
qed

lemma savemessage_without_uidplus_aux:
  assumes "\<not> uidplus (server fld)"
    and "\<not> (uid > 0 \<and> uidexists ml uid)"
    and "\<not> select_readonly (server fld)"
    and "append_response (server fld) 0 = Append_OK"
    and "check_ok (server fld)"
    and "msg0 = deletemessageheaders msg (filterheaders fld)"
    and "hv = str (int (crc32 (server fld) msg0 mod 2 ^ 32)) @ ''-'' @ str (int (randint (server fld) 0))"
    and "msg1 = addmessageheader msg0 ''X-OfflineIMAP'' hv"
  shows "IMAP_savemessage_run fld ml uid (Some msg) fl t =
           (case savemessage_after_append (server fld) ml fl (Some hv) of
              (r, ml', cs') \<Rightarrow> (r, ml', [SELECT, APPEND msg1] @ cs'))"
proof -
  have hv: "snd (generate_randomheader (server fld) 0 msg0) = hv"
    using assms(7) by (simp add: generate_randomheader_def)
  have "savemessage_attempt (server fld) 0 msg0 = (Attempt_appended (Some hv) msg1, [SELECT, APPEND msg1])"
    using savemessage_attempt_appended [OF assms(1,3,4), of msg0] hv assms(8) by simp
  then have "savemessage_append (server fld) 2 0 msg0 = (Attempt_appended (Some hv) msg1, [SELECT, APPEND msg1])"
    by (simp add: savemessage_append_2)
  then show ?thesis
    using assms(2,6) by (auto simp: IMAP_savemessage_run_def)
qed

text \<open>
  Claim C4 (a negative return value means not saved; on a read-only folder
  \<^verbatim>\<open>savemessage\<close> returns a value below 0 whatever the sign of the UID passed in):
  on a read-only folder the IMAP \<^verbatim>\<open>savemessage\<close> returns the UID it was given.
  Called with the positive UID 5, which the folder does not hold, it sends nothing
  but \<^verbatim>\<open>SELECT\<close>, saves nothing and returns 5; \<^verbatim>\<open>copymessageto\<close> takes the
  positive value for a saved message, and the run ends with UID 5 recorded in the
  status folder and absent from the destination.
\<close>

theorem savemessage_readonly_positive_uid:
  "IMAP_savemessage_run readonly_folder [] 5 (Some example_email) {CHR ''S''} 0 = (Inr 5, [], [SELECT]) \<and>
   syncmessagesto default_settings (IMAP_ops (plain_folder 1)) (IMAP_ops readonly_folder)
     (state_of [(5, msg_with {CHR ''S''})] [] [])
   = (None,
      \<lparr>src = [(5, msg_with {CHR ''S''})], dst = [], status = [(5, msg_with {CHR ''S''})],
       have_newmail = False,
       trace = [Ui_copyingmessage 5 1 1, Src_getmessage 5, Dst_savemessage 5, Status_savemessage 5]\<rparr>)"
proof -
  have a: "IMAP_savemessage_run readonly_folder [] 5 (Some example_email) {CHR ''S''} 0 = (Inr 5, [], [SELECT])"
    by (rule savemessage_readonly) (simp_all add: readonly_folder_def plain_server_def uidexists_def)
  have b: "syncmessagesto default_settings (IMAP_ops (plain_folder 1)) (IMAP_ops readonly_folder)
     (state_of [(5, msg_with {CHR ''S''})] [] [])
   = (None,
      \<lparr>src = [(5, msg_with {CHR ''S''})], dst = [], status = [(5, msg_with {CHR ''S''})],
       have_newmail = False,
       trace = [Ui_copyingmessage 5 1 1, Src_getmessage 5, Dst_savemessage 5, Status_savemessage 5]\<rparr>)"
    by (simp add: syncmessagesto_def syncmessagesto_passes_def syncmessagesto_copy_def copy_round_def
      copymessageto_def copymessageto_try_def copymessageto_load_def copymessageto_saved_def
      syncmessagesto_delete_def deletelist_of_def
      syncmessagesto_flags_def getmessageuidlist_def status_savemessage_def
      default_settings_def state_of_def msg_with_def log_def readonly_folder_def imap_eval numeral_2_eq_2)
  show ?thesis using a b by (intro conjI)
qed

text \<open>
  A call of the IMAP \<^verbatim>\<open>savemessage\<close> with a positive UID that the folder already holds
  only stores the flags of that message and returns the UID, also on a server without
  \<^verbatim>\<open>UIDPLUS\<close>: no header is made, and neither \<^verbatim>\<open>APPEND\<close> nor \<^verbatim>\<open>UID SEARCH\<close> is
  sent.
\<close>

lemma savemessage_known_uid_no_append:
  "\<not> uidplus (server no_uidplus_folder) \<and>
   IMAP_savemessage_run no_uidplus_folder [(5, msg_with {})] 5 (Some example_email) {CHR ''S''} 0
   = (Inr 5, [(5, msg_with {CHR ''S''})], [SELECT, UID_STORE_FLAGS 5 (flagsmaildir2imap {CHR ''S''})])"
  by (simp add: IMAP_savemessage_run_def IMAP_savemessageflags_def messagelist_set_flags_def
      uidexists_def no_uidplus_folder_def plain_server_def msg_with_def)

text \<open>
  The steps of the IMAP \<^verbatim>\<open>savemessage\<close> on a server without \<^verbatim>\<open>UIDPLUS\<close>, for a UID
  the folder does not already hold as a positive UID, on a writable folder whose first
  \<^verbatim>\<open>APPEND\<close> and \<^verbatim>\<open>CHECK\<close> succeed: the message (after the filtered headers are
  removed) is appended with one more header \<^verbatim>\<open>X-OfflineIMAP\<close> whose value is the CRC-32
  of the message, a dash and a random number, and \<^verbatim>\<open>UID SEARCH\<close> is sent for that
  header. A single UID other than 0 found by the search is returned and entered in the
  message list. When the search fails or finds nothing, the headers from \<open>start\<close> on are
  fetched, where \<open>start\<close> is 1 above the greatest UID of the message list before the call
  (1 when the list is empty), and the response is scanned; the result of the scan is
  returned, and when it is 0 the message list is left as it was.
\<close>

lemma savemessage_without_uidplus:
  assumes "\<not> uidplus (server fld)"
    and "\<not> (uid > 0 \<and> uidexists ml uid)"
    and "\<not> select_readonly (server fld)"
    and "append_response (server fld) 0 = Append_OK"
    and "check_ok (server fld)"
    and "msg0 = deletemessageheaders msg (filterheaders fld)"
    and "hv = str (int (crc32 (server fld) msg0 mod 2 ^ 32)) @ ''-'' @ str (int (randint (server fld) 0))"
    and "msg1 = addmessageheader msg0 ''X-OfflineIMAP'' hv"
  shows "IMAP_savemessage_run fld ml uid (Some msg) fl t =
           (case savemessage_searchforheader (server fld) ''X-OfflineIMAP'' hv of
              Inl e \<Rightarrow> (Inl e, ml, [SELECT, APPEND msg1, CHECK, UID_SEARCH_HEADER ''X-OfflineIMAP'' hv])
            | Inr u \<Rightarrow>
                if u \<noteq> 0 then
                  (Inr u, AList.update u \<lparr>flags = fl, rtime = 0, keywordset = None\<rparr> ml,
                   [SELECT, APPEND msg1, CHECK, UID_SEARCH_HEADER ''X-OfflineIMAP'' hv])
                else
                  (case fetch_headers_response (server fld) (fetchheaders_start ml) of
                     (ok, items) \<Rightarrow>
                       if \<not> ok then
                         (Inl (OfflineImapError MESSAGE), ml,
                          [SELECT, APPEND msg1, CHECK, UID_SEARCH_HEADER ''X-OfflineIMAP'' hv,
                           UID_FETCH_HEADER (fetchheaders_start ml)])
                       else
                         (Inr (fetch_scan ''X-OfflineIMAP'' hv None items),
                          savemessage_register ml (fetch_scan ''X-OfflineIMAP'' hv None items) fl,
                          [SELECT, APPEND msg1, CHECK, UID_SEARCH_HEADER ''X-OfflineIMAP'' hv,
                           UID_FETCH_HEADER (fetchheaders_start ml)]))) \<and>
         (search_response (server fld) ''X-OfflineIMAP'' hv = Search_error \<or>
          search_response (server fld) ''X-OfflineIMAP'' hv = Search_uids [] \<longrightarrow>
            savemessage_searchforheader (server fld) ''X-OfflineIMAP'' hv = Inr 0) \<and>
         (\<forall>u. search_response (server fld) ''X-OfflineIMAP'' hv = Search_uids [u] \<longrightarrow>
            savemessage_searchforheader (server fld) ''X-OfflineIMAP'' hv = Inr u) \<and>
         (\<forall>u. uidexists ml u \<longrightarrow> u < fetchheaders_start ml) \<and>
         (ml \<noteq> [] \<longrightarrow> uidexists ml (fetchheaders_start ml - 1)) \<and>
         (ml = [] \<longrightarrow> fetchheaders_start ml = 1) \<and>
         savemessage_register ml 0 fl = ml"
proof -
  have run: "IMAP_savemessage_run fld ml uid (Some msg) fl t =
           (case savemessage_after_append (server fld) ml fl (Some hv) of
              (r, ml', cs') \<Rightarrow> (r, ml', [SELECT, APPEND msg1] @ cs'))"
    by (rule savemessage_without_uidplus_aux [OF assms])
  have a: "IMAP_savemessage_run fld ml uid (Some msg) fl t =
           (case savemessage_searchforheader (server fld) ''X-OfflineIMAP'' hv of
              Inl e \<Rightarrow> (Inl e, ml, [SELECT, APPEND msg1, CHECK, UID_SEARCH_HEADER ''X-OfflineIMAP'' hv])
            | Inr u \<Rightarrow>
                if u \<noteq> 0 then
                  (Inr u, AList.update u \<lparr>flags = fl, rtime = 0, keywordset = None\<rparr> ml,
                   [SELECT, APPEND msg1, CHECK, UID_SEARCH_HEADER ''X-OfflineIMAP'' hv])
                else
                  (case fetch_headers_response (server fld) (fetchheaders_start ml) of
                     (ok, items) \<Rightarrow>
                       if \<not> ok then
                         (Inl (OfflineImapError MESSAGE), ml,
                          [SELECT, APPEND msg1, CHECK, UID_SEARCH_HEADER ''X-OfflineIMAP'' hv,
                           UID_FETCH_HEADER (fetchheaders_start ml)])
                       else
                         (Inr (fetch_scan ''X-OfflineIMAP'' hv None items),
                          savemessage_register ml (fetch_scan ''X-OfflineIMAP'' hv None items) fl,
                          [SELECT, APPEND msg1, CHECK, UID_SEARCH_HEADER ''X-OfflineIMAP'' hv,
                           UID_FETCH_HEADER (fetchheaders_start ml)])))"
    unfolding run savemessage_after_append_search [OF assms(1,5)]
    by (simp split: sum.splits prod.splits)
  have b: "search_response (server fld) ''X-OfflineIMAP'' hv = Search_error \<or>
          search_response (server fld) ''X-OfflineIMAP'' hv = Search_uids [] \<longrightarrow>
            savemessage_searchforheader (server fld) ''X-OfflineIMAP'' hv = Inr 0"
    by (auto simp: savemessage_searchforheader_def)
  have c: "\<forall>u. search_response (server fld) ''X-OfflineIMAP'' hv = Search_uids [u] \<longrightarrow>
            savemessage_searchforheader (server fld) ''X-OfflineIMAP'' hv = Inr u"
    by (auto simp: savemessage_searchforheader_def)
  have d: "\<forall>u. uidexists ml u \<longrightarrow> u < fetchheaders_start ml"
    using fetchheaders_start_above by blast
  have e: "ml \<noteq> [] \<longrightarrow> uidexists ml (fetchheaders_start ml - 1)"
    using fetchheaders_start_max by blast
  have f: "ml = [] \<longrightarrow> fetchheaders_start ml = 1"
    by (simp add: fetchheaders_start_def)
  have g: "savemessage_register ml 0 fl = ml"
    by (simp add: savemessage_register_def)
  show ?thesis using a b c d e f g by (intro conjI)
qed

lemma digit_chars:
  "char_of (48::nat) = CHR ''0''" "char_of (49::nat) = CHR ''1''" "char_of (50::nat) = CHR ''2''"
  "char_of (51::nat) = CHR ''3''" "char_of (52::nat) = CHR ''4''" "char_of (53::nat) = CHR ''5''"
  "char_of (54::nat) = CHR ''6''" "char_of (55::nat) = CHR ''7''" "char_of (56::nat) = CHR ''8''"
  "char_of (57::nat) = CHR ''9''"
  by code_simp+

text \<open>
  The scan of the fetched headers looks for the header with a pattern written as a
  raw string, in which \<^verbatim>\<open>\\r\<close> and \<^verbatim>\<open>\\n\<close> stand for a backslash followed by a
  letter. A header block as a server sends it, with its lines ended by carriage
  return and line feed, does not match, and the scan returns 0 although the header is
  there; a block that holds the two characters backslash and \<^verbatim>\<open>n\<close> after the value
  matches.
\<close>

lemma header_search_real_line_ends:
  "header_search ''X-OfflineIMAP'' ''123-456''
     (''Subject: x'' @ [CHR 0x0D, CHR 0x0A] @ ''X-OfflineIMAP: 123-456'' @ [CHR 0x0D, CHR 0x0A, CHR 0x0D, CHR 0x0A])
   = False \<and>
   fetch_scan ''X-OfflineIMAP'' ''123-456'' None
     [Item_tuple ''1 (UID 5 RFC822.HEADER {28}''
        (''X-OfflineIMAP: 123-456'' @ [CHR 0x0D, CHR 0x0A, CHR 0x0D, CHR 0x0A]),
      Item_bytes '')''] = 0"
  by code_simp

lemma header_search_backslash_letters:
  "header_search ''X-OfflineIMAP'' ''123-456'' (''X-OfflineIMAP: 123-456'' @ [BS, CHR ''r'']) = True \<and>
   fetch_scan ''X-OfflineIMAP'' ''123-456'' None
     [Item_tuple ''1 (RFC822.HEADER {28}'' (''x-offlineimap:  123-456'' @ [BS, CHR ''n'']),
      Item_bytes '' UID 2444)''] = 2444 \<and>
   fetch_scan ''X-OfflineIMAP'' ''123-456'' None
     [Item_tuple ''1694 (UID 1694 RFC822.HEADER {28}'' (''x-offlineimap:  123-456'' @ [BS, CHR ''n'']),
      Item_bytes '')''] = 1694"
  by code_simp

text \<open>
  Claim C8 (on a server without \<^verbatim>\<open>UIDPLUS\<close>, when the search for the generated header
  finds nothing, \<^verbatim>\<open>savemessage\<close> fetches the headers of the newer messages, scans them
  for the header and returns 0 only if the UID is still not found): the scan does not
  find a header that is there, since a header block whose lines end with carriage return
  and line feed never matches its pattern. Here the folder holds UID 3, the search finds
  nothing, and the fetch from UID 4 on answers with the headers of the message just
  appended, which hold the generated header, and with its UID 4; \<^verbatim>\<open>savemessage\<close>
  returns 0 and enters nothing in its message list, where the docstring of
  \<^verbatim>\<open>__savemessage_fetchheaders\<close> promises the UID (\<^verbatim>\<open>Returns UID when found, 0 when not found\<close>).
\<close>

theorem savemessage_fetchheaders_misses_header:
  "fetch_headers_response (server crlf_headers_folder) 4 =
     (True,
      [Item_tuple ''1 (RFC822.HEADER {51}''
         (''Subject: x'' @ [CHR 0x0D, CHR 0x0A] @ ''X-OfflineIMAP: 907060870-1234567890'' @
          [CHR 0x0D, CHR 0x0A, CHR 0x0D, CHR 0x0A]),
       Item_bytes '' UID 4)'']) \<and>
   IMAP_savemessage_run crlf_headers_folder [(3, msg_with {})] (- 1) (Some example_email) {CHR ''S''} 0
   = (Inr 0, [(3, msg_with {})],
      [SELECT,
       APPEND \<lparr>headers = [(''Subject'', ''x''), (''X-OfflineIMAP'', ''907060870-1234567890'')], payload = ''text''\<rparr>,
       CHECK,
       UID_SEARCH_HEADER ''X-OfflineIMAP'' ''907060870-1234567890'',
       UID_FETCH_HEADER 4])"
proof -
  let ?fld = "crlf_headers_folder"
  let ?ml = "[(3, msg_with {})]"
  let ?hv = "''907060870-1234567890''"
  let ?m1 = "\<lparr>headers = [(''Subject'', ''x''), (''X-OfflineIMAP'', ?hv)], payload = ''text''\<rparr>"
  let ?items = "[Item_tuple ''1 (RFC822.HEADER {51}''
         (''Subject: x'' @ [CHR 0x0D, CHR 0x0A] @ ''X-OfflineIMAP: 907060870-1234567890'' @
          [CHR 0x0D, CHR 0x0A, CHR 0x0D, CHR 0x0A]),
       Item_bytes '' UID 4)'']"
  have h1: "\<not> uidplus (server ?fld)" by (simp add: crlf_headers_folder_def plain_server_def)
  have h2: "\<not> (- 1 > (0::int) \<and> uidexists ?ml (- 1))" by simp
  have h3: "\<not> select_readonly (server ?fld)" by (simp add: crlf_headers_folder_def plain_server_def)
  have h4: "append_response (server ?fld) 0 = Append_OK" by (simp add: crlf_headers_folder_def plain_server_def)
  have h5: "check_ok (server ?fld)" by (simp add: crlf_headers_folder_def plain_server_def)
  have h6: "example_email = deletemessageheaders example_email (filterheaders ?fld)"
    by (simp add: deletemessageheaders_def crlf_headers_folder_def)
  have n: "str (int (907060870 mod 2 ^ 32)) @ ''-'' @ str (int 1234567890) = ?hv"
    by (simp add: str_def str_nat.simps digit_chars)
  have h7: "?hv = str (int (crc32 (server ?fld) example_email mod 2 ^ 32)) @ ''-'' @
                   str (int (randint (server ?fld) 0))"
    using n by (simp add: crlf_headers_folder_def plain_server_def)
  have h8: "?m1 = addmessageheader example_email ''X-OfflineIMAP'' ?hv"
    by (simp add: addmessageheader_def example_email_def)
  note run = savemessage_without_uidplus_aux [OF h1 h2 h3 h4 h5 h6 h7 h8, of "{CHR ''S''}" 0]
  have s: "savemessage_searchforheader (server ?fld) ''X-OfflineIMAP'' ?hv = Inr 0"
    by (simp add: savemessage_searchforheader_def crlf_headers_folder_def plain_server_def)
  have st: "fetchheaders_start ?ml = 4" by (simp add: fetchheaders_start_def)
  have f: "fetch_headers_response (server ?fld) 4 = (True, ?items)"
    by (simp add: crlf_headers_folder_def plain_server_def)
  have sc: "fetch_scan ''X-OfflineIMAP'' ?hv None ?items = 0"
    by code_simp
  have aa: "savemessage_after_append (server ?fld) ?ml {CHR ''S''} (Some ?hv) =
              (Inr (fetch_scan ''X-OfflineIMAP'' ?hv None ?items),
               savemessage_register ?ml (fetch_scan ''X-OfflineIMAP'' ?hv None ?items) {CHR ''S''},
               [CHECK, UID_SEARCH_HEADER ''X-OfflineIMAP'' ?hv, UID_FETCH_HEADER 4])"
    unfolding savemessage_after_append_search [OF h1 h5] s st f
    by (simp del: fetch_scan.simps)
  have r: "IMAP_savemessage_run ?fld ?ml (- 1) (Some example_email) {CHR ''S''} 0
            = (Inr 0, ?ml, [SELECT, APPEND ?m1, CHECK, UID_SEARCH_HEADER ''X-OfflineIMAP'' ?hv, UID_FETCH_HEADER 4])"
    unfolding run aa sc
    by (simp add: savemessage_register_def)
  show ?thesis using f r by (intro conjI)
qed

subsection \<open>Deletion and the message list\<close>

text \<open>
  \<^verbatim>\<open>deletemessage\<close> of the IMAP folder on a writable folder, when the server answers
  the \<^verbatim>\<open>STORE\<close> of \<^verbatim>\<open>\Deleted\<close> with results for no other message and the
  \<^verbatim>\<open>EXPUNGE\<close> succeeds, removes the entry of the UID and nothing else; on a read-only
  folder it removes nothing and raises nothing.
\<close>

lemma batches_single: "batches 100 [u] = [[u]]"
  by (simp add: batches_def)



lemma del_messagelist_single:
  "uidexists ml uid \<Longrightarrow> del_messagelist ml [uid] = (None, AList.delete uid ml)"
  by simp



text \<open>
  \<^verbatim>\<open>savemessage\<close> of the IMAP folder never removes an entry of its message list. On the
  server for examples it returns the UID it was given, the UID of the server, or an error;
  and the deletion of one message leaves the entries of the others.
\<close>

lemma IMAP_savemessage_keeps_uids:
  "uidexists ml k \<Longrightarrow> uidexists (snd (IMAP_savemessage fld ml u b fl t)) k"
  by (auto simp: IMAP_savemessage_def IMAP_savemessage_run_def IMAP_savemessageflags_def
      messagelist_set_flags_def savemessage_after_append_def savemessage_register_def uidexists_update
      split: if_splits prod.splits option.splits sum.splits attempt.splits)

lemma plain_savemessage_result:
  "u \<noteq> k \<Longrightarrow> k \<noteq> n \<Longrightarrow> fst (IMAP_savemessage (plain_folder n) ml u b fl t) \<noteq> Inr k"
  by (auto simp: IMAP_savemessage_def IMAP_savemessage_run_def IMAP_savemessageflags_def
      savemessage_append_2 savemessage_attempt_def savemessage_after_append_def savemessage_uidplus_def
      plain_folder_def plain_server_def
      split: if_splits prod.splits option.splits sum.splits attempt.splits)

lemma plain_deletemessage_other:
  "u \<noteq> k \<Longrightarrow> map_of (snd (IMAP_deletemessages (plain_folder n) ml [u])) k = map_of ml k"
  by (auto simp: IMAP_deletemessages_def processmessagesflags_def batches_single
      processmessagesflags_real_def plain_folder_def plain_server_def
      Base_addmessageflags_def getmessageflags_def messagelist_set_flags_def
      update_conv' delete_conv' uidexists_def
      split: option.splits)

section \<open>Properties of the synchronizer\<close>

subsection \<open>Pass 2\<close>

lemma status_deletemessages_result:
  "\<exists>st'. status_deletemessages st uids = (None, st') \<and>
          (\<forall>uid. uidexists st' uid \<longleftrightarrow> uidexists st uid \<and> uid \<notin> set uids)"
proof (induction uids arbitrary: st)
  case Nil
  show ?case by (simp add: status_deletemessages_def)
next
  case (Cons a uids)
  obtain st' where st': "status_deletemessages (AList.delete a st) uids = (None, st')"
    and ex: "\<forall>uid. uidexists st' uid \<longleftrightarrow> uidexists (AList.delete a st) uid \<and> uid \<notin> set uids"
    using Cons [of "AList.delete a st"] by blast
  have "status_deletemessages st (a # uids) = (None, st')"
    using st' by (simp add: status_deletemessages_def status_deletemessage_def)
  moreover have "\<forall>uid. uidexists st' uid \<longleftrightarrow> uidexists st uid \<and> uid \<notin> set (a # uids)"
    using ex by (auto simp: uidexists_delete)
  ultimately show ?case by blast
qed

lemma delete_from_status_result:
  assumes "\<not> dryrun cfg"
  shows "\<exists>s1. delete_from_status cfg dl s = (None, s1) \<and> src s1 = src s \<and> dst s1 = dst s \<and>
           have_newmail s1 = have_newmail s \<and>
           trace s1 = trace s @ [Status_deletemessages dl] \<and>
           (\<forall>uid. uidexists (status s1) uid \<longleftrightarrow> uidexists (status s) uid \<and> uid \<notin> set dl)"
proof -
  obtain st' where st: "status_deletemessages (status s) dl = (None, st')"
    and ex: "\<forall>uid. uidexists st' uid \<longleftrightarrow> uidexists (status s) uid \<and> uid \<notin> set dl"
    using status_deletemessages_result by blast
  show ?thesis
    using assms st ex by (simp add: delete_from_status_def log_def)
qed

lemma delete_from_dst_result:
  assumes "\<not> dryrun cfg" and "delete_from_dst cfg dstops dl2 s1 = (r, s')"
  shows "src s' = src s1 \<and> status s' = status s1 \<and> have_newmail s' = have_newmail s1 \<and>
         (if dl2 = [] then r = None \<and> dst s' = dst s1 \<and> trace s' = trace s1
          else (r, dst s') = deletemessages dstops (dst s1) dl2 \<and>
               trace s' = trace s1 @ [Ui_deletingmessages dl2, Dst_deletemessages dl2])"
  using assms
  by (auto simp: delete_from_dst_def log_def Let_def split: prod.splits if_splits)

lemma deletelist_of_member:
  "uid \<in> set (deletelist_of cfg s) \<longleftrightarrow>
     uidexists (status s) uid \<and> uid \<ge> 0 \<and> \<not> uidexists (src s) uid \<and>
     (sync_deletes cfg \<or> \<not> uidexists (dst s) uid)"
  by (auto simp: deletelist_of_def set_getmessageuidlist)

lemma syncmessagesto_delete_status_aux:
  assumes "\<not> dryrun cfg" and "syncmessagesto_delete cfg srcops dstops s = (r, s')"
  shows "uidexists (status s') uid \<longleftrightarrow>
           uidexists (status s) uid \<and>
           \<not> (uid \<ge> 0 \<and> \<not> uidexists (src s) uid \<and> (sync_deletes cfg \<or> \<not> uidexists (dst s) uid))"
proof (cases "deletelist_of cfg s = []")
  case True
  then have "s' = s" using assms(2) by (simp add: syncmessagesto_delete_def)
  moreover have "uid \<notin> set (deletelist_of cfg s)" using True by simp
  ultimately show ?thesis by (auto simp: deletelist_of_member)
next
  case False
  let ?dl = "deletelist_of cfg s"
  obtain s1 where s1: "delete_from_status cfg ?dl s = (None, s1)"
    and ex: "\<forall>uid. uidexists (status s1) uid \<longleftrightarrow> uidexists (status s) uid \<and> uid \<notin> set ?dl"
    using delete_from_status_result [OF assms(1)] by blast
  have "delete_from_dst cfg dstops (filter (\<lambda>uid. uidexists (dst s1) uid) ?dl) s1 = (r, s')"
    using assms(2) False s1 by (simp add: syncmessagesto_delete_def)
  then have "status s' = status s1"
    using delete_from_dst_result [OF assms(1)] by blast
  then show ?thesis using ex by (auto simp: deletelist_of_member)
qed

lemma syncmessagesto_delete_order_aux:
  assumes "\<not> dryrun cfg" and "syncmessagesto_delete cfg srcops dstops s = (r, s')"
    and "dl = deletelist_of cfg s" and "dl2 = filter (\<lambda>uid. uidexists (dst s) uid) dl"
  shows "(\<forall>uid \<in> set dl2. sync_deletes cfg \<and> uidexists (dst s) uid \<and> uid \<in> set dl) \<and>
         (\<exists>s1. delete_from_status cfg dl s = (None, s1) \<and>
               dst s1 = dst s \<and>
               (\<forall>uid \<in> set dl. \<not> uidexists (status s1) uid) \<and>
               (dl \<noteq> [] \<longrightarrow> delete_from_dst cfg dstops dl2 s1 = (r, s')) \<and>
               status s' = (if dl = [] then status s else status s1)) \<and>
         (\<forall>uid \<in> set dl. \<not> uidexists (status s') uid) \<and>
         (if dl2 = [] then dst s' = dst s else (r, dst s') = deletemessages dstops (dst s) dl2) \<and>
         trace s' = trace s @
           (if dl = [] then []
            else Status_deletemessages dl #
                 (if dl2 = [] then [] else [Ui_deletingmessages dl2, Dst_deletemessages dl2]))"
proof -
  obtain s1 where s1: "delete_from_status cfg dl s = (None, s1)"
    and d1: "dst s1 = dst s" and t1: "trace s1 = trace s @ [Status_deletemessages dl]"
    and ex: "\<forall>uid. uidexists (status s1) uid \<longleftrightarrow> uidexists (status s) uid \<and> uid \<notin> set dl"
    using delete_from_status_result [OF assms(1)] by blast
  have a: "\<forall>uid \<in> set dl2. sync_deletes cfg \<and> uidexists (dst s) uid \<and> uid \<in> set dl"
    using assms(3,4) by (auto simp: deletelist_of_member)
  have b: "\<forall>uid \<in> set dl. \<not> uidexists (status s1) uid"
    using ex by simp
  show ?thesis
  proof (cases "dl = []")
    case True
    then have "s' = s" using assms(2,3) by (simp add: syncmessagesto_delete_def)
    then show ?thesis using True assms(4) s1 d1 by simp
  next
    case False
    have run: "delete_from_dst cfg dstops dl2 s1 = (r, s')"
      using assms(2,3,4) False s1 d1 by (simp add: syncmessagesto_delete_def)
    note res = delete_from_dst_result [OF assms(1) run]
    have st: "status s' = status s1" using res by simp
    have c: "if dl2 = [] then dst s' = dst s else (r, dst s') = deletemessages dstops (dst s) dl2"
      using res d1 by (simp split: if_splits)
    have t: "trace s' = trace s @ Status_deletemessages dl #
               (if dl2 = [] then [] else [Ui_deletingmessages dl2, Dst_deletemessages dl2])"
      using res t1 by (simp split: if_splits)
    show ?thesis
      using False a b s1 d1 run st c t by auto
  qed
qed

text \<open>
  Claim C2 as stated (an entry of the status folder whose UID is absent from the
  source is always removed, even when \<^verbatim>\<open>sync_deletes\<close> is disabled) fails on the
  scenario it names: with the source empty, UID 7 on the destination and in the
  status folder, and \<^verbatim>\<open>sync_deletes\<close> disabled, the whole run changes nothing, and
  the status folder still holds UID 7. The list of UIDs to delete keeps a UID only
  when \<^verbatim>\<open>sync_deletes\<close> is enabled or the destination does not have it.
\<close>

theorem delete_suppressed_keeps_status:
  "syncmessagesto (default_settings\<lparr>sync_deletes := False\<rparr>)
     (IMAP_ops (plain_folder 1)) (IMAP_ops (plain_folder 1))
     (state_of [] [(7, msg_with {CHR ''S''})] [(7, msg_with {CHR ''S''})])
   = (None, state_of [] [(7, msg_with {CHR ''S''})] [(7, msg_with {CHR ''S''})])"
  by (simp add: syncmessagesto_def syncmessagesto_passes_def syncmessagesto_copy_def
      syncmessagesto_flags_def syncmessagesto_delete_def deletelist_of_def getmessageuidlist_def
      uidexists_def default_settings_def state_of_def log_def)

text \<open>
  Claim C2, amended: outside dry-run, Pass 2 removes from the status folder exactly
  the entries whose UID is not negative, is absent from the source, and either
  \<^verbatim>\<open>sync_deletes\<close> is enabled or the UID is absent from the destination as well;
  with \<^verbatim>\<open>sync_deletes\<close> disabled an entry whose UID is still on the destination
  stays.
\<close>

theorem syncmessagesto_delete_status:
  "\<not> dryrun cfg \<longrightarrow>
     (uidexists (status (snd (syncmessagesto_delete cfg srcops dstops s))) uid \<longleftrightarrow>
        uidexists (status s) uid \<and>
        \<not> (uid \<ge> 0 \<and> \<not> uidexists (src s) uid \<and> (sync_deletes cfg \<or> \<not> uidexists (dst s) uid)))"
  using syncmessagesto_delete_status_aux
    [of cfg srcops dstops s "fst (syncmessagesto_delete cfg srcops dstops s)"
        "snd (syncmessagesto_delete cfg srcops dstops s)" uid]
  by simp

theorem syncmessagesto_delete_status_witness:
  "\<not> dryrun default_settings \<and>
   \<not> uidexists (status (snd (syncmessagesto_delete default_settings
        (IMAP_ops (plain_folder 1)) (IMAP_ops (plain_folder 1))
        (state_of [] [(7, msg_with {CHR ''S''})] [(7, msg_with {CHR ''S''}), (8, msg_with {})])))) 7 \<and>
   \<not> uidexists (status (snd (syncmessagesto_delete (default_settings\<lparr>sync_deletes := False\<rparr>)
        (IMAP_ops (plain_folder 1)) (IMAP_ops (plain_folder 1))
        (state_of [] [(7, msg_with {CHR ''S''})] [(7, msg_with {CHR ''S''}), (8, msg_with {})])))) 8 \<and>
   uidexists (status (snd (syncmessagesto_delete (default_settings\<lparr>sync_deletes := False\<rparr>)
        (IMAP_ops (plain_folder 1)) (IMAP_ops (plain_folder 1))
        (state_of [] [(7, msg_with {CHR ''S''})] [(7, msg_with {CHR ''S''}), (8, msg_with {})])))) 7"
  using
    syncmessagesto_delete_status [of default_settings "IMAP_ops (plain_folder 1)" "IMAP_ops (plain_folder 1)"
      "state_of [] [(7, msg_with {CHR ''S''})] [(7, msg_with {CHR ''S''}), (8, msg_with {})]" 7]
    syncmessagesto_delete_status [of "default_settings\<lparr>sync_deletes := False\<rparr>" "IMAP_ops (plain_folder 1)" "IMAP_ops (plain_folder 1)"
      "state_of [] [(7, msg_with {CHR ''S''})] [(7, msg_with {CHR ''S''}), (8, msg_with {})]" 8]
    syncmessagesto_delete_status [of "default_settings\<lparr>sync_deletes := False\<rparr>" "IMAP_ops (plain_folder 1)" "IMAP_ops (plain_folder 1)"
      "state_of [] [(7, msg_with {CHR ''S''})] [(7, msg_with {CHR ''S''}), (8, msg_with {})]" 7]
  by (simp add: default_settings_def state_of_def uidexists_def)

text \<open>
  Claim C3 (order of Pass 2): the UIDs handed to the destination for deletion are
  UIDs of the delete list that exist on the destination, and only with
  \<^verbatim>\<open>sync_deletes\<close> enabled; the status folder has lost every UID of the delete
  list in a state \<open>s1\<close> in which the destination is still untouched, and the
  deletion on the destination starts from that state; the trace shows the call on
  the status folder before the call on the destination. So no state of the pass has a
  UID in the status folder that the pass has already deleted from the destination. In
  dry-run nothing is deleted anywhere.
\<close>

theorem syncmessagesto_delete_order:
  assumes "syncmessagesto_delete cfg srcops dstops s = (r, s')"
  shows "(\<not> dryrun cfg \<longrightarrow>
           (\<forall>uid \<in> set (filter (uidexists (dst s)) (deletelist_of cfg s)).
              sync_deletes cfg \<and> uidexists (dst s) uid \<and> uid \<in> set (deletelist_of cfg s)) \<and>
           (\<exists>s1. delete_from_status cfg (deletelist_of cfg s) s = (None, s1) \<and>
                 dst s1 = dst s \<and>
                 (\<forall>uid \<in> set (deletelist_of cfg s). \<not> uidexists (status s1) uid) \<and>
                 (deletelist_of cfg s \<noteq> [] \<longrightarrow>
                    delete_from_dst cfg dstops (filter (uidexists (dst s)) (deletelist_of cfg s)) s1 = (r, s')) \<and>
                 status s' = (if deletelist_of cfg s = [] then status s else status s1)) \<and>
           (\<forall>uid \<in> set (deletelist_of cfg s). \<not> uidexists (status s') uid) \<and>
           (if filter (uidexists (dst s)) (deletelist_of cfg s) = [] then dst s' = dst s
            else (r, dst s') = deletemessages dstops (dst s) (filter (uidexists (dst s)) (deletelist_of cfg s))) \<and>
           trace s' = trace s @
             (if deletelist_of cfg s = [] then []
              else Status_deletemessages (deletelist_of cfg s) #
                   (if filter (uidexists (dst s)) (deletelist_of cfg s) = [] then []
                    else [Ui_deletingmessages (filter (uidexists (dst s)) (deletelist_of cfg s)),
                          Dst_deletemessages (filter (uidexists (dst s)) (deletelist_of cfg s))]))) \<and>
         (dryrun cfg \<longrightarrow> r = None \<and> src s' = src s \<and> dst s' = dst s \<and> status s' = status s)"
proof (rule conjI; rule impI)
  assume nd: "\<not> dryrun cfg"
  show "(\<forall>uid \<in> set (filter (uidexists (dst s)) (deletelist_of cfg s)).
              sync_deletes cfg \<and> uidexists (dst s) uid \<and> uid \<in> set (deletelist_of cfg s)) \<and>
           (\<exists>s1. delete_from_status cfg (deletelist_of cfg s) s = (None, s1) \<and>
                 dst s1 = dst s \<and>
                 (\<forall>uid \<in> set (deletelist_of cfg s). \<not> uidexists (status s1) uid) \<and>
                 (deletelist_of cfg s \<noteq> [] \<longrightarrow>
                    delete_from_dst cfg dstops (filter (uidexists (dst s)) (deletelist_of cfg s)) s1 = (r, s')) \<and>
                 status s' = (if deletelist_of cfg s = [] then status s else status s1)) \<and>
           (\<forall>uid \<in> set (deletelist_of cfg s). \<not> uidexists (status s') uid) \<and>
           (if filter (uidexists (dst s)) (deletelist_of cfg s) = [] then dst s' = dst s
            else (r, dst s') = deletemessages dstops (dst s) (filter (uidexists (dst s)) (deletelist_of cfg s))) \<and>
           trace s' = trace s @
             (if deletelist_of cfg s = [] then []
              else Status_deletemessages (deletelist_of cfg s) #
                   (if filter (uidexists (dst s)) (deletelist_of cfg s) = [] then []
                    else [Ui_deletingmessages (filter (uidexists (dst s)) (deletelist_of cfg s)),
                          Dst_deletemessages (filter (uidexists (dst s)) (deletelist_of cfg s))]))"
    by (rule syncmessagesto_delete_order_aux [OF nd assms refl refl])
next
  assume dr: "dryrun cfg"
  have "syncmessagesto_delete cfg srcops dstops s =
          (None, if deletelist_of cfg s \<noteq> [] \<and> filter (uidexists (dst s)) (deletelist_of cfg s) \<noteq> []
                 then log [Ui_deletingmessages (filter (uidexists (dst s)) (deletelist_of cfg s))] s else s)"
    using dr
    by (simp add: syncmessagesto_delete_def delete_from_status_def delete_from_dst_def Let_def)
  with assms have "r = None" and "s' = (if deletelist_of cfg s \<noteq> [] \<and> filter (uidexists (dst s)) (deletelist_of cfg s) \<noteq> []
                 then log [Ui_deletingmessages (filter (uidexists (dst s)) (deletelist_of cfg s))] s else s)"
    by simp_all
  then show "r = None \<and> src s' = src s \<and> dst s' = dst s \<and> status s' = status s"
    by (simp add: log_def)
qed

theorem syncmessagesto_delete_order_witness:
  "\<not> dryrun default_settings \<and>
   deletelist_of default_settings (state_of [] [(7, msg_with {CHR ''S''})] [(7, msg_with {CHR ''S''})]) = [7] \<and>
   \<not> uidexists (status (snd (syncmessagesto_delete default_settings
        (IMAP_ops (plain_folder 1)) (IMAP_ops (plain_folder 1))
        (state_of [] [(7, msg_with {CHR ''S''})] [(7, msg_with {CHR ''S''})])))) 7 \<and>
   trace (snd (syncmessagesto_delete default_settings
        (IMAP_ops (plain_folder 1)) (IMAP_ops (plain_folder 1))
        (state_of [] [(7, msg_with {CHR ''S''})] [(7, msg_with {CHR ''S''})])))
     = [Status_deletemessages [7], Ui_deletingmessages [7], Dst_deletemessages [7]]"
proof -
  let ?s = "state_of [] [(7, msg_with {CHR ''S''})] [(7, msg_with {CHR ''S''})]"
  let ?run = "syncmessagesto_delete default_settings (IMAP_ops (plain_folder 1)) (IMAP_ops (plain_folder 1)) ?s"
  have nd: "\<not> dryrun default_settings" by (simp add: default_settings_def)
  have dl: "deletelist_of default_settings ?s = [7]"
    by (simp add: deletelist_of_def getmessageuidlist_def uidexists_def default_settings_def state_of_def)
  have f: "filter (uidexists (dst ?s)) [7] = [7]"
    by (simp add: uidexists_def state_of_def)
  have t: "trace ?s = []" by (simp add: state_of_def)
  note th = syncmessagesto_delete_order [of default_settings "IMAP_ops (plain_folder 1)"
        "IMAP_ops (plain_folder 1)" ?s "fst ?run" "snd ?run", OF prod.collapse [symmetric],
        THEN conjunct1, rule_format, OF nd]
  have c: "\<forall>uid \<in> set (deletelist_of default_settings ?s). \<not> uidexists (status (snd ?run)) uid"
    by (rule th [THEN conjunct2, THEN conjunct2, THEN conjunct1])
  have e: "trace (snd ?run) = trace ?s @
             (if deletelist_of default_settings ?s = [] then []
              else Status_deletemessages (deletelist_of default_settings ?s) #
                   (if filter (uidexists (dst ?s)) (deletelist_of default_settings ?s) = [] then []
                    else [Ui_deletingmessages (filter (uidexists (dst ?s)) (deletelist_of default_settings ?s)),
                          Dst_deletemessages (filter (uidexists (dst ?s)) (deletelist_of default_settings ?s))]))"
    by (rule th [THEN conjunct2, THEN conjunct2, THEN conjunct2, THEN conjunct2])
  have c7: "\<not> uidexists (status (snd ?run)) 7"
    using c by (simp only: dl) simp
  have e7: "trace (snd ?run) = [Status_deletemessages [7], Ui_deletingmessages [7], Dst_deletemessages [7]]"
    using e by (simp only: dl f t) simp
  show ?thesis
    using nd dl c7 e7 by (intro conjI)
qed

subsection \<open>Pass 1\<close>

lemma copymessageto_load_result:
  assumes "copymessageto_load srcops dstops uid s = (r, s1)"
  shows "src s1 = src s \<and> dst s1 = dst s \<and> status s1 = status s \<and> have_newmail s1 = have_newmail s \<and>
         trace s1 = trace s @ (if storesmessages dstops then [Src_getmessage uid] else [])"
  using assms
  by (auto simp: copymessageto_load_def log_def split: if_splits sum.splits)

lemma copymessageto_except_result:
  assumes "copymessageto_except e s = (r, s')"
  shows "src s' = src s \<and> dst s' = dst s \<and> status s' = status s \<and> have_newmail s' = have_newmail s \<and>
         (trace s' = trace s \<or> trace s' = trace s @ [Ui_error e])"
  using assms
  by (cases e) (auto simp: log_def split: if_splits)

lemma getmessageflags_Some: "map_of ml uid = Some m \<Longrightarrow> getmessageflags ml uid = Inr (flags m)"
  by (simp add: getmessageflags_def)

lemma getmessagetime_Some: "map_of ml uid = Some m \<Longrightarrow> getmessagetime ml uid = Inr (rtime m)"
  by (simp add: getmessagetime_def)





text \<open>
  Claim C6 as stated (Pass 1 records every UID greater than 0 that the source holds,
  the status folder lacks and the destination already has) fails for a UID that the
  loop of Pass 1 does not reach: a UID listed in \<^verbatim>\<open>copy_ignoreUIDs\<close> is taken off
  the copy list before the loop, and nothing is written to the status folder for it.
\<close>

theorem copy_ignored_uid_not_recorded:
  "syncmessagesto_copy (default_settings\<lparr>copy_ignoreUIDs := Some [5]\<rparr>)
     (IMAP_ops (plain_folder 1)) (IMAP_ops (plain_folder 1))
     (state_of [(5, msg_with {CHR ''S'', CHR ''F''})] [(5, msg_with {CHR ''S''})] [])
   = (None,
      \<lparr>src = [(5, msg_with {CHR ''S'', CHR ''F''})], dst = [(5, msg_with {CHR ''S''})], status = [],
       have_newmail = False, trace = [Ui_ignorecopyingmessage 5]\<rparr>)"
  by (simp add: syncmessagesto_copy_def getmessageuidlist_def uidexists_def
      default_settings_def state_of_def log_def)

lemma copy_ignore_result:
  "copy_ignore uids (copylist, es) = (copylist', es') \<Longrightarrow>
     (x \<notin> set uids \<longrightarrow> x \<in> set copylist \<longrightarrow> x \<in> set copylist') \<and>
     (\<exists>es2. es' = es @ es2 \<and> Src_getmessage y \<notin> set es2 \<and> Dst_savemessage y \<notin> set es2)"
proof (induction uids arbitrary: copylist es)
  case Nil
  then show ?case by simp
next
  case (Cons u uids)
  show ?case
  proof (cases "u \<in> set copylist")
    case True
    then have "copy_ignore uids (remove1 u copylist, es @ [Ui_ignorecopyingmessage u]) = (copylist', es')"
      using Cons.prems by simp
    from Cons.IH [OF this] show ?thesis by auto
  next
    case False
    then have "copy_ignore uids (copylist, es) = (copylist', es')"
      using Cons.prems by simp
    from Cons.IH [OF this] show ?thesis by auto
  qed
qed

lemma copy_round_record:
  assumes "uid > 0" and "uidexists (dst s) uid" and "map_of (src s) uid = Some m"
  shows "copy_round srcops dstops num_to_copy num uid s =
           (None, s\<lparr>status := status_savemessage (status s) uid (flags m) (rtime m),
                     trace := trace s @ [Status_savemessage uid]\<rparr>)"
  using assms by (simp add: copy_round_def getmessageflags_Some getmessagetime_Some log_def)

lemma copymessageto_saved_other:
  assumes "map_of (src s) uid = Some m"
    and "u \<noteq> uid" and "new_uid \<noteq> uid"
    and "\<forall>ml v n. map_of ml uid = Some m \<and> v \<noteq> uid \<and> n \<noteq> uid \<longrightarrow>
           map_of (snd (change_message_uid srcops ml v n)) uid = Some m"
    and "\<forall>ml v. map_of ml uid = Some m \<and> v \<noteq> uid \<longrightarrow>
           map_of (snd (deletemessage srcops ml v)) uid = Some m"
    and "copymessageto_saved srcops u new_uid fl t s = (r, s')"
  shows "map_of (src s') uid = Some m \<and> dst s' = dst s \<and>
         map_of (status s') uid = map_of (status s) uid \<and>
         (\<exists>es. trace s' = trace s @ es \<and> Src_getmessage uid \<notin> set es \<and> Dst_savemessage uid \<notin> set es)"
proof -
  have c: "map_of (snd (change_message_uid srcops (src s) u new_uid)) uid = Some m"
    using assms(1,2,3,4) by simp
  have d: "map_of (snd (deletemessage srcops (src s) u)) uid = Some m"
    using assms(1,2,5) by simp
  show ?thesis
    using assms(1,2,3,6) c d
    by (auto simp: copymessageto_saved_def log_def status_savemessage_def status_deletemessage_def
        update_conv' delete_conv' split: if_splits prod.splits option.splits)
qed

lemma copymessageto_try_other:
  assumes inv1: "map_of (src s) uid = Some m" and inv2: "uidexists (dst s) uid" and ne: "u \<noteq> uid"
    and f1: "\<forall>ml v b fl t. uidexists ml uid \<longrightarrow> uidexists (snd (savemessage dstops ml v b fl t)) uid"
    and f1b: "\<forall>ml v b fl t. uidexists ml uid \<and> v \<noteq> uid \<longrightarrow> fst (savemessage dstops ml v b fl t) \<noteq> Inr uid"
    and f2: "\<forall>ml v n. map_of ml uid = Some m \<and> v \<noteq> uid \<and> n \<noteq> uid \<longrightarrow>
           map_of (snd (change_message_uid srcops ml v n)) uid = Some m"
    and f3: "\<forall>ml v. map_of ml uid = Some m \<and> v \<noteq> uid \<longrightarrow>
           map_of (snd (deletemessage srcops ml v)) uid = Some m"
    and run: "copymessageto_try srcops dstops u s = (r, s')"
  shows "map_of (src s') uid = Some m \<and> uidexists (dst s') uid \<and>
         map_of (status s') uid = map_of (status s) uid \<and>
         (\<exists>es. trace s' = trace s @ es \<and> Src_getmessage uid \<notin> set es \<and> Dst_savemessage uid \<notin> set es)"
proof (cases "getmessageflags (src s) u")
  case (Inl e)
  then have "s' = s" using run by (simp add: copymessageto_try_def)
  then show ?thesis using inv1 inv2 by simp
next
  case fl: (Inr fl)
  show ?thesis
  proof (cases "getmessagetime (src s) u")
    case (Inl e)
    then have "s' = s" using run fl by (simp add: copymessageto_try_def)
    then show ?thesis using inv1 inv2 by simp
  next
    case t: (Inr t)
    obtain lr s1 where load: "copymessageto_load srcops dstops u s = (lr, s1)"
      by (cases "copymessageto_load srcops dstops u s")
    have l: "src s1 = src s" "dst s1 = dst s" "status s1 = status s"
      "trace s1 = trace s @ (if storesmessages dstops then [Src_getmessage u] else [])"
      using copymessageto_load_result [OF load] by simp_all
    show ?thesis
    proof (cases lr)
      case (Inl e)
      then have "s' = s1" using run fl t load by (simp add: copymessageto_try_def)
      then show ?thesis using inv1 inv2 l ne by simp
    next
      case (Inr message)
      obtain sr dst' where sv: "savemessage dstops (dst s) u message fl t = (sr, dst')"
        by (cases "savemessage dstops (dst s) u message fl t")
      have "uidexists (snd (savemessage dstops (dst s) u message fl t)) uid"
        using f1 inv2 by simp
      then have d': "uidexists dst' uid" using sv by simp
      let ?s2 = "log [Dst_savemessage u] (s1\<lparr>dst := dst'\<rparr>)"
      have s2: "src ?s2 = src s" "dst ?s2 = dst'" "status ?s2 = status s"
        "trace ?s2 = trace s @ (if storesmessages dstops then [Src_getmessage u] else []) @ [Dst_savemessage u]"
        using l by (simp_all add: log_def)
      show ?thesis
      proof (cases sr)
        case (Inl e)
        then have "s' = ?s2" using run fl t load Inr sv l by (simp add: copymessageto_try_def)
        then show ?thesis using inv1 d' s2 ne by simp
      next
        case new: (Inr new_uid)
        have "fst (savemessage dstops (dst s) u message fl t) \<noteq> Inr uid"
          using f1b inv2 ne by simp
        then have nn: "new_uid \<noteq> uid" using sv new by auto
        have sd: "copymessageto_saved srcops u new_uid fl t ?s2 = (r, s')"
          using run fl t load Inr sv l new by (simp add: copymessageto_try_def)
        have i2: "map_of (src ?s2) uid = Some m" using inv1 s2 by simp
        from copymessageto_saved_other [OF i2 ne nn f2 f3 sd]
        obtain es where r: "map_of (src s') uid = Some m" "dst s' = dst ?s2"
          "map_of (status s') uid = map_of (status ?s2) uid"
          "trace s' = trace ?s2 @ es" "Src_getmessage uid \<notin> set es" "Dst_savemessage uid \<notin> set es"
          by auto
        have tr: "trace s' = trace s @ ((if storesmessages dstops then [Src_getmessage u] else []) @ [Dst_savemessage u] @ es)"
          using r(4) s2(4) by simp
        have q: "Src_getmessage uid \<notin> set ((if storesmessages dstops then [Src_getmessage u] else []) @ [Dst_savemessage u] @ es)"
          "Dst_savemessage uid \<notin> set ((if storesmessages dstops then [Src_getmessage u] else []) @ [Dst_savemessage u] @ es)"
          using r(5,6) ne by auto
        show ?thesis using r(1,2,3) s2(2,3) d' tr q by metis
      qed
    qed
  qed
qed

lemma copymessageto_other:
  assumes inv1: "map_of (src s) uid = Some m" and inv2: "uidexists (dst s) uid" and ne: "u \<noteq> uid"
    and f1: "\<forall>ml v b fl t. uidexists ml uid \<longrightarrow> uidexists (snd (savemessage dstops ml v b fl t)) uid"
    and f1b: "\<forall>ml v b fl t. uidexists ml uid \<and> v \<noteq> uid \<longrightarrow> fst (savemessage dstops ml v b fl t) \<noteq> Inr uid"
    and f2: "\<forall>ml v n. map_of ml uid = Some m \<and> v \<noteq> uid \<and> n \<noteq> uid \<longrightarrow>
           map_of (snd (change_message_uid srcops ml v n)) uid = Some m"
    and f3: "\<forall>ml v. map_of ml uid = Some m \<and> v \<noteq> uid \<longrightarrow>
           map_of (snd (deletemessage srcops ml v)) uid = Some m"
    and run: "copymessageto srcops dstops u s = (r, s')"
  shows "map_of (src s') uid = Some m \<and> uidexists (dst s') uid \<and>
         map_of (status s') uid = map_of (status s) uid \<and>
         (\<exists>es. trace s' = trace s @ es \<and> Src_getmessage uid \<notin> set es \<and> Dst_savemessage uid \<notin> set es)"
proof -
  obtain rt st where tr: "copymessageto_try srcops dstops u s = (rt, st)"
    by (cases "copymessageto_try srcops dstops u s")
  from copymessageto_try_other [OF inv1 inv2 ne f1 f1b f2 f3 tr]
  obtain es where t: "map_of (src st) uid = Some m" "uidexists (dst st) uid"
    "map_of (status st) uid = map_of (status s) uid"
    "trace st = trace s @ es" "Src_getmessage uid \<notin> set es" "Dst_savemessage uid \<notin> set es"
    by auto
  show ?thesis
  proof (cases rt)
    case None
    then have "s' = st" using run tr by (simp add: copymessageto_def)
    then show ?thesis using t by auto
  next
    case (Some e)
    then have ex: "copymessageto_except e st = (r, s')" using run tr by (simp add: copymessageto_def)
    from copymessageto_except_result [OF ex]
    have x: "src s' = src st" "dst s' = dst st" "status s' = status st"
      "trace s' = trace st \<or> trace s' = trace st @ [Ui_error e]"
      by simp_all
    from x(4) have "\<exists>es'. trace s' = trace s @ es' \<and> Src_getmessage uid \<notin> set es' \<and> Dst_savemessage uid \<notin> set es'"
    proof
      assume "trace s' = trace st"
      then show ?thesis using t(4,5,6) by auto
    next
      assume "trace s' = trace st @ [Ui_error e]"
      then have "trace s' = trace s @ (es @ [Ui_error e])" using t(4) by simp
      moreover have "Src_getmessage uid \<notin> set (es @ [Ui_error e])" "Dst_savemessage uid \<notin> set (es @ [Ui_error e])"
        using t(5,6) by auto
      ultimately show ?thesis by blast
    qed
    then show ?thesis using x(1,2,3) t(1,2,3) by simp
  qed
qed

lemma copy_round_other:
  assumes inv1: "map_of (src s) uid = Some m" and inv2: "uidexists (dst s) uid" and ne: "u \<noteq> uid"
    and f1: "\<forall>ml v b fl t. uidexists ml uid \<longrightarrow> uidexists (snd (savemessage dstops ml v b fl t)) uid"
    and f1b: "\<forall>ml v b fl t. uidexists ml uid \<and> v \<noteq> uid \<longrightarrow> fst (savemessage dstops ml v b fl t) \<noteq> Inr uid"
    and f2: "\<forall>ml v n. map_of ml uid = Some m \<and> v \<noteq> uid \<and> n \<noteq> uid \<longrightarrow>
           map_of (snd (change_message_uid srcops ml v n)) uid = Some m"
    and f3: "\<forall>ml v. map_of ml uid = Some m \<and> v \<noteq> uid \<longrightarrow>
           map_of (snd (deletemessage srcops ml v)) uid = Some m"
    and run: "copy_round srcops dstops num_to_copy num u s = (r, s')"
  shows "map_of (src s') uid = Some m \<and> uidexists (dst s') uid \<and>
         map_of (status s') uid = map_of (status s) uid \<and>
         (\<exists>es. trace s' = trace s @ es \<and> Src_getmessage uid \<notin> set es \<and> Dst_savemessage uid \<notin> set es)"
proof (cases "u = 0")
  case True
  then have "s' = log [Ui_warn] s" using run by (simp add: copy_round_def)
  then show ?thesis using inv1 inv2 by (simp add: log_def)
next
  case nz: False
  show ?thesis
  proof (cases "u > 0 \<and> uidexists (dst s) u")
    case True
    then have "s' = s \<or>
      (\<exists>fl t. s' = log [Status_savemessage u] (s\<lparr>status := status_savemessage (status s) u fl t\<rparr>))"
      using run nz by (auto simp: copy_round_def split: sum.splits)
    then show ?thesis using inv1 inv2 ne
      by (auto simp: log_def status_savemessage_def update_conv')
  next
    case False
    let ?s0 = "log [Ui_copyingmessage u (num + 1) num_to_copy] s"
    have c: "copymessageto srcops dstops u ?s0 = (r, s')"
      using run nz False by (simp add: copy_round_def)
    have i1: "map_of (src ?s0) uid = Some m" using inv1 by (simp add: log_def)
    have i2: "uidexists (dst ?s0) uid" using inv2 by (simp add: log_def)
    from copymessageto_other [OF i1 i2 ne f1 f1b f2 f3 c]
    obtain es where t: "map_of (src s') uid = Some m" "uidexists (dst s') uid"
      "map_of (status s') uid = map_of (status ?s0) uid"
      "trace s' = trace ?s0 @ es" "Src_getmessage uid \<notin> set es" "Dst_savemessage uid \<notin> set es"
      by auto
    have tr: "trace s' = trace s @ (Ui_copyingmessage u (num + 1) num_to_copy # es)"
      using t(4) by (simp add: log_def)
    have q: "Src_getmessage uid \<notin> set (Ui_copyingmessage u (num + 1) num_to_copy # es)"
      "Dst_savemessage uid \<notin> set (Ui_copyingmessage u (num + 1) num_to_copy # es)"
      using t(5,6) by auto
    have st: "map_of (status s') uid = map_of (status s) uid" using t(3) by (simp add: log_def)
    show ?thesis using t(1,2) st tr q by blast
  qed
qed

lemma copy_loop_already_copied:
  assumes pos: "0 < uid"
    and f1: "\<forall>ml v b fl t. uidexists ml uid \<longrightarrow> uidexists (snd (savemessage dstops ml v b fl t)) uid"
    and f1b: "\<forall>ml v b fl t. uidexists ml uid \<and> v \<noteq> uid \<longrightarrow> fst (savemessage dstops ml v b fl t) \<noteq> Inr uid"
    and f2: "\<forall>ml v n. map_of ml uid = Some m \<and> v \<noteq> uid \<and> n \<noteq> uid \<longrightarrow>
           map_of (snd (change_message_uid srcops ml v n)) uid = Some m"
    and f3: "\<forall>ml v. map_of ml uid = Some m \<and> v \<noteq> uid \<longrightarrow>
           map_of (snd (deletemessage srcops ml v)) uid = Some m"
    and na: "\<not> abort_NOW_signal cfg"
    and rec: "rec = \<lparr>flags = flags m, rtime = rtime m, keywordset = Some {}\<rparr>"
  shows "map_of (src s) uid = Some m \<Longrightarrow> uidexists (dst s) uid \<Longrightarrow>
         copy_loop cfg srcops dstops num_to_copy num copylist s = (None, s') \<Longrightarrow>
         map_of (src s') uid = Some m \<and> uidexists (dst s') uid \<and>
         (map_of (status s) uid = Some rec \<longrightarrow> map_of (status s') uid = Some rec) \<and>
         (uid \<in> set copylist \<longrightarrow> map_of (status s') uid = Some rec) \<and>
         (\<exists>es. trace s' = trace s @ es \<and> Src_getmessage uid \<notin> set es \<and> Dst_savemessage uid \<notin> set es \<and>
               (uid \<in> set copylist \<longrightarrow> Status_savemessage uid \<in> set es))"
proof (induction copylist arbitrary: num s)
  case Nil
  then show ?case by simp
next
  case (Cons u copylist)
  obtain r1 s1 where rd: "copy_round srcops dstops num_to_copy num u s = (r1, s1)"
    by (cases "copy_round srcops dstops num_to_copy num u s")
  have r1: "r1 = None" using Cons.prems(3) rd na by (cases r1) simp_all
  have lp: "copy_loop cfg srcops dstops num_to_copy (num + 1) copylist s1 = (None, s')"
    using Cons.prems(3) rd na r1 by simp
  show ?case
  proof (cases "u = uid")
    case True
    have s1: "s1 = s\<lparr>status := status_savemessage (status s) uid (flags m) (rtime m),
                     trace := trace s @ [Status_savemessage uid]\<rparr>"
      using copy_round_record [OF pos Cons.prems(2,1), of srcops dstops num_to_copy num] rd True by simp
    have i1: "map_of (src s1) uid = Some m" using Cons.prems(1) s1 by simp
    have i2: "uidexists (dst s1) uid" using Cons.prems(2) s1 by simp
    have st: "map_of (status s1) uid = Some rec"
      using s1 rec by (simp add: status_savemessage_def update_conv')
    from Cons.IH [OF i1 i2 lp] st
    obtain es where t: "map_of (src s') uid = Some m" "uidexists (dst s') uid"
      "map_of (status s') uid = Some rec"
      "trace s' = trace s1 @ es" "Src_getmessage uid \<notin> set es" "Dst_savemessage uid \<notin> set es"
      by auto
    have tr: "trace s' = trace s @ (Status_savemessage uid # es)" using t(4) s1 by simp
    have q: "Src_getmessage uid \<notin> set (Status_savemessage uid # es)"
      "Dst_savemessage uid \<notin> set (Status_savemessage uid # es)"
      "Status_savemessage uid \<in> set (Status_savemessage uid # es)"
      using t(5,6) by auto
    show ?thesis using t(1,2,3) tr q by blast
  next
    case False
    from copy_round_other [OF Cons.prems(1,2) False f1 f1b f2 f3 rd]
    obtain es1 where a: "map_of (src s1) uid = Some m" "uidexists (dst s1) uid"
      "map_of (status s1) uid = map_of (status s) uid"
      "trace s1 = trace s @ es1" "Src_getmessage uid \<notin> set es1" "Dst_savemessage uid \<notin> set es1"
      by auto
    from Cons.IH [OF a(1,2) lp]
    obtain es where t: "map_of (src s') uid = Some m" "uidexists (dst s') uid"
      "map_of (status s1) uid = Some rec \<longrightarrow> map_of (status s') uid = Some rec"
      "uid \<in> set copylist \<longrightarrow> map_of (status s') uid = Some rec"
      "trace s' = trace s1 @ es" "Src_getmessage uid \<notin> set es" "Dst_savemessage uid \<notin> set es"
      "uid \<in> set copylist \<longrightarrow> Status_savemessage uid \<in> set es"
      by auto
    have tr: "trace s' = trace s @ (es1 @ es)" using t(5) a(4) by simp
    have q: "Src_getmessage uid \<notin> set (es1 @ es)" "Dst_savemessage uid \<notin> set (es1 @ es)"
      "uid \<in> set (u # copylist) \<longrightarrow> Status_savemessage uid \<in> set (es1 @ es)"
      using t(6,7,8) a(5,6) False by auto
    have st1: "map_of (status s) uid = Some rec \<longrightarrow> map_of (status s') uid = Some rec"
      using t(3) a(3) by simp
    have st2: "uid \<in> set (u # copylist) \<longrightarrow> map_of (status s') uid = Some rec"
      using t(4) False by simp
    show ?thesis using t(1,2) st1 st2 tr q by blast
  qed
qed

text \<open>
  Claim C6, amended: let \<open>uid\<close> be greater than 0, held by the source, not by the
  status folder, and held by the destination when Pass 1 starts. If \<open>uid\<close> is not listed
  in \<^verbatim>\<open>copy_ignoreUIDs\<close>, the run is not a dry-run, the abort latch is not set, Pass 1
  ends without raising, and the backends leave the message alone while other messages are
  copied (a \<^verbatim>\<open>savemessage\<close> of the destination never drops \<open>uid\<close> from the destination
  nor returns \<open>uid\<close> for another message; \<^verbatim>\<open>change_message_uid\<close> and
  \<^verbatim>\<open>deletemessage\<close> of the source on another message leave the entry of \<open>uid\<close>),
  then after Pass 1 the status folder holds under \<open>uid\<close> the flags and the time of the
  source's message, the source's entry is as before, the destination still holds \<open>uid\<close>,
  and among the calls Pass 1 traced there is the write to the status folder for \<open>uid\<close>
  but neither a load of the body of \<open>uid\<close> nor a \<^verbatim>\<open>savemessage\<close> on the destination
  for \<open>uid\<close>.
\<close>

theorem syncmessagesto_copy_already_copied:
  assumes "0 < uid"
    and "map_of (src s) uid = Some m"
    and "\<not> uidexists (status s) uid"
    and "uidexists (dst s) uid"
    and "\<not> dryrun cfg"
    and "\<not> abort_NOW_signal cfg"
    and "\<forall>uids. copy_ignoreUIDs cfg = Some uids \<longrightarrow> uid \<notin> set uids"
    and "\<forall>ml v b fl t. uidexists ml uid \<longrightarrow> uidexists (snd (savemessage dstops ml v b fl t)) uid"
    and "\<forall>ml v b fl t. uidexists ml uid \<and> v \<noteq> uid \<longrightarrow> fst (savemessage dstops ml v b fl t) \<noteq> Inr uid"
    and "\<forall>ml v n. map_of ml uid = Some m \<and> v \<noteq> uid \<and> n \<noteq> uid \<longrightarrow>
           map_of (snd (change_message_uid srcops ml v n)) uid = Some m"
    and "\<forall>ml v. map_of ml uid = Some m \<and> v \<noteq> uid \<longrightarrow>
           map_of (snd (deletemessage srcops ml v)) uid = Some m"
    and "syncmessagesto_copy cfg srcops dstops s = (None, s')"
  shows "map_of (status s') uid = Some \<lparr>flags = flags m, rtime = rtime m, keywordset = Some {}\<rparr> \<and>
         map_of (src s') uid = Some m \<and> uidexists (dst s') uid \<and>
         (\<exists>es. trace s' = trace s @ es \<and> Status_savemessage uid \<in> set es \<and>
               Src_getmessage uid \<notin> set es \<and> Dst_savemessage uid \<notin> set es)"
proof -
  let ?s0 = "s\<lparr>have_newmail := False\<rparr>"
  let ?cl0 = "filter (\<lambda>u. \<not> uidexists (status ?s0) u) (getmessageuidlist (src ?s0))"
  let ?rec = "\<lparr>flags = flags m, rtime = rtime m, keywordset = Some {}\<rparr>"
  define p where "p = (case copy_ignoreUIDs cfg of
                         None \<Rightarrow> (?cl0, [])
                       | Some uids \<Rightarrow> copy_ignore uids (?cl0, []))"
  let ?s1 = "log (snd p) ?s0"
  have in0: "uid \<in> set ?cl0"
    using assms(2,3) by (simp add: set_getmessageuidlist) (simp add: uidexists_def)
  have pp: "uid \<in> set (fst p) \<and> Src_getmessage uid \<notin> set (snd p) \<and> Dst_savemessage uid \<notin> set (snd p)"
  proof (cases "copy_ignoreUIDs cfg")
    case None
    then show ?thesis using in0 by (simp add: p_def)
  next
    case (Some uids)
    then have ni: "uid \<notin> set uids" using assms(7) by simp
    have "copy_ignore uids (?cl0, []) = (fst p, snd p)" using Some by (simp add: p_def)
    from copy_ignore_result [OF this, of uid uid] ni in0 show ?thesis by auto
  qed
  have unf: "syncmessagesto_copy cfg srcops dstops s =
               (if length ?cl0 > 0 \<and> dryrun cfg
                then (None, log [Ui_info_dryrun_copy (length ?cl0)] ?s1)
                else (case copy_loop cfg srcops dstops (length ?cl0) 0 (fst p) ?s1 of
                        (Some e, s2) \<Rightarrow> (Some e, s2)
                      | (None, s2) \<Rightarrow>
                          (if have_newmail s2 \<and> newmail_hook cfg then (None, log [Newmail_hook] s2)
                           else (None, s2))))"
    unfolding p_def by (simp add: syncmessagesto_copy_def Let_def split_beta)
  obtain r2 s2 where lp: "copy_loop cfg srcops dstops (length ?cl0) 0 (fst p) ?s1 = (r2, s2)"
    by (cases "copy_loop cfg srcops dstops (length ?cl0) 0 (fst p) ?s1")
  have r2: "r2 = None" and fin: "s' = s2 \<or> s' = log [Newmail_hook] s2"
    using assms(5,12) lp unfolding unf by (auto split: option.splits if_splits)
  have i1: "map_of (src ?s1) uid = Some m" using assms(2) by (simp add: log_def)
  have i2: "uidexists (dst ?s1) uid" using assms(4) by (simp add: log_def)
  from copy_loop_already_copied [OF assms(1,8,9,10,11,6) refl i1 i2 lp [unfolded r2]] pp
  obtain es where t: "map_of (src s2) uid = Some m" "uidexists (dst s2) uid"
    "map_of (status s2) uid = Some ?rec"
    "trace s2 = trace ?s1 @ es" "Src_getmessage uid \<notin> set es" "Dst_savemessage uid \<notin> set es"
    "Status_savemessage uid \<in> set es"
    by auto
  have tr2: "trace s2 = trace s @ (snd p @ es)" using t(4) by (simp add: log_def)
  have a: "map_of (status s') uid = Some ?rec" using fin t(3) by (auto simp: log_def)
  have b: "map_of (src s') uid = Some m" using fin t(1) by (auto simp: log_def)
  have c: "uidexists (dst s') uid" using fin t(2) by (auto simp: log_def)
  have d: "\<exists>es. trace s' = trace s @ es \<and> Status_savemessage uid \<in> set es \<and>
               Src_getmessage uid \<notin> set es \<and> Dst_savemessage uid \<notin> set es"
    using fin
  proof
    assume "s' = s2"
    then have "trace s' = trace s @ (snd p @ es)" using tr2 by simp
    moreover have "Status_savemessage uid \<in> set (snd p @ es)" "Src_getmessage uid \<notin> set (snd p @ es)"
      "Dst_savemessage uid \<notin> set (snd p @ es)"
      using t(5,6,7) pp by auto
    ultimately show ?thesis by blast
  next
    assume "s' = log [Newmail_hook] s2"
    then have "trace s' = trace s @ (snd p @ es @ [Newmail_hook])" using tr2 by (simp add: log_def)
    moreover have "Status_savemessage uid \<in> set (snd p @ es @ [Newmail_hook])"
      "Src_getmessage uid \<notin> set (snd p @ es @ [Newmail_hook])"
      "Dst_savemessage uid \<notin> set (snd p @ es @ [Newmail_hook])"
      using t(5,6,7) pp by auto
    ultimately show ?thesis by blast
  qed
  show ?thesis using a b c d by (intro conjI)
qed

theorem syncmessagesto_copy_already_copied_witness:
  "(0::int) < 5 \<and>
   map_of (src (state_of [(3, msg_with {}), (5, msg_with {CHR ''S'', CHR ''F''})] [(5, msg_with {CHR ''S''})] [])) 5
     = Some (msg_with {CHR ''S'', CHR ''F''}) \<and>
   \<not> uidexists (status (state_of [(3, msg_with {}), (5, msg_with {CHR ''S'', CHR ''F''})] [(5, msg_with {CHR ''S''})] [])) 5 \<and>
   uidexists (dst (state_of [(3, msg_with {}), (5, msg_with {CHR ''S'', CHR ''F''})] [(5, msg_with {CHR ''S''})] [])) 5 \<and>
   \<not> dryrun (default_settings\<lparr>copy_ignoreUIDs := Some [7]\<rparr>) \<and>
   \<not> abort_NOW_signal (default_settings\<lparr>copy_ignoreUIDs := Some [7]\<rparr>) \<and>
   copy_ignoreUIDs (default_settings\<lparr>copy_ignoreUIDs := Some [7]\<rparr>) = Some [7] \<and>
   (5::int) \<notin> set [7] \<and>
   syncmessagesto_copy (default_settings\<lparr>copy_ignoreUIDs := Some [7]\<rparr>) (IMAP_ops (plain_folder 20)) (IMAP_ops (plain_folder 20))
     (state_of [(3, msg_with {}), (5, msg_with {CHR ''S'', CHR ''F''})] [(5, msg_with {CHR ''S''})] [])
   = (None,
      \<lparr>src = [(3, msg_with {}), (5, msg_with {CHR ''S'', CHR ''F''})],
       dst = [(5, msg_with {CHR ''S''}), (20, \<lparr>flags = {}, rtime = 0, keywordset = None\<rparr>)],
       status = [(5, msg_with {CHR ''S'', CHR ''F''})],
       have_newmail = False,
       trace = [Ui_copyingmessage 3 1 2, Src_getmessage 3, Dst_savemessage 3, Src_change_message_uid 3 20,
                Ui_error (OfflineImapError MESSAGE), Status_savemessage 5]\<rparr>) \<and>
   map_of [(5, msg_with {CHR ''S'', CHR ''F''})] 5
     = Some \<lparr>flags = {CHR ''S'', CHR ''F''}, rtime = 0, keywordset = Some {}\<rparr>"
proof -
  let ?s = "state_of [(3, msg_with {}), (5, msg_with {CHR ''S'', CHR ''F''})] [(5, msg_with {CHR ''S''})] []"
  let ?ops = "IMAP_ops (plain_folder 20)"
  let ?cfg = "default_settings\<lparr>copy_ignoreUIDs := Some [7]\<rparr>"
  let ?m = "msg_with {CHR ''S'', CHR ''F''}"
  let ?s' = "\<lparr>src = [(3, msg_with {}), (5, msg_with {CHR ''S'', CHR ''F''})],
       dst = [(5, msg_with {CHR ''S''}), (20, \<lparr>flags = {}, rtime = 0, keywordset = None\<rparr>)],
       status = [(5, msg_with {CHR ''S'', CHR ''F''})],
       have_newmail = False,
       trace = [Ui_copyingmessage 3 1 2, Src_getmessage 3, Dst_savemessage 3, Src_change_message_uid 3 20,
                Ui_error (OfflineImapError MESSAGE), Status_savemessage 5]\<rparr>"
  have h1: "(0::int) < 5" by simp
  have h2: "map_of (src ?s) 5 = Some ?m" by (simp add: state_of_def)
  have h3: "\<not> uidexists (status ?s) 5" by (simp add: state_of_def uidexists_def)
  have h4: "uidexists (dst ?s) 5" by (simp add: state_of_def uidexists_def)
  have h5: "\<not> dryrun ?cfg" by (simp add: default_settings_def)
  have h6: "\<not> abort_NOW_signal ?cfg" by (simp add: default_settings_def)
  have h7': "copy_ignoreUIDs ?cfg = Some [7]" by simp
  have h7'': "(5::int) \<notin> set [7]" by simp
  have h7: "\<forall>uids. copy_ignoreUIDs ?cfg = Some uids \<longrightarrow> 5 \<notin> set uids" by simp
  have h8: "\<forall>ml v b fl t. uidexists ml 5 \<longrightarrow> uidexists (snd (savemessage ?ops ml v b fl t)) 5"
    using IMAP_savemessage_keeps_uids by (simp add: IMAP_ops_def)
  have h9: "\<forall>ml v b fl t. uidexists ml 5 \<and> v \<noteq> 5 \<longrightarrow> fst (savemessage ?ops ml v b fl t) \<noteq> Inr 5"
    using plain_savemessage_result [of _ 5 20] by (simp add: IMAP_ops_def)
  have h10: "\<forall>ml v n. map_of ml 5 = Some ?m \<and> v \<noteq> 5 \<and> n \<noteq> 5 \<longrightarrow>
           map_of (snd (change_message_uid ?ops ml v n)) 5 = Some ?m"
    by (simp add: IMAP_ops_def)
  have h11: "\<forall>ml v. map_of ml 5 = Some ?m \<and> v \<noteq> 5 \<longrightarrow>
           map_of (snd (deletemessage ?ops ml v)) 5 = Some ?m"
    using plain_deletemessage_other [of _ 5 20] by (simp add: IMAP_ops_def)
  have sv: "savemessage ?ops [(5, msg_with {CHR ''S''})] 3 (Some example_email) {} 0
              = (Inr 20, [(5, msg_with {CHR ''S''}), (20, \<lparr>flags = {}, rtime = 0, keywordset = None\<rparr>)])"
    by (simp add: imap_eval numeral_2_eq_2 msg_with_def)
  have g: "getmessage ?ops ml 3 = Inr example_email" for ml
    by (simp add: IMAP_ops_def plain_folder_def plain_server_def example_email_def)
  have ch: "change_message_uid ?ops ml 3 20 = (Some (OfflineImapError MESSAGE), ml)" for ml
    by (simp add: IMAP_ops_def)
  have st: "storesmessages ?ops" by (simp add: IMAP_ops_def)
  have h12: "syncmessagesto_copy ?cfg ?ops ?ops ?s = (None, ?s')"
    by (simp add: syncmessagesto_copy_def copy_round_def
      copymessageto_def copymessageto_try_def copymessageto_load_def copymessageto_saved_def
      getmessageuidlist_def getmessageflags_def getmessagetime_def uidexists_def
      status_savemessage_def
      default_settings_def state_of_def log_def g st ch sv [unfolded msg_with_def] msg_with_def)
  note th = syncmessagesto_copy_already_copied [OF h1 h2 h3 h4 h5 h6 h7 h8 h9 h10 h11 h12, THEN conjunct1]
  have r: "map_of [(5, msg_with {CHR ''S'', CHR ''F''})] 5
     = Some \<lparr>flags = {CHR ''S'', CHR ''F''}, rtime = 0, keywordset = Some {}\<rparr>"
    using th by (simp add: msg_with_def)
  show ?thesis using h1 h2 h3 h4 h5 h6 h7' h7'' h12 r by (intro conjI)
qed

subsection \<open>The pass loop\<close>

text \<open>
  Claim C5 as stated (an error of severity Folder raised by a pass breaks the pass
  loop, so that no later pass of the folder runs) fails: the handler of
  \<^verbatim>\<open>syncmessagesto\<close> reports an \<^verbatim>\<open>OfflineImapError\<close> whose severity is not above
  Folder and the \<^verbatim>\<open>for\<close> loop goes on with the next pass. Here the fetch of the
  body of UID 10 fails with severity Folder in Pass 1; the error is reported, and
  Pass 2 still removes the stale UID 7 from the status folder.
\<close>

theorem folder_error_does_not_stop_passes:
  "syncmessagesto default_settings (IMAP_ops unselectable_folder) (IMAP_ops (plain_folder 1))
     (state_of [(10, msg_with {CHR ''S''})] [] [(7, msg_with {CHR ''S''})])
   = (None,
      \<lparr>src = [(10, msg_with {CHR ''S''})], dst = [], status = [], have_newmail = False,
       trace = [Ui_copyingmessage 10 1 1, Src_getmessage 10, Ui_error (OfflineImapError FOLDER),
                Status_deletemessages [7]]\<rparr>)"
  by (simp add: syncmessagesto_def syncmessagesto_passes_def syncmessagesto_copy_def copy_round_def
      copymessageto_def copymessageto_try_def copymessageto_load_def
      syncmessagesto_delete_def deletelist_of_def delete_from_status_def delete_from_dst_def
      status_deletemessages_def status_deletemessage_def
      syncmessagesto_flags_def getmessageuidlist_def
      default_settings_def state_of_def msg_with_def log_def unselectable_folder_def imap_eval)

text \<open>
  Claim C5, amended: when a pass raises an \<^verbatim>\<open>OfflineImapError\<close> whose severity
  is not above Folder, \<^verbatim>\<open>syncmessagesto\<close> reports it and runs the remaining
  passes from the state the pass left; one whose severity is above Folder leaves
  \<^verbatim>\<open>syncmessagesto\<close> at once and no later pass runs. Inside Pass 1, an error of
  severity Message raised while one message is copied is reported by
  \<^verbatim>\<open>copymessageto\<close> and the loop goes on with the next message.
\<close>

theorem syncmessagesto_error_handling:
  "(\<not> abort_NOW_signal cfg \<and> action s = (Some (OfflineImapError sev), s1) \<and>
      severity_rank sev \<le> severity_rank FOLDER \<longrightarrow>
      run_passes cfg (action # passes) s =
      run_passes cfg passes (log [Ui_error (OfflineImapError sev)] s1)) \<and>
   (\<not> abort_NOW_signal cfg \<and> action s = (Some (OfflineImapError sev), s1) \<and>
      severity_rank sev > severity_rank FOLDER \<longrightarrow>
      run_passes cfg (action # passes) s = (Some (OfflineImapError sev), s1)) \<and>
   syncmessagesto cfg srcops dstops s =
     run_passes cfg [syncmessagesto_copy cfg srcops dstops, syncmessagesto_delete cfg srcops dstops,
                     syncmessagesto_flags cfg srcops dstops] s \<and>
   (\<not> abort_NOW_signal cfg \<and> uid \<noteq> 0 \<and> \<not> (uid > 0 \<and> uidexists (dst s) uid) \<and>
      copymessageto_try srcops dstops uid (log [Ui_copyingmessage uid (num + 1) num_to_copy] s)
        = (Some (OfflineImapError MESSAGE), s2) \<longrightarrow>
      copy_loop cfg srcops dstops num_to_copy num (uid # copylist) s =
      copy_loop cfg srcops dstops num_to_copy (num + 1) copylist
        (log [Ui_error (OfflineImapError MESSAGE)] s2))"
  by (simp add: syncmessagesto_def syncmessagesto_passes_def copy_round_def copymessageto_def)

theorem syncmessagesto_error_handling_witness:
  "\<not> abort_NOW_signal default_settings \<and>
   syncmessagesto_copy default_settings (IMAP_ops unselectable_folder) (IMAP_ops (plain_folder 1))
     (state_of [(10, msg_with {CHR ''S''})] [] [(7, msg_with {CHR ''S''})])
   = (Some (OfflineImapError FOLDER),
      \<lparr>src = [(10, msg_with {CHR ''S''})], dst = [], status = [(7, msg_with {CHR ''S''})],
       have_newmail = False, trace = [Ui_copyingmessage 10 1 1, Src_getmessage 10]\<rparr>) \<and>
   severity_rank FOLDER \<le> severity_rank FOLDER \<and>
   run_passes default_settings
     [syncmessagesto_copy default_settings (IMAP_ops unselectable_folder) (IMAP_ops (plain_folder 1))]
     (state_of [(10, msg_with {CHR ''S''})] [] [(7, msg_with {CHR ''S''})])
   = (None,
      \<lparr>src = [(10, msg_with {CHR ''S''})], dst = [], status = [(7, msg_with {CHR ''S''})],
       have_newmail = False,
       trace = [Ui_copyingmessage 10 1 1, Src_getmessage 10, Ui_error (OfflineImapError FOLDER)]\<rparr>)"
proof -
  let ?s = "state_of [(10, msg_with {CHR ''S''})] [] [(7, msg_with {CHR ''S''})]"
  let ?s1 = "\<lparr>src = [(10, msg_with {CHR ''S''})], dst = [], status = [(7, msg_with {CHR ''S''})],
       have_newmail = False, trace = [Ui_copyingmessage 10 1 1, Src_getmessage 10]\<rparr>"
  let ?copy = "syncmessagesto_copy default_settings (IMAP_ops unselectable_folder) (IMAP_ops (plain_folder 1))"
  have h1: "\<not> abort_NOW_signal default_settings" by (simp add: default_settings_def)
  have h2: "?copy ?s = (Some (OfflineImapError FOLDER), ?s1)"
    by (simp add: syncmessagesto_copy_def copy_round_def
      copymessageto_def copymessageto_try_def copymessageto_load_def getmessageuidlist_def
      default_settings_def state_of_def msg_with_def log_def unselectable_folder_def imap_eval)
  have h3: "severity_rank FOLDER \<le> severity_rank FOLDER" by simp
  note th = syncmessagesto_error_handling [THEN conjunct1, rule_format,
    of default_settings ?copy ?s FOLDER ?s1 "[]", OF conjI [OF h1 conjI [OF h2 h3]]]
  have "run_passes default_settings [?copy] ?s
        = (None, \<lparr>src = [(10, msg_with {CHR ''S''})], dst = [], status = [(7, msg_with {CHR ''S''})],
       have_newmail = False,
       trace = [Ui_copyingmessage 10 1 1, Src_getmessage 10, Ui_error (OfflineImapError FOLDER)]\<rparr>)"
    using th by (simp add: log_def)
  then show ?thesis using h1 h2 h3 by (intro conjI)
qed

section \<open>Properties of Pass 3\<close>

lemma flaglist_append_get:
  "flaglist_get (flaglist_append uid flag d) f =
     (if f = flag then flaglist_get d f @ [uid] else flaglist_get d f)"
  by (simp add: flaglist_append_def flaglist_get_def update_conv' split: option.splits)

lemma flaglist_append_distinct:
  "distinct (map fst d) \<Longrightarrow> distinct (map fst (flaglist_append uid flag d))"
  by (simp add: flaglist_append_def distinct_update split: option.splits)

lemma flaglist_fold_get:
  "distinct fs \<Longrightarrow>
   flaglist_get (fold (flaglist_append uid) fs d) f =
     flaglist_get d f @ (if f \<in> set fs then [uid] else [])"
  by (induction fs arbitrary: d) (auto simp: flaglist_append_get)

lemma flaglist_fold_distinct:
  "distinct (map fst d) \<Longrightarrow> distinct (map fst (fold (flaglist_append uid) fs d))"
  by (induction fs arbitrary: d) (simp_all add: flaglist_append_distinct)

lemma flaglist_extend_get:
  "flaglist_get (flaglist_extend uid fls d) f = flaglist_get d f @ (if f \<in> fls then [uid] else [])"
  by (simp add: flaglist_extend_def flaglist_fold_get)

lemma flaglist_extend_distinct:
  "distinct (map fst d) \<Longrightarrow> distinct (map fst (flaglist_extend uid fls d))"
  by (simp add: flaglist_extend_def flaglist_fold_distinct)

lemma flaglist_get_member:
  "distinct (map fst items) \<Longrightarrow>
   (\<exists>us. (f, us) \<in> set items \<and> u \<in> set us) \<longleftrightarrow> u \<in> set (flaglist_get items f)"
  by (auto simp: flaglist_get_def split: option.splits dest: map_of_SomeD weak_map_of_SomeI)

lemma statusflags_of_total:
  "statusflags_of st uid = Inr (case flags_of st uid of None \<Rightarrow> {} | Some fl \<Rightarrow> fl)"
  by (auto simp: statusflags_of_def uidexists_def getmessageflags_def flags_of_def split: option.splits)

lemma keywordletterset_known:
  assumes "ks \<subseteq> set (map fst km)"
  shows "keywordletterset km ks = Inr (mapped_keywords (Some km) ks)"
proof -
  have "\<not> (\<exists>keyw \<in> ks. map_of km keyw = None)"
    using assms by (auto simp: map_of_eq_None_iff)
  then show ?thesis by (simp add: keywordletterset_def mapped_keywords_def)
qed

lemma mapped_keywords_inter:
  "mapped_keywords (Some km) (ks \<inter> set (map fst km)) = mapped_keywords (Some km) ks"
proof -
  have "\<And>k c. map_of km k = Some c \<Longrightarrow> k \<in> set (map fst km)"
    by (metis map_of_eq_None_iff option.distinct(1) set_map)
  then show ?thesis by (auto simp: mapped_keywords_def)
qed

lemma mapped_keywords_inter_image:
  "mapped_keywords (Some km) (ks \<inter> fst ` set km) = mapped_keywords (Some km) ks"
  using mapped_keywords_inter [of km ks] by simp

lemma combine_mapped_result:
  "combine_mapped km uid selfflags ks s =
     (Inr (selfflags \<union> mapped_keywords (Some km) ks),
      if ks \<subseteq> set (map fst km) then s
      else log [Ui_warn] (s\<lparr>src := set_keywords (src s) uid (ks \<inter> set (map fst km))\<rparr>))"
proof (cases "ks \<subseteq> set (map fst km)")
  case True
  then show ?thesis
    by (simp add: combine_mapped_def keywordletterset_known)
next
  case False
  have "keywordletterset km (ks \<inter> set (map fst km)) = Inr (mapped_keywords (Some km) ks)"
    using keywordletterset_known [of "ks \<inter> set (map fst km)" km] by (simp add: mapped_keywords_inter_image)
  with False show ?thesis
    by (simp add: combine_mapped_def)
qed

lemma set_keywords_effective:
  assumes "map_of ml uid = Some m" and "keywordset m = Some ks" and "getkeywordmap dstops = Inr (Some km)"
  shows "effective_of srcops dstops (set_keywords ml uid (ks \<inter> set (map fst km))) = effective_of srcops dstops ml"
proof
  fix u
  show "effective_of srcops dstops (set_keywords ml uid (ks \<inter> set (map fst km))) u = effective_of srcops dstops ml u"
  proof (cases "u = uid")
    case True
    have "effective_flags srcops dstops (m\<lparr>keywordset := Some (ks \<inter> set (map fst km))\<rparr>)
            = effective_flags srcops dstops m"
      using assms(2,3) by (simp add: effective_flags_def src_keywords_def mapped_keywords_inter_image)
    then show ?thesis using True assms(1)
      by (simp add: effective_of_def set_keywords_def update_conv')
  next
    case False
    then show ?thesis using assms(1)
      by (simp add: effective_of_def set_keywords_def update_conv')
  qed
qed

lemma set_keywords_flags_of:
  "flags_of (set_keywords ml uid ks) = flags_of ml"
  by (rule ext) (auto simp: flags_of_def set_keywords_def update_conv' split: option.splits)

lemma combine_result:
  assumes "combine_flags_and_keywords srcops dstops uid s = (r, s1)"
  shows "dst s1 = dst s \<and> status s1 = status s \<and>
         effective_of srcops dstops (src s1) = effective_of srcops dstops (src s) \<and>
         flags_of (src s1) = flags_of (src s) \<and>
         (\<forall>fl. r = Inr fl \<longrightarrow> effective_of srcops dstops (src s) uid = Some fl)"
proof (cases "map_of (src s) uid")
  case None
  then show ?thesis using assms
    by (auto simp: combine_flags_and_keywords_def getmessageflags_def)
next
  case (Some m)
  note m = Some
  have gf: "getmessageflags (src s) uid = Inr (flags m)" using m by (simp add: getmessageflags_def)
  show ?thesis
  proof (cases "getkeywordmap dstops")
    case (Inl e)
    then show ?thesis using assms gf m
      by (auto simp: combine_flags_and_keywords_def effective_of_def effective_flags_def split: if_splits)
  next
    case (Inr kmo)
    show ?thesis
    proof (cases kmo)
      case None
      then show ?thesis using assms gf m Inr
        by (auto simp: combine_flags_and_keywords_def effective_of_def effective_flags_def mapped_keywords_def)
    next
      case (Some km)
      note km = Some
      show ?thesis
      proof (cases "has_keywords srcops")
        case False
        then have "getmessagekeywords srcops (src s) uid = Inl NotImplementedError"
          by (simp add: getmessagekeywords_def)
        then show ?thesis using assms gf m Inr km False
          by (auto simp: combine_flags_and_keywords_def effective_of_def effective_flags_def
              src_keywords_def mapped_keywords_def)
      next
        case True
        show ?thesis
        proof (cases "keywordset m")
          case None
          then have "getmessagekeywords srcops (src s) uid = Inl KeyError"
            using True m by (simp add: getmessagekeywords_def)
          then show ?thesis using assms gf Inr km
            by (auto simp: combine_flags_and_keywords_def)
        next
          case (Some ks)
          then have gk: "getmessagekeywords srcops (src s) uid = Inr ks"
            using True m by (simp add: getmessagekeywords_def)
          let ?s1 = "if ks \<subseteq> set (map fst km) then s
                     else log [Ui_warn] (s\<lparr>src := set_keywords (src s) uid (ks \<inter> set (map fst km))\<rparr>)"
          have res: "r = Inr (flags m \<union> mapped_keywords (Some km) ks)" "s1 = ?s1"
            using assms gf Inr km gk
            by (simp_all add: combine_flags_and_keywords_def combine_mapped_result)
          have eff: "effective_of srcops dstops (src s) uid = Some (flags m \<union> mapped_keywords (Some km) ks)"
            using m Inr km True Some
            by (simp add: effective_of_def effective_flags_def src_keywords_def)
          have inv: "effective_of srcops dstops (src ?s1) = effective_of srcops dstops (src s)"
            using set_keywords_effective [OF m Some, of dstops km srcops] Inr km
            by (simp add: log_def)
          have fl: "flags_of (src ?s1) = flags_of (src s)"
            by (simp add: log_def set_keywords_flags_of)
          have st: "dst ?s1 = dst s" "status ?s1 = status s"
            by (simp_all add: log_def)
          show ?thesis using res eff inv fl st by simp
        qed
      qed
    qed
  qed
qed

lemma flags_of_update:
  "flags_of (AList.update k m ml) = (flags_of ml)(k \<mapsto> flags m)"
  by (rule ext) (simp add: flags_of_def update_conv')

lemma uidexists_flags_of: "uidexists ml uid \<longleftrightarrow> flags_of ml uid \<noteq> None"
  by (simp add: uidexists_def flags_of_def)

lemma getmessageflags_flags_of:
  "getmessageflags ml uid = (case flags_of ml uid of None \<Rightarrow> Inl KeyError | Some fl \<Rightarrow> Inr fl)"
  by (simp add: getmessageflags_def flags_of_def split: option.splits)

lemma status_addmessagesflags_result:
  "\<exists>st'. status_addmessagesflags st uids fl = (None, st') \<and>
          flags_of st' = (\<lambda>u. map_option (\<lambda>F. if u \<in> set uids then F \<union> fl else F) (flags_of st u))"
proof (induction uids arbitrary: st)
  case Nil
  show ?case by (simp add: status_addmessagesflags_def option.map_ident)
next
  case (Cons uid uids)
  show ?case
  proof (cases "map_of st uid")
    case None
    then have ne: "\<not> uidexists st uid" by (simp add: uidexists_def)
    obtain st' where st': "status_addmessagesflags st uids fl = (None, st')"
      and fl: "flags_of st' = (\<lambda>u. map_option (\<lambda>F. if u \<in> set uids then F \<union> fl else F) (flags_of st u))"
      using Cons [of st] by blast
    have "status_addmessagesflags st (uid # uids) fl = (None, st')"
      using st' ne by (simp add: status_addmessagesflags_def)
    moreover have "flags_of st' = (\<lambda>u. map_option (\<lambda>F. if u \<in> set (uid # uids) then F \<union> fl else F) (flags_of st u))"
    proof (rule ext)
      fix u
      show "flags_of st' u = map_option (\<lambda>F. if u \<in> set (uid # uids) then F \<union> fl else F) (flags_of st u)"
        using None by (cases "u = uid") (simp_all add: fl flags_of_def)
    qed
    ultimately show ?thesis by blast
  next
    case (Some m)
    let ?st1 = "AList.update uid (m\<lparr>flags := flags m \<union> fl\<rparr>) st"
    have ex: "uidexists st uid" using Some by (simp add: uidexists_def)
    have one: "Base_addmessageflags status_savemessageflags st uid fl = (None, ?st1)"
      using Some by (simp add: Base_addmessageflags_def getmessageflags_def status_savemessageflags_def)
    obtain st' where st': "status_addmessagesflags ?st1 uids fl = (None, st')"
      and fl: "flags_of st' = (\<lambda>u. map_option (\<lambda>F. if u \<in> set uids then F \<union> fl else F) (flags_of ?st1 u))"
      using Cons [of ?st1] by blast
    have "status_addmessagesflags st (uid # uids) fl = (None, st')"
      using st' ex one by (simp add: status_addmessagesflags_def)
    moreover have "flags_of st' = (\<lambda>u. map_option (\<lambda>F. if u \<in> set (uid # uids) then F \<union> fl else F) (flags_of st u))"
      using fl Some by (auto simp: flags_of_update flags_of_def fun_eq_iff)
    ultimately show ?thesis by blast
  qed
qed

lemma status_deletemessagesflags_result:
  assumes "status_deletemessagesflags st uids fl = (None, st')"
  shows "flags_of st' = (\<lambda>u. map_option (\<lambda>F. if u \<in> set uids then F - fl else F) (flags_of st u))"
  using assms
proof (induction uids arbitrary: st)
  case Nil
  then show ?case by (simp add: status_deletemessagesflags_def option.map_ident)
next
  case (Cons uid uids)
  show ?case
  proof (cases "map_of st uid")
    case None
    then have "Base_deletemessageflags status_savemessageflags st uid fl = (Some KeyError, st)"
      by (simp add: Base_deletemessageflags_def getmessageflags_def)
    then have "status_deletemessagesflags st (uid # uids) fl = (Some KeyError, st)"
      by (simp add: status_deletemessagesflags_def)
    with Cons.prems show ?thesis by simp
  next
    case (Some m)
    let ?st1 = "AList.update uid (m\<lparr>flags := flags m - fl\<rparr>) st"
    have one: "Base_deletemessageflags status_savemessageflags st uid fl = (None, ?st1)"
      using Some by (simp add: Base_deletemessageflags_def getmessageflags_def status_savemessageflags_def)
    then have "status_deletemessagesflags st (uid # uids) fl = status_deletemessagesflags ?st1 uids fl"
      by (simp add: status_deletemessagesflags_def)
    with Cons.prems have "status_deletemessagesflags ?st1 uids fl = (None, st')" by simp
    from Cons.IH [OF this]
    have fl: "flags_of st' = (\<lambda>u. map_option (\<lambda>F. if u \<in> set uids then F - fl else F) (flags_of ?st1 u))" .
    show ?thesis
      using fl Some by (auto simp: flags_of_update flags_of_def fun_eq_iff)
  qed
qed

lemma flags_add_loop_result:
  assumes "\<not> dryrun cfg" and "flags_add_loop cfg dstops items s = (None, s')"
  shows "src s' = src s \<and>
         flags_of (status s') =
           (\<lambda>u. map_option (\<lambda>F. F \<union> {f. \<exists>us. (f, us) \<in> set items \<and> u \<in> set us}) (flags_of (status s) u))"
  using assms(2)
proof (induction items arbitrary: s)
  case Nil
  then show ?case by (simp add: option.map_ident)
next
  case (Cons item items)
  obtain flag uids where item: "item = (flag, uids)" by (cases item)
  let ?s1 = "log [Ui_addingflags uids flag] s"
  obtain r dst' where d: "addmessagesflags dstops (dst ?s1) uids {flag} = (r, dst')"
    by (cases "addmessagesflags dstops (dst ?s1) uids {flag}")
  obtain st' where st': "status_addmessagesflags (status ?s1) uids {flag} = (None, st')"
    and fl: "flags_of st' = (\<lambda>u. map_option (\<lambda>F. if u \<in> set uids then F \<union> {flag} else F) (flags_of (status ?s1) u))"
    using status_addmessagesflags_result by blast
  let ?s2 = "log [Dst_addmessagesflags uids flag, Status_addmessagesflags uids flag]
               (?s1\<lparr>dst := dst', status := st'\<rparr>)"
  have rn: "r = None"
    using Cons.prems item d assms(1) by (cases r) (simp_all add: Let_def)
  have "flags_add_loop cfg dstops items ?s2 = (None, s')"
    using Cons.prems item d st' rn assms(1) by (simp add: Let_def)
  from Cons.IH [OF this]
  have a: "src s' = src ?s2"
    and b: "flags_of (status s') =
           (\<lambda>u. map_option (\<lambda>F. F \<union> {f. \<exists>us. (f, us) \<in> set items \<and> u \<in> set us}) (flags_of (status ?s2) u))"
    by simp_all
  have s2: "src ?s2 = src s" "status ?s2 = st'" "status ?s1 = status s"
    by (simp_all add: log_def)
  show ?case
  proof (intro conjI ext)
    show "src s' = src s" using a s2 by simp
  next
    fix u
    show "flags_of (status s') u =
          map_option (\<lambda>F. F \<union> {f. \<exists>us. (f, us) \<in> set (item # items) \<and> u \<in> set us}) (flags_of (status s) u)"
    proof (cases "flags_of (status s) u")
      case None
      then show ?thesis using b s2 fl by simp
    next
      case (Some F)
      have "(if u \<in> set uids then F \<union> {flag} else F) \<union> {f. \<exists>us. (f, us) \<in> set items \<and> u \<in> set us}
            = F \<union> {f. \<exists>us. (f, us) \<in> set (item # items) \<and> u \<in> set us}"
        using item by auto
      then show ?thesis using b s2 fl Some by simp
    qed
  qed
qed

lemma flags_del_loop_result:
  assumes "\<not> dryrun cfg" and "flags_del_loop cfg dstops items s = (None, s')"
  shows "src s' = src s \<and>
         flags_of (status s') =
           (\<lambda>u. map_option (\<lambda>F. F - {f. \<exists>us. (f, us) \<in> set items \<and> u \<in> set us}) (flags_of (status s) u))"
  using assms(2)
proof (induction items arbitrary: s)
  case Nil
  then show ?case by (simp add: option.map_ident)
next
  case (Cons item items)
  obtain flag uids where item: "item = (flag, uids)" by (cases item)
  let ?s1 = "log [Ui_deletingflags uids flag] s"
  obtain r dst' where d: "deletemessagesflags dstops (dst ?s1) uids {flag} = (r, dst')"
    by (cases "deletemessagesflags dstops (dst ?s1) uids {flag}")
  obtain r2 st' where st': "status_deletemessagesflags (status ?s1) uids {flag} = (r2, st')"
    by (cases "status_deletemessagesflags (status ?s1) uids {flag}")
  let ?s2 = "log [Dst_deletemessagesflags uids flag, Status_deletemessagesflags uids flag]
               (?s1\<lparr>dst := dst', status := st'\<rparr>)"
  have rn: "r = None"
    using Cons.prems item d assms(1) by (cases r) (simp_all add: Let_def)
  have r2n: "r2 = None"
    using Cons.prems item d st' rn assms(1) by (cases r2) (simp_all add: Let_def)
  have fl: "flags_of st' = (\<lambda>u. map_option (\<lambda>F. if u \<in> set uids then F - {flag} else F) (flags_of (status ?s1) u))"
    using status_deletemessagesflags_result st' r2n by blast
  have "flags_del_loop cfg dstops items ?s2 = (None, s')"
    using Cons.prems item d st' rn r2n assms(1) by (simp add: Let_def)
  from Cons.IH [OF this]
  have a: "src s' = src ?s2"
    and b: "flags_of (status s') =
           (\<lambda>u. map_option (\<lambda>F. F - {f. \<exists>us. (f, us) \<in> set items \<and> u \<in> set us}) (flags_of (status ?s2) u))"
    by simp_all
  have s2: "src ?s2 = src s" "status ?s2 = st'" "status ?s1 = status s"
    by (simp_all add: log_def)
  show ?case
  proof (intro conjI ext)
    show "src s' = src s" using a s2 by simp
  next
    fix u
    show "flags_of (status s') u =
          map_option (\<lambda>F. F - {f. \<exists>us. (f, us) \<in> set (item # items) \<and> u \<in> set us}) (flags_of (status s) u)"
    proof (cases "flags_of (status s) u")
      case None
      then show ?thesis using b s2 fl by simp
    next
      case (Some F)
      have "(if u \<in> set uids then F - {flag} else F) - {f. \<exists>us. (f, us) \<in> set items \<and> u \<in> set us}
            = F - {f. \<exists>us. (f, us) \<in> set (item # items) \<and> u \<in> set us}"
        using item by auto
      then show ?thesis using b s2 fl Some by simp
    qed
  qed
qed

lemma flags_collect_result:
  assumes "flags_collect srcops dstops uids (a, d) s = (Inr (a', d'), s')"
  shows "dst s' = dst s \<and> status s' = status s \<and>
         effective_of srcops dstops (src s') = effective_of srcops dstops (src s) \<and>
         flags_of (src s') = flags_of (src s) \<and>
         (\<forall>f. flaglist_get a' f = flaglist_get a f @
                filter (\<lambda>u. 0 \<le> u \<and> uidexists (dst s) u \<and>
                            f \<in> (case effective_of srcops dstops (src s) u of None \<Rightarrow> {} | Some e \<Rightarrow> e) -
                                (case flags_of (status s) u of None \<Rightarrow> {} | Some F \<Rightarrow> F)) uids) \<and>
         (\<forall>f. flaglist_get d' f = flaglist_get d f @
                filter (\<lambda>u. 0 \<le> u \<and> uidexists (dst s) u \<and>
                            f \<in> (case flags_of (status s) u of None \<Rightarrow> {} | Some F \<Rightarrow> F) -
                                (case effective_of srcops dstops (src s) u of None \<Rightarrow> {} | Some e \<Rightarrow> e)) uids) \<and>
         (distinct (map fst a) \<longrightarrow> distinct (map fst a')) \<and>
         (distinct (map fst d) \<longrightarrow> distinct (map fst d'))"
  using assms
proof (induction uids arbitrary: a d s)
  case Nil
  then show ?case by simp
next
  case (Cons uid uids)
  show ?case
  proof (cases "uid < 0 \<or> \<not> uidexists (dst s) uid")
    case True
    then have "flags_collect srcops dstops uids (a, d) s = (Inr (a', d'), s')"
      using Cons.prems by simp
    from Cons.IH [OF this] True show ?thesis by auto
  next
    case False
    let ?S = "case flags_of (status s) uid of None \<Rightarrow> {} | Some F \<Rightarrow> F"
    have sf: "statusflags_of (status s) uid = Inr ?S" by (rule statusflags_of_total)
    obtain r s1 where c: "combine_flags_and_keywords srcops dstops uid s = (r, s1)"
      by (cases "combine_flags_and_keywords srcops dstops uid s")
    obtain self where r: "r = Inr self"
      using Cons.prems False sf c by (cases r) simp_all
    note cr = combine_result [OF c]
    have eff: "effective_of srcops dstops (src s) uid = Some self" using cr r by simp
    have rest: "flags_collect srcops dstops uids
                  (flaglist_extend uid (self - ?S) a, flaglist_extend uid (?S - self) d) s1 = (Inr (a', d'), s')"
      using Cons.prems False sf c r by simp
    note ih = Cons.IH [OF rest]
    have eq: "dst s1 = dst s" "status s1 = status s"
      "effective_of srcops dstops (src s1) = effective_of srcops dstops (src s)"
      "flags_of (src s1) = flags_of (src s)"
      using cr by simp_all
    have el: "0 \<le> uid" "uidexists (dst s) uid" using False by auto
    show ?thesis
      using ih eff el
      by (simp add: eq flaglist_extend_get flaglist_extend_distinct)
  qed
qed

lemma syncmessagesto_flags_status_aux:
  assumes "\<not> dryrun cfg" and "syncmessagesto_flags cfg srcops dstops s = (None, s')"
    and "map_of (src s) uid = Some m" and "0 \<le> uid" and "uidexists (dst s) uid"
  shows "flags_of (status s') uid = map_option (\<lambda>F. effective_flags srcops dstops m) (flags_of (status s) uid) \<and>
         flags_of (src s') uid = Some (flags m)"
proof -
  let ?uids = "getmessageuidlist (src s)"
  obtain rc s1 where col: "flags_collect srcops dstops ?uids ([], []) s = (rc, s1)"
    by (cases "flags_collect srcops dstops ?uids ([], []) s")
  obtain a d where rc: "rc = Inr (a, d)"
    using assms(2) col by (cases rc) (auto simp: syncmessagesto_flags_def)
  obtain ra s2 where add: "flags_add_loop cfg dstops a s1 = (ra, s2)"
    by (cases "flags_add_loop cfg dstops a s1")
  have ra: "ra = None"
    using assms(2) col rc add by (cases ra) (simp_all add: syncmessagesto_flags_def)
  have del: "flags_del_loop cfg dstops d s2 = (None, s')"
    using assms(2) col rc add ra by (simp add: syncmessagesto_flags_def)
  note cres = flags_collect_result [OF col [unfolded rc]]
  note ares = flags_add_loop_result [OF assms(1) add [unfolded ra]]
  note dres = flags_del_loop_result [OF assms(1) del]
  let ?E = "effective_flags srcops dstops m"
  have mem: "uid \<in> set ?uids"
    using assms(3) by (simp add: set_getmessageuidlist uidexists_def)
  have eff: "effective_of srcops dstops (src s) uid = Some ?E"
    using assms(3) by (simp add: effective_of_def)
  have da: "distinct (map fst a)" and dd: "distinct (map fst d)"
    using cres by simp_all
  have srcfl: "flags_of (src s') uid = Some (flags m)"
    using cres ares dres assms(3) by (simp add: flags_of_def)
  show ?thesis
  proof (cases "flags_of (status s) uid")
    case None
    then show ?thesis using cres ares dres srcfl by simp
  next
    case (Some F)
    have A: "{f. \<exists>us. (f, us) \<in> set a \<and> uid \<in> set us} = ?E - F"
      using cres mem eff Some assms(4,5)
      by (auto simp: flaglist_get_member [OF da] flaglist_get_def)
    have D: "{f. \<exists>us. (f, us) \<in> set d \<and> uid \<in> set us} = F - ?E"
      using cres mem eff Some assms(4,5)
      by (auto simp: flaglist_get_member [OF dd] flaglist_get_def)
    have "F \<union> (?E - F) - (F - ?E) = ?E" by auto
    then show ?thesis
      using cres ares dres srcfl Some A D by simp
  qed
qed

lemma syncmessagesto_completed:
  assumes "\<not> abort_NOW_signal cfg"
    and "syncmessagesto_copy cfg srcops dstops s = (None, s1)"
    and "syncmessagesto_delete cfg srcops dstops s1 = (None, s2)"
    and "syncmessagesto_flags cfg srcops dstops s2 = (None, s3)"
  shows "syncmessagesto cfg srcops dstops s = (None, s3)"
  using assms by (simp add: syncmessagesto_def syncmessagesto_passes_def)

text \<open>
  Claim C1 as stated (after a full sync every UID greater than 0 that source and
  destination hold has, in the status folder, the flags of the source united with its
  mapped keywords) fails for a UID without an entry in the status folder. With UID 5
  listed in \<^verbatim>\<open>copy_ignoreUIDs\<close>, Pass 1 does not record it, and Pass 3 adds flags in
  the status folder only to entries that exist (\<^verbatim>\<open>addmessagesflags\<close> tests
  \<^verbatim>\<open>uidexists\<close>): the three passes run to the end, source and destination both
  hold UID 5, and the status folder is empty.
\<close>

theorem full_sync_ignored_uid_has_no_status:
  "syncmessagesto (default_settings\<lparr>copy_ignoreUIDs := Some [5]\<rparr>)
     (IMAP_ops (plain_folder 1)) (IMAP_ops (plain_folder 1))
     (state_of [(5, msg_with {CHR ''S'', CHR ''F''})] [(5, msg_with {CHR ''S''})] [])
   = (None,
      \<lparr>src = [(5, msg_with {CHR ''S'', CHR ''F''})],
       dst = [(5, msg_with {CHR ''S'', CHR ''F''})],
       status = [],
       have_newmail = False,
       trace = [Ui_ignorecopyingmessage 5,
                Ui_addingflags [5] CHR ''F'', Dst_addmessagesflags [5] CHR ''F'',
                Status_addmessagesflags [5] CHR ''F'',
                Ui_addingflags [5] CHR ''S'', Dst_addmessagesflags [5] CHR ''S'',
                Status_addmessagesflags [5] CHR ''S'']\<rparr>)"
  by (simp add: syncmessagesto_def syncmessagesto_passes_def syncmessagesto_copy_def
      syncmessagesto_delete_def deletelist_of_def
      syncmessagesto_flags_def combine_flags_and_keywords_def statusflags_of_def
      flaglist_extend_def flaglist_append_def
      status_addmessagesflags_def status_deletemessagesflags_def
      getmessageuidlist_def default_settings_def state_of_def msg_with_def log_def imap_eval
      insert_commute)

text \<open>
  Claim C1, amended: when Pass 3 has run to its end outside dry-run, every UID that
  is not negative, that the source and the destination hold and that has an entry in
  the status folder has there the flags of the source's message united with its
  keywords mapped through the keyword map of the destination, unmapped keywords being
  dropped; a UID without an entry in the status folder still has none; and the flags
  of the source's message are as they were. The state after a full sync whose passes
  all run to their end is the state Pass 3 leaves (\<open>syncmessagesto_completed\<close>).
\<close>

theorem syncmessagesto_flags_status:
  assumes "\<not> dryrun cfg" and "syncmessagesto_flags cfg srcops dstops s = (None, s')"
    and "map_of (src s) uid = Some m" and "0 \<le> uid" and "uidexists (dst s) uid"
  shows "(uidexists (status s) uid \<longrightarrow>
            getmessageflags (status s') uid = Inr (effective_flags srcops dstops m)) \<and>
         (\<not> uidexists (status s) uid \<longrightarrow> \<not> uidexists (status s') uid) \<and>
         getmessageflags (src s') uid = Inr (flags m)"
  using syncmessagesto_flags_status_aux [OF assms]
  by (auto simp: uidexists_flags_of getmessageflags_flags_of)

theorem syncmessagesto_flags_status_witness:
  "\<not> dryrun default_settings \<and>
   syncmessagesto_flags default_settings (IMAP_ops (plain_folder 1)) (IMAP_ops (plain_folder 1))
     (state_of [(5, msg_with {CHR ''S'', CHR ''F''})] [(5, msg_with {CHR ''S''})] [(5, msg_with {CHR ''S''})])
   = (None,
      \<lparr>src = [(5, msg_with {CHR ''S'', CHR ''F''})],
       dst = [(5, msg_with {CHR ''S'', CHR ''F''})],
       status = [(5, msg_with {CHR ''S'', CHR ''F''})],
       have_newmail = False,
       trace = [Ui_addingflags [5] CHR ''F'', Dst_addmessagesflags [5] CHR ''F'',
                Status_addmessagesflags [5] CHR ''F'']\<rparr>) \<and>
   map_of (src (state_of [(5, msg_with {CHR ''S'', CHR ''F''})] [(5, msg_with {CHR ''S''})]
                  [(5, msg_with {CHR ''S''})])) 5 = Some (msg_with {CHR ''S'', CHR ''F''}) \<and>
   (0::int) \<le> 5 \<and>
   uidexists (dst (state_of [(5, msg_with {CHR ''S'', CHR ''F''})] [(5, msg_with {CHR ''S''})]
                  [(5, msg_with {CHR ''S''})])) 5 \<and>
   uidexists (status (state_of [(5, msg_with {CHR ''S'', CHR ''F''})] [(5, msg_with {CHR ''S''})]
                  [(5, msg_with {CHR ''S''})])) 5 \<and>
   effective_flags (IMAP_ops (plain_folder 1)) (IMAP_ops (plain_folder 1)) (msg_with {CHR ''S'', CHR ''F''})
     = {CHR ''S'', CHR ''F''} \<and>
   getmessageflags [(5, msg_with {CHR ''S'', CHR ''F''})] 5 = Inr {CHR ''S'', CHR ''F''}"
proof -
  let ?ops = "IMAP_ops (plain_folder 1)"
  let ?s = "state_of [(5, msg_with {CHR ''S'', CHR ''F''})] [(5, msg_with {CHR ''S''})] [(5, msg_with {CHR ''S''})]"
  let ?s' = "\<lparr>src = [(5, msg_with {CHR ''S'', CHR ''F''})],
       dst = [(5, msg_with {CHR ''S'', CHR ''F''})],
       status = [(5, msg_with {CHR ''S'', CHR ''F''})],
       have_newmail = False,
       trace = [Ui_addingflags [5] CHR ''F'', Dst_addmessagesflags [5] CHR ''F'',
                Status_addmessagesflags [5] CHR ''F'']\<rparr>"
  have h1: "\<not> dryrun default_settings" by (simp add: default_settings_def)
  have d1: "{CHR ''S'', CHR ''F''} - {CHR ''S''} = {CHR ''F''}" by auto
  have d2: "{CHR ''S''} - {CHR ''S'', CHR ''F''} = {}" by auto
  have u: "getmessageuidlist (src ?s) = [5]"
    by (simp add: getmessageuidlist_def state_of_def)
  have c1: "flags_collect ?ops ?ops [5] ([], []) ?s = (Inr ([(CHR ''F'', [5])], []), ?s)"
    by (simp add: d1 d2 combine_flags_and_keywords_def statusflags_of_def
      flaglist_extend_def flaglist_append_def getmessageflags_def uidexists_def
      state_of_def msg_with_def IMAP_ops_def plain_folder_def)
  have c2: "addmessagesflags ?ops [(5, msg_with {CHR ''S''})] [5] {CHR ''F''}
              = (None, [(5, msg_with {CHR ''S'', CHR ''F''})])"
    by (simp add: imap_eval msg_with_def insert_commute)
  have c3: "status_addmessagesflags [(5, msg_with {CHR ''S''})] [5] {CHR ''F''}
              = (None, [(5, msg_with {CHR ''S'', CHR ''F''})])"
    by (simp add: status_addmessagesflags_def status_savemessageflags_def Base_addmessageflags_def
      getmessageflags_def uidexists_def msg_with_def insert_commute)
  have h2: "syncmessagesto_flags default_settings ?ops ?ops ?s = (None, ?s')"
    unfolding syncmessagesto_flags_def u c1
    by (simp add: state_of_def log_def default_settings_def c2 c3)
  have h3: "map_of (src ?s) 5 = Some (msg_with {CHR ''S'', CHR ''F''})" by (simp add: state_of_def)
  have h4: "(0::int) \<le> 5" by simp
  have h5: "uidexists (dst ?s) 5" by (simp add: state_of_def uidexists_def)
  have h6: "uidexists (status ?s) 5" by (simp add: state_of_def uidexists_def)
  have e: "effective_flags ?ops ?ops (msg_with {CHR ''S'', CHR ''F''}) = {CHR ''S'', CHR ''F''}"
    by (simp add: effective_flags_def mapped_keywords_def IMAP_ops_def plain_folder_def msg_with_def)
  note th = syncmessagesto_flags_status [OF h1 h2 h3 h4 h5, THEN conjunct1, rule_format, OF h6]
  have g: "getmessageflags [(5, msg_with {CHR ''S'', CHR ''F''})] 5 = Inr {CHR ''S'', CHR ''F''}"
    using th e by simp
  show ?thesis using h1 h2 h3 h4 h5 h6 e g by (intro conjI)
qed

end
